(* ===== verification/Prelude.thy ===== *)
theory Prelude
  imports Main "HOL-Library.Word" "HOL-Library.Multiset"
    "HOL-Library.Code_Target_Nat" "HOL-Library.List_Lexorder" "HOL-Library.Char_ord"
begin

text \<open>
  Shared vocabulary of the development. A Go call either returns a value or stops the
  goroutine that made it: it panics, it ends the process, or it never returns. The type
  \<open>'a go\<close> is the sum of the two, and \<open>go_bind\<close> is sequential composition: what
  comes after a call that stops is not executed. State is passed explicitly. The
  generic lemmas on lists that several components use are at the end.
\<close>

section \<open>Calls that may not return\<close>

datatype go_stop =
    NilDeref              \<comment> \<open>nil pointer or nil interface dereferenced\<close>
  | IndexOutOfRange       \<comment> \<open>slice or array index out of range\<close>
  | TypeAssertion         \<comment> \<open>\<open>x.(T)\<close> with another dynamic type\<close>
  | CloseOfClosedChannel  \<comment> \<open>\<open>close\<close> of a closed channel\<close>
  | NilMapWrite           \<comment> \<open>assignment to an entry of a nil map\<close>
  | ExitProcess nat       \<comment> \<open>\<open>os.Exit\<close> with this code\<close>
  | UserPanic string      \<comment> \<open>\<open>panic(msg)\<close>\<close>
  | Diverges              \<comment> \<open>a loop that does not end\<close>

type_synonym 'a go = "go_stop + 'a"

definition go_bind :: "'a go \<Rightarrow> ('a \<Rightarrow> 'b go) \<Rightarrow> 'b go" where
  "go_bind m f = (case m of Inl e \<Rightarrow> Inl e | Inr x \<Rightarrow> f x)"

lemma go_bind_Inl [simp]: "go_bind (Inl e) f = Inl e"
  by (simp add: go_bind_def)

lemma go_bind_Inr [simp]: "go_bind (Inr x) f = f x"
  by (simp add: go_bind_def)

lemma go_bind_assoc: "go_bind (go_bind m f) g = go_bind m (\<lambda>x. go_bind (f x) g)"
  by (cases m) simp_all

lemma go_bind_eq_Inr: "go_bind m f = Inr y \<longleftrightarrow> (\<exists>x. m = Inr x \<and> f x = Inr y)"
  by (cases m) simp_all

lemma go_bind_eq_Inl:
  "go_bind m f = Inl e \<longleftrightarrow> m = Inl e \<or> (\<exists>x. m = Inr x \<and> f x = Inl e)"
  by (cases m) auto

text \<open>\<open>returns m\<close>: the call comes back to its caller.\<close>

definition returns :: "'a go \<Rightarrow> bool" where
  "returns m \<longleftrightarrow> (case m of Inl _ \<Rightarrow> False | Inr _ \<Rightarrow> True)"

lemma returns_simps [simp]: "returns (Inr x)" "\<not> returns (Inl e)"
  by (simp_all add: returns_def)

lemma returns_iff: "returns m \<longleftrightarrow> (\<exists>x. m = Inr x)"
  by (cases m) simp_all

named_theorems go_result \<open>what a call returns, as an equation or an existential\<close>
named_theorems inv_keep \<open>preservation of an invariant by one operation\<close>

section \<open>Lists\<close>

lemma find_Some_split:
  "List.find P xs = Some x \<Longrightarrow> \<exists>us vs. xs = us @ x # vs \<and> P x \<and> (\<forall>u\<in>set us. \<not> P u)"
proof (induction xs)
  case Nil
  then show ?case by simp
next
  case (Cons y ys)
  show ?case
  proof (cases "P y")
    case True
    with Cons.prems have "y # ys = [] @ x # ys \<and> P x" by simp
    then show ?thesis by fastforce
  next
    case False
    with Cons.prems Cons.IH obtain us vs
      where "ys = us @ x # vs" "P x" "\<forall>u\<in>set us. \<not> P u" by auto
    with False have "y # ys = (y # us) @ x # vs \<and> P x \<and> (\<forall>u\<in>set (y # us). \<not> P u)" by simp
    then show ?thesis by blast
  qed
qed

lemma find_SomeD: "List.find P xs = Some x \<Longrightarrow> x \<in> set xs \<and> P x"
  by (auto dest!: find_Some_split)

lemma find_NoneD: "List.find P xs = None \<Longrightarrow> x \<in> set xs \<Longrightarrow> \<not> P x"
  by (simp add: find_None_iff)

lemma find_None_filter: "List.find P xs = None \<longleftrightarrow> filter P xs = []"
  by (auto simp: find_None_iff filter_empty_conv)

lemma bex_set_map: "(\<exists>y\<in>set (map f xs). P y) \<longleftrightarrow> (\<exists>x\<in>set xs. P (f x))"
  by simp

lemma inj_on_set_distinct_map:
  "distinct (map f xs) \<Longrightarrow> x \<in> set xs \<Longrightarrow> y \<in> set xs \<Longrightarrow> f x = f y \<Longrightarrow> x = y"
  by (auto simp: distinct_map inj_on_def)

end
