(* ===== verification/GoStrings.thy ===== *)
theory GoStrings
  imports Prelude
begin

text \<open>
  The functions of Go's \<open>strings\<close> and \<open>fmt\<close> packages that the controller uses. A Go string
  is a sequence of bytes, here a \<open>char list\<close>; \<open>strings.Split\<close> and \<open>strings.Trim\<close> are only
  called with one-byte separators and cutsets, and \<open>%d\<close>/\<open>%v\<close> only print integers.
\<close>

section \<open>Split, Trim\<close>

definition dquote :: char where
  "dquote = CHR 0x22"

text \<open>\<open>strings.Split(s, sep)\<close> for a separator of one byte.\<close>

fun str_split :: "char \<Rightarrow> string \<Rightarrow> string list" where
  "str_split c [] = [[]]"
| "str_split c (x # xs) =
     (if x = c then [] # str_split c xs
      else (case str_split c xs of [] \<Rightarrow> [[x]] | y # ys \<Rightarrow> (x # y) # ys))"

text \<open>\<open>strings.Trim(s, cutset)\<close> for a cutset of one byte.\<close>

definition str_trim :: "char \<Rightarrow> string \<Rightarrow> string" where
  "str_trim c s = rev (dropWhile (\<lambda>x. x = c) (rev (dropWhile (\<lambda>x. x = c) s)))"

fun str_join :: "string \<Rightarrow> string list \<Rightarrow> string" where
  "str_join sep [] = []"
| "str_join sep [s] = s"
| "str_join sep (s # t # ss) = s @ sep @ str_join sep (t # ss)"

lemma str_split_not_Nil [simp]: "str_split c s \<noteq> []"
  by (cases s) (auto split: list.splits)

lemma length_str_split_pos [simp]: "0 < length (str_split c s)"
  by simp

lemma str_split_plain: "c \<notin> set s \<Longrightarrow> str_split c s = [s]"
  by (induction s) auto

lemma str_split_append: "c \<notin> set s \<Longrightarrow> str_split c (s @ c # t) = s # str_split c t"
  by (induction s) auto

lemma str_split_join:
  "xs \<noteq> [] \<Longrightarrow> \<forall>x\<in>set xs. c \<notin> set x \<Longrightarrow> str_split c (str_join [c] xs) = xs"
  by (induction "[c]" xs rule: str_join.induct) (auto simp: str_split_plain str_split_append)

lemma join_split: "str_join [c] (str_split c s) = s"
proof (induction s)
  case Nil
  then show ?case by simp
next
  case (Cons x xs)
  then show ?case
    by (cases "str_split c xs"; cases "tl (str_split c xs)") auto
qed

lemma split_parts_plain: "p \<in> set (str_split c s) \<Longrightarrow> c \<notin> set p"
  by (induction s arbitrary: p) (auto split: if_splits list.splits)

lemma str_trim_plain: "c \<notin> set s \<Longrightarrow> str_trim c s = s"
proof -
  assume c: "c \<notin> set s"
  have drop: "dropWhile (\<lambda>x. x = c) t = t" if "c \<notin> set t" for t
    using that by (cases t) auto
  show ?thesis using c by (simp add: str_trim_def drop)
qed

text \<open>\<open>strings.ToLower\<close> on ASCII text.\<close>

definition to_lower :: "string \<Rightarrow> string" where
  "to_lower s = map (\<lambda>c. let n = of_char c :: nat in
     if 65 \<le> n \<and> n \<le> 90 then char_of (n + 32) else c) s"

section \<open>Decimal and hexadecimal digits\<close>

definition digit_char :: "nat \<Rightarrow> char" where
  "digit_char d = (if d < 10 then char_of (48 + d) else char_of (87 + d))"

text \<open>The decimal digits of a natural number (\<open>%d\<close>, \<open>uitoa\<close>).\<close>

fun uitoa :: "nat \<Rightarrow> string" where
  "uitoa n = (if n < 10 then [digit_char n] else uitoa (n div 10) @ [digit_char (n mod 10)])"

declare uitoa.simps [simp del]

definition fmt_int :: "int \<Rightarrow> string" where
  "fmt_int i = (if i < 0 then CHR ''-'' # uitoa (nat (- i)) else uitoa (nat i))"

text \<open>The hexadecimal digits, lower case, without leading zeros (\<open>appendHex\<close>).\<close>

fun hex_digits :: "nat \<Rightarrow> string" where
  "hex_digits n = (if n < 16 then [digit_char n] else hex_digits (n div 16) @ [digit_char (n mod 16)])"

declare hex_digits.simps [simp del]

definition is_digit :: "char \<Rightarrow> bool" where
  "is_digit c \<longleftrightarrow> 48 \<le> (of_char c :: nat) \<and> (of_char c :: nat) \<le> 57"

definition digit_val :: "char \<Rightarrow> nat" where
  "digit_val c = of_char c - 48"

text \<open>The value of a hexadecimal digit of either case, \<open>None\<close> for another byte.\<close>

definition hex_val :: "char \<Rightarrow> nat option" where
  "hex_val c = (let n = of_char c :: nat in
     if 48 \<le> n \<and> n \<le> 57 then Some (n - 48)
     else if 97 \<le> n \<and> n \<le> 102 then Some (n - 97 + 10)
     else if 65 \<le> n \<and> n \<le> 70 then Some (n - 65 + 10)
     else None)"

lemma of_char_digit_char: "d < 10 \<Longrightarrow> (of_char (digit_char d) :: nat) = 48 + d"
  by (simp add: digit_char_def)

lemma is_digit_digit_char [simp]: "d < 10 \<Longrightarrow> is_digit (digit_char d)"
  by (simp add: is_digit_def of_char_digit_char)

lemma digit_val_digit_char [simp]: "d < 10 \<Longrightarrow> digit_val (digit_char d) = d"
  by (simp add: digit_val_def of_char_digit_char)

lemma uitoa_not_Nil [simp]: "uitoa n \<noteq> []"
  by (subst uitoa.simps) simp

lemma uitoa_digits: "c \<in> set (uitoa n) \<Longrightarrow> is_digit c"
proof (induction n arbitrary: c rule: uitoa.induct)
  case (1 n)
  show ?case
  proof (cases "n < 10")
    case True
    with "1.prems" show ?thesis by (simp add: uitoa.simps [of n])
  next
    case False
    with "1.prems" have "c \<in> set (uitoa (n div 10)) \<or> c = digit_char (n mod 10)"
      by (auto simp: uitoa.simps [of n])
    with "1.IH" False show ?thesis by auto
  qed
qed

text \<open>Reading the digits back: \<open>foldl\<close> over the decimal digits.\<close>

definition dec_value :: "nat \<Rightarrow> string \<Rightarrow> nat" where
  "dec_value = foldl (\<lambda>n c. n * 10 + digit_val c)"

lemma dec_value_simps [simp]:
  "dec_value n [] = n" "dec_value n (c # cs) = dec_value (n * 10 + digit_val c) cs"
  "dec_value n (xs @ ys) = dec_value (dec_value n xs) ys"
  by (simp_all add: dec_value_def)

lemma dec_value_uitoa [simp]: "dec_value 0 (uitoa n) = n"
proof (induction n rule: uitoa.induct)
  case (1 n)
  then show ?case
    by (cases "n < 10") (simp_all add: uitoa.simps [of n])
qed

lemma uitoa_inject [simp]: "uitoa m = uitoa n \<longleftrightarrow> m = n"
  by (metis dec_value_uitoa)

lemma not_digit_separators: "\<not> is_digit CHR ''.''" "\<not> is_digit CHR '':''" "\<not> is_digit CHR ''/''"
    "\<not> is_digit CHR ''-''" "\<not> is_digit CHR '' ''" "\<not> is_digit CHR '',''" "\<not> is_digit dquote"
  by (simp_all add: is_digit_def dquote_def)

lemma uitoa_no_separator:
  "CHR ''.'' \<notin> set (uitoa n)" "CHR '':'' \<notin> set (uitoa n)" "CHR ''/'' \<notin> set (uitoa n)"
  "CHR ''-'' \<notin> set (uitoa n)" "CHR '','' \<notin> set (uitoa n)" "dquote \<notin> set (uitoa n)"
  using uitoa_digits not_digit_separators by blast+

lemmas uitoa_plain [simp] = uitoa_no_separator

end
