(* ===== verification/Ledger.thy ===== *)
theory Ledger
  imports GoStrings
begin

text \<open>
  The two tables of the in-memory database, and what one SQL statement of
  \<open>pkg/provider/sqlite/store.go\<close> asks of them, as functions on tables. This is the
  abstract specification the store is refined to: \<open>ipaddress_range\<close> is the pool of
  addresses, \<open>a_records\<close> says which host holds which address. At the end, the address
  book operations (look up, take the next, take this one, give back) and the invariant
  that makes the pool exclusive.
\<close>

section \<open>Tables\<close>

record range_row =
  row_id :: int
  row_ip :: string
  row_status :: int
  row_cidr :: string

record tables =
  ranges :: "range_row list"            \<comment> \<open>in the order of \<open>id\<close>\<close>
  a_records :: "(string \<times> string) list"  \<comment> \<open>\<open>(ipaddress, hostname)\<close>\<close>
  next_id :: int                        \<comment> \<open>what AUTOINCREMENT gives next\<close>

definition empty_tables :: tables where
  "empty_tables = \<lparr>ranges = [], a_records = [], next_id = 1\<rparr>"

definition ALLOCATED :: int where
  "ALLOCATED = 0"

definition AVAILABLE :: int where
  "AVAILABLE = 1"

lemma status_distinct [simp]: "ALLOCATED \<noteq> AVAILABLE" "AVAILABLE \<noteq> ALLOCATED"
  by (simp_all add: ALLOCATED_def AVAILABLE_def)

section \<open>Statements\<close>

text \<open>\<open>INSERT INTO ipaddress_range(ipaddress, status, cidr) VALUES (?, ?, ?)\<close>\<close>

definition tb_insert_range :: "string \<Rightarrow> int \<Rightarrow> string \<Rightarrow> tables \<Rightarrow> tables" where
  "tb_insert_range ip st c t =
     t\<lparr>ranges := ranges t @ [\<lparr>row_id = next_id t, row_ip = ip, row_status = st, row_cidr = c\<rparr>],
       next_id := next_id t + 1\<rparr>"

text \<open>The same for a list of addresses of one network, all available.\<close>

fun tb_insert_ips :: "string list \<Rightarrow> string \<Rightarrow> tables \<Rightarrow> tables" where
  "tb_insert_ips [] c t = t"
| "tb_insert_ips (ip # ips) c t = tb_insert_ips ips c (tb_insert_range ip AVAILABLE c t)"

text \<open>\<open>SELECT ... WHERE status=1 AND cidr=c [AND ipaddress=ip] ORDER BY id ASC LIMIT 1\<close>\<close>

definition tb_available :: "string \<Rightarrow> tables \<Rightarrow> range_row option" where
  "tb_available c t = List.find (\<lambda>r. row_status r = AVAILABLE \<and> row_cidr r = c) (ranges t)"

definition tb_available_ip :: "string \<Rightarrow> string \<Rightarrow> tables \<Rightarrow> range_row option" where
  "tb_available_ip c ip t =
     List.find (\<lambda>r. row_status r = AVAILABLE \<and> row_cidr r = c \<and> row_ip r = ip) (ranges t)"

text \<open>\<open>UPDATE ipaddress_range SET status = st WHERE id = i\<close> and \<open>... WHERE ipaddress = ip\<close>\<close>

definition tb_status_by_id :: "int \<Rightarrow> int \<Rightarrow> tables \<Rightarrow> tables" where
  "tb_status_by_id st i t =
     t\<lparr>ranges := map (\<lambda>r. if row_id r = i then r\<lparr>row_status := st\<rparr> else r) (ranges t)\<rparr>"

definition tb_status_by_ip :: "int \<Rightarrow> string \<Rightarrow> tables \<Rightarrow> tables" where
  "tb_status_by_ip st ip t =
     t\<lparr>ranges := map (\<lambda>r. if row_ip r = ip then r\<lparr>row_status := st\<rparr> else r) (ranges t)\<rparr>"

text \<open>\<open>INSERT INTO a_records\<close>, \<open>DELETE FROM a_records\<close>\<close>

definition tb_insert_record :: "string \<Rightarrow> string \<Rightarrow> tables \<Rightarrow> tables" where
  "tb_insert_record ip h t = t\<lparr>a_records := a_records t @ [(ip, h)]\<rparr>"

definition tb_delete_record :: "string \<Rightarrow> string \<Rightarrow> tables \<Rightarrow> tables" where
  "tb_delete_record ip h t = t\<lparr>a_records := filter (\<lambda>r. r \<noteq> (ip, h)) (a_records t)\<rparr>"

text \<open>\<open>SELECT ipaddress FROM a_records WHERE ... ORDER BY ipaddress ASC LIMIT 1\<close>\<close>

definition least_ip :: "string list \<Rightarrow> string option" where
  "least_ip ips = (case sort ips of [] \<Rightarrow> None | ip # _ \<Rightarrow> Some ip)"

definition tb_host_ip :: "string \<Rightarrow> tables \<Rightarrow> string option" where
  "tb_host_ip h t = least_ip (map fst (filter (\<lambda>r. snd r = h) (a_records t)))"

definition tb_any_ip :: "tables \<Rightarrow> string option" where
  "tb_any_ip t = least_ip (map fst (a_records t))"

lemma least_ip_None: "least_ip ips = None \<longleftrightarrow> ips = []"
proof -
  have "sort ips = [] \<longleftrightarrow> ips = []" by (metis length_0_conv length_sort)
  then show ?thesis by (auto simp: least_ip_def split: list.splits)
qed

lemma least_ip_sorted: "least_ip ips = Some ip \<Longrightarrow> \<exists>rest. sort ips = ip # rest"
  by (auto simp: least_ip_def split: list.splits)

lemma least_ip_SomeD:
  assumes "least_ip ips = Some ip"
  shows "ip \<in> set ips"
proof -
  obtain rest where "sort ips = ip # rest"
    using least_ip_sorted [OF assms] by blast
  then have "set ips = set (ip # rest)" by (metis set_sort)
  then show ?thesis by simp
qed

lemma least_ip_le:
  assumes "least_ip ips = Some ip" and "jp \<in> set ips"
  shows "ip \<le> jp"
proof -
  obtain rest where s: "sort ips = ip # rest"
    using least_ip_sorted [OF assms(1)] by blast
  then have "sorted (ip # rest)" by (metis sorted_sort)
  moreover have "jp \<in> set (ip # rest)" using assms(2) s by (metis set_sort)
  ultimately show ?thesis by auto
qed

lemma tb_host_ip_SomeD: "tb_host_ip h t = Some ip \<Longrightarrow> (ip, h) \<in> set (a_records t)"
  by (auto simp: tb_host_ip_def dest!: least_ip_SomeD)

lemma tb_host_ip_None: "tb_host_ip h t = None \<longleftrightarrow> h \<notin> snd ` set (a_records t)"
  by (auto simp: tb_host_ip_def least_ip_None filter_empty_conv)

section \<open>The address book\<close>

text \<open>
  What the layers above the store ask of it: the empty string stands for "none", as in
  the code.
\<close>

definition bk_lookup :: "string \<Rightarrow> tables \<Rightarrow> string" where
  "bk_lookup h t = (case tb_host_ip h t of None \<Rightarrow> [] | Some ip \<Rightarrow> ip)"

definition bk_next :: "string \<Rightarrow> tables \<Rightarrow> string \<times> tables" where
  "bk_next c t =
     (case tb_available c t of
        None \<Rightarrow> ([], t)
      | Some r \<Rightarrow> (row_ip r, tb_status_by_id ALLOCATED (row_id r) t))"

definition bk_take :: "string \<Rightarrow> string \<Rightarrow> tables \<Rightarrow> bool \<times> tables" where
  "bk_take c ip t =
     (case tb_available_ip c ip t of
        None \<Rightarrow> (False, t)
      | Some r \<Rightarrow> (True, tb_status_by_id ALLOCATED (row_id r) t))"

definition bk_release :: "string \<Rightarrow> tables \<Rightarrow> tables" where
  "bk_release ip t = tb_status_by_ip AVAILABLE ip t"

definition bk_bind :: "string \<Rightarrow> string \<Rightarrow> tables \<Rightarrow> tables" where
  "bk_bind h ip t = tb_insert_record ip h t"

definition bk_unbind :: "string \<Rightarrow> string \<Rightarrow> tables \<Rightarrow> tables" where
  "bk_unbind h ip t = tb_delete_record ip h t"

lemmas bk_defs = bk_lookup_def bk_next_def bk_take_def bk_release_def bk_bind_def bk_unbind_def
lemmas tb_defs = tb_insert_range_def tb_available_def tb_available_ip_def tb_status_by_id_def
  tb_status_by_ip_def tb_insert_record_def tb_delete_record_def

text \<open>
  The invariant: row ids and addresses are unique, no address is bound twice, and a bound
  address is a row of the pool that is marked allocated.
\<close>

definition pool_ok :: "tables \<Rightarrow> bool" where
  "pool_ok t \<longleftrightarrow>
     distinct (map row_id (ranges t)) \<and> distinct (map row_ip (ranges t)) \<and>
     [] \<notin> row_ip ` set (ranges t)"

definition alloc_ips :: "tables \<Rightarrow> string set" where
  "alloc_ips t = row_ip ` {r \<in> set (ranges t). row_status r = ALLOCATED}"

definition avail_ips :: "tables \<Rightarrow> string set" where
  "avail_ips t = row_ip ` {r \<in> set (ranges t). row_status r = AVAILABLE}"

definition bound_ok :: "tables \<Rightarrow> bool" where
  "bound_ok t \<longleftrightarrow> distinct (map fst (a_records t)) \<and> fst ` set (a_records t) \<subseteq> alloc_ips t"

definition book_ok :: "tables \<Rightarrow> bool" where
  "book_ok t \<longleftrightarrow> pool_ok t \<and> bound_ok t"

lemma book_okI: "pool_ok t \<Longrightarrow> bound_ok t \<Longrightarrow> book_ok t"
  by (simp add: book_ok_def)

lemma book_okD: "book_ok t \<Longrightarrow> pool_ok t" "book_ok t \<Longrightarrow> bound_ok t"
  by (simp_all add: book_ok_def)

section \<open>What the statements change\<close>

lemma status_by_id_frame [simp]:
  "map row_id (ranges (tb_status_by_id st i t)) = map row_id (ranges t)"
  "map row_ip (ranges (tb_status_by_id st i t)) = map row_ip (ranges t)"
  "map row_cidr (ranges (tb_status_by_id st i t)) = map row_cidr (ranges t)"
  "a_records (tb_status_by_id st i t) = a_records t"
  by (simp_all add: tb_status_by_id_def o_def if_distrib cong: if_cong map_cong)

lemma status_by_ip_frame [simp]:
  "map row_id (ranges (tb_status_by_ip st ip t)) = map row_id (ranges t)"
  "map row_ip (ranges (tb_status_by_ip st ip t)) = map row_ip (ranges t)"
  "map row_cidr (ranges (tb_status_by_ip st ip t)) = map row_cidr (ranges t)"
  "a_records (tb_status_by_ip st ip t) = a_records t"
  by (simp_all add: tb_status_by_ip_def o_def if_distrib cong: if_cong map_cong)

lemma record_frame [simp]:
  "ranges (tb_insert_record ip h t) = ranges t" "ranges (tb_delete_record ip h t) = ranges t"
  "a_records (tb_insert_record ip h t) = a_records t @ [(ip, h)]"
  "a_records (tb_delete_record ip h t) = filter (\<lambda>r. r \<noteq> (ip, h)) (a_records t)"
  by (simp_all add: tb_defs)

lemma pool_ok_cong:
  assumes "map row_id (ranges t') = map row_id (ranges t)"
    and "map row_ip (ranges t') = map row_ip (ranges t)"
  shows "pool_ok t' = pool_ok t"
proof -
  have "row_ip ` set (ranges t') = row_ip ` set (ranges t)"
    using assms(2) by (metis set_map)
  then show ?thesis using assms by (simp add: pool_ok_def)
qed

lemma pool_ok_status [simp]:
  "pool_ok (tb_status_by_id st i t) = pool_ok t"
  "pool_ok (tb_status_by_ip st ip t) = pool_ok t"
  by (rule pool_ok_cong; simp)+

lemma pool_ok_record [simp]:
  "pool_ok (tb_insert_record ip h t) = pool_ok t"
  "pool_ok (tb_delete_record ip h t) = pool_ok t"
  by (rule pool_ok_cong; simp)+

lemma pool_row_by_ip:
  "pool_ok t \<Longrightarrow> r \<in> set (ranges t) \<Longrightarrow> s \<in> set (ranges t) \<Longrightarrow> row_ip r = row_ip s \<Longrightarrow> r = s"
  by (auto simp: pool_ok_def dest: inj_on_set_distinct_map)

lemma pool_row_by_id:
  "pool_ok t \<Longrightarrow> r \<in> set (ranges t) \<Longrightarrow> s \<in> set (ranges t) \<Longrightarrow> row_id r = row_id s \<Longrightarrow> r = s"
  by (auto simp: pool_ok_def dest: inj_on_set_distinct_map)

lemma mem_alloc_ips:
  "ip \<in> alloc_ips t \<longleftrightarrow> (\<exists>r\<in>set (ranges t). row_status r = ALLOCATED \<and> row_ip r = ip)"
  by (auto simp: alloc_ips_def)

lemma mem_avail_ips:
  "ip \<in> avail_ips t \<longleftrightarrow> (\<exists>r\<in>set (ranges t). row_status r = AVAILABLE \<and> row_ip r = ip)"
  by (auto simp: avail_ips_def)

lemma alloc_avail_disjoint:
  assumes "pool_ok t"
  shows "alloc_ips t \<inter> avail_ips t = {}"
proof -
  have False if "r \<in> set (ranges t)" "s \<in> set (ranges t)" "row_ip r = row_ip s"
    "row_status r = ALLOCATED" "row_status s = AVAILABLE" for r s
    using pool_row_by_ip [OF assms that(1,2,3)] that(4,5) by simp
  then show ?thesis by (auto simp: alloc_ips_def avail_ips_def)
qed

text \<open>Marking the row of an address allocated, and making an address available again.\<close>

lemma ranges_status:
  "ranges (tb_status_by_id st i t) =
     map (\<lambda>r. if row_id r = i then r\<lparr>row_status := st\<rparr> else r) (ranges t)"
  "ranges (tb_status_by_ip st ip t) =
     map (\<lambda>r. if row_ip r = ip then r\<lparr>row_status := st\<rparr> else r) (ranges t)"
  by (simp_all add: tb_status_by_id_def tb_status_by_ip_def)

lemma mem_status_by_id:
  "(\<exists>s\<in>set (ranges (tb_status_by_id st i t)). row_status s = x \<and> row_ip s = ip) \<longleftrightarrow>
   (\<exists>s\<in>set (ranges t). (if row_id s = i then st else row_status s) = x \<and> row_ip s = ip)"
  unfolding ranges_status bex_set_map by (rule bex_cong [OF refl]) simp

lemma mem_status_by_ip:
  "(\<exists>s\<in>set (ranges (tb_status_by_ip st i t)). row_status s = x \<and> row_ip s = ip) \<longleftrightarrow>
   (\<exists>s\<in>set (ranges t). (if row_ip s = i then st else row_status s) = x \<and> row_ip s = ip)"
  unfolding ranges_status bex_set_map by (rule bex_cong [OF refl]) simp

lemma alloc_ips_mark:
  assumes "pool_ok t" and "r \<in> set (ranges t)"
  shows "alloc_ips (tb_status_by_id ALLOCATED (row_id r) t) = insert (row_ip r) (alloc_ips t)"
proof (rule set_eqI)
  fix ip
  have "s = r" if "s \<in> set (ranges t)" "row_id s = row_id r" for s
    by (rule pool_row_by_id [OF assms(1) that(1) assms(2) that(2)])
  then have "(\<exists>s\<in>set (ranges t). row_id s = row_id r \<and> row_ip s = ip) \<longleftrightarrow> ip = row_ip r"
    using assms(2) by blast
  moreover have "(if row_id s = i then ALLOCATED else row_status s) = ALLOCATED \<longleftrightarrow>
      row_id s = i \<or> row_status s = ALLOCATED" for s i by simp
  ultimately show "ip \<in> alloc_ips (tb_status_by_id ALLOCATED (row_id r) t) \<longleftrightarrow>
      ip \<in> insert (row_ip r) (alloc_ips t)"
    unfolding mem_alloc_ips mem_status_by_id insert_iff by blast
qed

lemma avail_ips_mark:
  assumes "pool_ok t" and "r \<in> set (ranges t)"
  shows "avail_ips (tb_status_by_id ALLOCATED (row_id r) t) = avail_ips t - {row_ip r}"
proof (rule set_eqI)
  fix ip
  have "s = r" if "s \<in> set (ranges t)" "row_id s = row_id r \<or> row_ip s = row_ip r" for s
    using pool_row_by_id [OF assms(1) that(1) assms(2)]
      pool_row_by_ip [OF assms(1) that(1) assms(2)] that(2) by blast
  moreover have "(if row_id s = i then ALLOCATED else row_status s) = AVAILABLE \<longleftrightarrow>
      row_id s \<noteq> i \<and> row_status s = AVAILABLE" for s i by simp
  ultimately show "ip \<in> avail_ips (tb_status_by_id ALLOCATED (row_id r) t) \<longleftrightarrow>
      ip \<in> avail_ips t - {row_ip r}"
    unfolding mem_avail_ips mem_status_by_id Diff_iff singleton_iff by blast
qed

lemma alloc_ips_release: "alloc_ips (tb_status_by_ip AVAILABLE ip t) = alloc_ips t - {ip}"
  by (intro set_eqI) (auto simp: mem_alloc_ips mem_status_by_ip)

lemma avail_ips_release:
  "avail_ips (tb_status_by_ip AVAILABLE ip t) =
     avail_ips t \<union> ({ip} \<inter> row_ip ` set (ranges t))"
  by (intro set_eqI) (auto simp: mem_avail_ips mem_status_by_ip)

lemma alloc_ips_record [simp]:
  "alloc_ips (tb_insert_record ip h t) = alloc_ips t"
  "alloc_ips (tb_delete_record ip h t) = alloc_ips t"
  "avail_ips (tb_insert_record ip h t) = avail_ips t"
  "avail_ips (tb_delete_record ip h t) = avail_ips t"
  by (simp_all add: alloc_ips_def avail_ips_def)

section \<open>The address book keeps its invariant\<close>

lemma tb_available_SomeD:
  "tb_available c t = Some r \<Longrightarrow>
     r \<in> set (ranges t) \<and> row_status r = AVAILABLE \<and> row_cidr r = c"
  by (auto simp: tb_available_def dest: find_SomeD)

lemma tb_available_ip_SomeD:
  "tb_available_ip c ip t = Some r \<Longrightarrow>
     r \<in> set (ranges t) \<and> row_status r = AVAILABLE \<and> row_cidr r = c \<and> row_ip r = ip"
  by (auto simp: tb_available_ip_def dest: find_SomeD)

lemma tb_available_None:
  "tb_available c t = None \<longleftrightarrow>
     (\<forall>r\<in>set (ranges t). row_cidr r = c \<longrightarrow> row_status r \<noteq> AVAILABLE)"
  by (auto simp: tb_available_def find_None_iff)

text \<open>The rows are in the order of their ids, so the first match has the least id.\<close>

lemma tb_available_least:
  assumes "sorted (map row_id (ranges t))" and "tb_available c t = Some r"
    and "s \<in> set (ranges t)" "row_status s = AVAILABLE" "row_cidr s = c"
  shows "row_id r \<le> row_id s"
proof -
  obtain us vs where "ranges t = us @ r # vs"
    and "\<forall>u\<in>set us. \<not> (row_status u = AVAILABLE \<and> row_cidr u = c)"
    using find_Some_split [OF assms(2) [unfolded tb_available_def]] by blast
  with assms(1,3-5) show ?thesis by (auto simp: sorted_append)
qed

text \<open>An address that is available is not bound; allocating and binding it is safe.\<close>

lemma book_mark_bind:
  assumes ok: "book_ok t" and r: "r \<in> set (ranges t)" "row_status r = AVAILABLE"
  shows "book_ok (tb_status_by_id ALLOCATED (row_id r) t)"
    and "book_ok (tb_insert_record (row_ip r) h (tb_status_by_id ALLOCATED (row_id r) t))"
proof -
  note pool = book_okD(1) [OF ok] and bound = book_okD(2) [OF ok]
  have "row_ip r \<in> avail_ips t" using r by (auto simp: avail_ips_def)
  then have "row_ip r \<notin> alloc_ips t" using alloc_avail_disjoint [OF pool] by blast
  with bound have fresh: "row_ip r \<notin> fst ` set (a_records t)" by (auto simp: bound_ok_def)
  show "book_ok (tb_status_by_id ALLOCATED (row_id r) t)"
    using pool bound by (auto simp: book_ok_def bound_ok_def alloc_ips_mark [OF pool r(1)])
  show "book_ok (tb_insert_record (row_ip r) h (tb_status_by_id ALLOCATED (row_id r) t))"
    using pool bound fresh by (auto simp: book_ok_def bound_ok_def alloc_ips_mark [OF pool r(1)])
qed

lemma book_next [inv_keep]:
  assumes "book_ok t" and "bk_next c t = (ip, t')"
  shows "book_ok t'" and "ip \<noteq> [] \<Longrightarrow> book_ok (bk_bind h ip t')"
  using assms by (auto simp: bk_defs split: option.splits dest!: tb_available_SomeD
      intro: book_mark_bind)

lemma book_take [inv_keep]:
  assumes "book_ok t" and "bk_take c ip t = (b, t')"
  shows "book_ok t'" and "b \<Longrightarrow> book_ok (bk_bind h ip t')"
  using assms by (auto simp: bk_defs split: option.splits dest!: tb_available_ip_SomeD
      intro: book_mark_bind)

lemma book_release_unbind [inv_keep]:
  assumes ok: "book_ok t" and rec: "(ip, h) \<in> set (a_records t)"
  shows "book_ok (bk_unbind h ip (bk_release ip t))"
proof -
  have "distinct (map fst (a_records t))" using ok by (simp add: book_ok_def bound_ok_def)
  then have "h' = h" if "(ip, h') \<in> set (a_records t)" for h'
    using rec that by (metis eq_key_imp_eq_value)
  then have "ip \<notin> fst ` set (filter (\<lambda>r. r \<noteq> (ip, h)) (a_records t))" by auto
  with ok show ?thesis
    by (auto simp: book_ok_def bound_ok_def bk_defs alloc_ips_release distinct_map_filter)
qed

lemma bk_lookup_bound: "bk_lookup h t = ip \<Longrightarrow> ip \<noteq> [] \<Longrightarrow> (ip, h) \<in> set (a_records t)"
  by (auto simp: bk_lookup_def split: option.splits dest: tb_host_ip_SomeD)

lemma book_no_empty_ip:
  assumes "book_ok t"
  shows "[] \<notin> fst ` set (a_records t)"
  using assms by (auto simp: book_ok_def bound_ok_def pool_ok_def alloc_ips_def)

lemma bk_lookup_unbound:
  assumes "book_ok t"
  shows "bk_lookup h t = [] \<longleftrightarrow> h \<notin> snd ` set (a_records t)"
proof -
  have "tb_host_ip h t \<noteq> Some []"
    using book_no_empty_ip [OF assms] by (force dest: tb_host_ip_SomeD)
  then show ?thesis
    by (auto simp: bk_lookup_def tb_host_ip_None [symmetric] split: option.splits)
qed

end
