(* ===== verification/Sqlite.thy ===== *)
theory Sqlite
  imports Ledger
begin

text \<open>
  The database under the store. \<open>github.com/mattn/go-sqlite3\<close> wraps the SQLite library,
  whose C code is not part of the repository, so the connection is a parameter: a record
  of the \<open>database/sql\<close> calls the store makes, over an abstract connection state
  \<open>'db\<close>. What the store relies on is the locale \<open>sqlite_engine\<close>: the documented effect
  of each statement the store sends, on the tables (\<open>tbl db\<close>), where every call may also
  fail and then changes nothing. \<open>reliable_sqlite\<close> adds that the calls do not fail.

  The statements are the literal texts of \<open>pkg/provider/sqlite/store.go\<close>. Three of them
  paste an argument into the text between double quotes. SQLite reads such a token as a
  column name when it matches one and as a string literal otherwise, so the laws of those
  statements require a plain argument: no quote, no NUL byte, not the name of a column.
\<close>

section \<open>The calls\<close>

datatype sql_value = SInt int | SText string | SNull

record 'db sqlite_driver =
  drv_open :: "string \<Rightarrow> string \<Rightarrow> 'db option"
  drv_ping :: "'db \<Rightarrow> bool \<times> 'db"
  drv_prepare :: "'db \<Rightarrow> string \<Rightarrow> bool \<times> 'db"
  drv_exec :: "'db \<Rightarrow> string \<Rightarrow> sql_value list \<Rightarrow> bool \<times> 'db"
  drv_query_row :: "'db \<Rightarrow> string \<Rightarrow> sql_value list option \<times> 'db"
  drv_query :: "'db \<Rightarrow> string \<Rightarrow> sql_value list list option \<times> 'db"

section \<open>The statements\<close>

definition memory_dsn :: string where
  "memory_dsn = ''file::memory:?cache=shared''"

definition quoted :: "string \<Rightarrow> string" where
  "quoted s = [dquote] @ s @ [dquote]"

definition nl_tabs :: "nat \<Rightarrow> string" where
  "nl_tabs n = CHR 0x0A # replicate n (CHR 0x09)"

definition createIPAddressTableSQL :: string where
  "createIPAddressTableSQL =
     ''CREATE TABLE ipaddress_range ('' @ nl_tabs 2
     @ quoted ''id'' @ '' integer NOT NULL PRIMARY KEY AUTOINCREMENT,'' @ nl_tabs 2
     @ quoted ''ipaddress'' @ '' TEXT,'' @ nl_tabs 2
     @ quoted ''status'' @ '' INT,'' @ nl_tabs 2
     @ quoted ''cidr'' @ '' TEXT'' @ [CHR 0x09] @ nl_tabs 1 @ ''  );''"

definition createARecodsTableSQL :: string where
  "createARecodsTableSQL =
     ''CREATE TABLE a_records ('' @ nl_tabs 2
     @ quoted ''ipaddress'' @ '' TEXT PRIMARY_KEY,'' @ nl_tabs 2
     @ quoted ''hostname'' @ '' TEXT'' @ [CHR 0x09] @ nl_tabs 1 @ ''  );''"

definition insertIPSQL :: string where
  "insertIPSQL = ''INSERT INTO ipaddress_range(ipaddress, status, cidr) VALUES (?, ?, ?)''"

definition displaySQL :: string where
  "displaySQL = ''SELECT * FROM ipaddress_range ORDER BY id''"

definition select_available_sql :: "string \<Rightarrow> string" where
  "select_available_sql cidr =
     ''SELECT ipaddress,id FROM ipaddress_range where status='' @ fmt_int AVAILABLE
     @ '' AND cidr='' @ quoted cidr @ '' order by id ASC limit 1''"

definition select_available_ip_sql :: "string \<Rightarrow> string \<Rightarrow> string" where
  "select_available_ip_sql cidr ipAddr =
     ''SELECT id FROM ipaddress_range where status='' @ fmt_int AVAILABLE
     @ '' AND cidr='' @ quoted cidr @ '' AND ipaddress='' @ quoted ipAddr
     @ '' order by id ASC limit 1''"

definition allocateIPSql :: string where
  "allocateIPSql =
     ''UPDATE ipaddress_range set status = '' @ fmt_int ALLOCATED @ '' where id = ?''"

definition unallocateIPSql :: string where
  "unallocateIPSql =
     ''UPDATE ipaddress_range set status = '' @ fmt_int AVAILABLE @ '' where ipaddress = ?''"

definition select_host_sql :: "string \<Rightarrow> string" where
  "select_host_sql hostname =
     ''SELECT ipaddress FROM a_records where hostname='' @ quoted hostname
     @ '' order by ipaddress ASC limit 1''"

definition insertARecordSQL :: string where
  "insertARecordSQL = ''INSERT INTO a_records(ipaddress, hostname) VALUES (?, ?)''"

definition deleteARecord_sql :: string where
  "deleteARecord_sql = ''DELETE FROM a_records WHERE ipaddress=? AND hostname=?''"

definition prepared_statements :: "string list" where
  "prepared_statements = [createIPAddressTableSQL, createARecodsTableSQL, insertIPSQL,
     allocateIPSql, unallocateIPSql, insertARecordSQL, deleteARecord_sql]"

text \<open>An argument that is safe to paste between double quotes.\<close>

definition lower_char :: "char \<Rightarrow> char" where
  "lower_char c = (let n = of_char c :: nat in
     if 65 \<le> n \<and> n \<le> 90 then char_of (n + 32) else c)"

definition sql_columns :: "string list" where
  "sql_columns = [''id'', ''ipaddress'', ''status'', ''cidr'', ''hostname'',
     ''rowid'', ''oid'', ''_rowid_'']"

definition sql_literal :: "string \<Rightarrow> bool" where
  "sql_literal s \<longleftrightarrow>
     dquote \<notin> set s \<and> CHR 0x00 \<notin> set s \<and> map lower_char s \<notin> set sql_columns"

section \<open>What the store relies on\<close>

locale sqlite_engine =
  fixes drv :: "'db sqlite_driver"
    and tbl :: "'db \<Rightarrow> tables"
  assumes ping_tables: "tbl (snd (drv_ping drv db)) = tbl db"
    and prepare_tables: "tbl (snd (drv_prepare drv db sql)) = tbl db"
    and exec_create_ranges:
      "tbl (snd (drv_exec drv db createIPAddressTableSQL [])) =
         (if fst (drv_exec drv db createIPAddressTableSQL [])
          then (tbl db)\<lparr>ranges := [], next_id := 1\<rparr> else tbl db)"
    and exec_create_records:
      "tbl (snd (drv_exec drv db createARecodsTableSQL [])) =
         (if fst (drv_exec drv db createARecodsTableSQL [])
          then (tbl db)\<lparr>a_records := []\<rparr> else tbl db)"
    and exec_insert_range:
      "tbl (snd (drv_exec drv db insertIPSQL [SText ip, SInt st, SText c])) =
         (if fst (drv_exec drv db insertIPSQL [SText ip, SInt st, SText c])
          then tb_insert_range ip st c (tbl db) else tbl db)"
    and exec_allocate:
      "tbl (snd (drv_exec drv db allocateIPSql [SInt i])) =
         (if fst (drv_exec drv db allocateIPSql [SInt i])
          then tb_status_by_id ALLOCATED i (tbl db) else tbl db)"
    and exec_unallocate:
      "tbl (snd (drv_exec drv db unallocateIPSql [SText ip])) =
         (if fst (drv_exec drv db unallocateIPSql [SText ip])
          then tb_status_by_ip AVAILABLE ip (tbl db) else tbl db)"
    and exec_insert_record:
      "tbl (snd (drv_exec drv db insertARecordSQL [SText ip, SText h])) =
         (if fst (drv_exec drv db insertARecordSQL [SText ip, SText h])
          then tb_insert_record ip h (tbl db) else tbl db)"
    and exec_delete_record:
      "tbl (snd (drv_exec drv db deleteARecord_sql [SText ip, SText h])) =
         (if fst (drv_exec drv db deleteARecord_sql [SText ip, SText h])
          then tb_delete_record ip h (tbl db) else tbl db)"
    and query_display: "tbl (snd (drv_query drv db displaySQL)) = tbl db"
    and query_available:
      "sql_literal c \<Longrightarrow> tbl (snd (drv_query_row drv db (select_available_sql c))) = tbl db"
      "sql_literal c \<Longrightarrow> fst (drv_query_row drv db (select_available_sql c)) = Some row \<Longrightarrow>
         \<exists>r. tb_available c (tbl db) = Some r \<and> row = [SText (row_ip r), SInt (row_id r)]"
    and query_available_ip:
      "sql_literal c \<Longrightarrow> sql_literal ip \<Longrightarrow>
         tbl (snd (drv_query_row drv db (select_available_ip_sql c ip))) = tbl db"
      "sql_literal c \<Longrightarrow> sql_literal ip \<Longrightarrow>
         fst (drv_query_row drv db (select_available_ip_sql c ip)) = Some row \<Longrightarrow>
         \<exists>r. tb_available_ip c ip (tbl db) = Some r \<and> row = [SInt (row_id r)]"
    and query_host:
      "sql_literal h \<Longrightarrow> tbl (snd (drv_query_row drv db (select_host_sql h))) = tbl db"
      "sql_literal h \<Longrightarrow> fst (drv_query_row drv db (select_host_sql h)) = Some row \<Longrightarrow>
         \<exists>ip. tb_host_ip h (tbl db) = Some ip \<and> row = [SText ip]"
    and query_host_column:
      "tbl (snd (drv_query_row drv db (select_host_sql ''hostname''))) = tbl db"
      "fst (drv_query_row drv db (select_host_sql ''hostname'')) = Some row \<Longrightarrow>
         \<exists>ip. tb_any_ip (tbl db) = Some ip \<and> row = [SText ip]"

text \<open>
  The calls of a healthy in-memory database: the fixed statements prepare and execute,
  and a query that has a first row returns it. A table can be created once; \<open>has\<close> says
  which tables exist.
\<close>

locale reliable_sqlite = sqlite_engine +
  fixes has :: "'a \<Rightarrow> string set"
  assumes open_ok: "\<exists>db. drv_open drv ''sqlite3'' memory_dsn = Some db \<and> has db = {}"
    and ping_ok: "fst (drv_ping drv db)" "has (snd (drv_ping drv db)) = has db"
    and prepare_ok: "sql \<in> set prepared_statements \<Longrightarrow> fst (drv_prepare drv db sql)"
      "has (snd (drv_prepare drv db sql)) = has db"
    and create_ranges_ok:
      "''ipaddress_range'' \<notin> has db \<Longrightarrow> fst (drv_exec drv db createIPAddressTableSQL [])"
      "has (snd (drv_exec drv db createIPAddressTableSQL [])) = has db \<union> {''ipaddress_range''}"
    and create_records_ok:
      "''a_records'' \<notin> has db \<Longrightarrow> fst (drv_exec drv db createARecodsTableSQL [])"
    and insert_range_ok: "fst (drv_exec drv db insertIPSQL [SText ip, SInt st, SText c])"
    and allocate_ok: "fst (drv_exec drv db allocateIPSql [SInt i])"
    and unallocate_ok: "fst (drv_exec drv db unallocateIPSql [SText ip])"
    and insert_record_ok: "fst (drv_exec drv db insertARecordSQL [SText ip, SText h])"
    and delete_record_ok: "fst (drv_exec drv db deleteARecord_sql [SText ip, SText h])"
    and display_ok: "fst (drv_query drv db displaySQL) \<noteq> None"
    and available_ok:
      "sql_literal c \<Longrightarrow> fst (drv_query_row drv db (select_available_sql c)) =
         map_option (\<lambda>r. [SText (row_ip r), SInt (row_id r)]) (tb_available c (tbl db))"
    and available_ip_ok:
      "sql_literal c \<Longrightarrow> sql_literal ip \<Longrightarrow>
         fst (drv_query_row drv db (select_available_ip_sql c ip)) =
         map_option (\<lambda>r. [SInt (row_id r)]) (tb_available_ip c ip (tbl db))"
    and host_ok:
      "sql_literal h \<Longrightarrow> fst (drv_query_row drv db (select_host_sql h)) =
         map_option (\<lambda>ip. [SText ip]) (tb_host_ip h (tbl db))"
    and host_column_ok:
      "fst (drv_query_row drv db (select_host_sql ''hostname'')) =
         map_option (\<lambda>ip. [SText ip]) (tb_any_ip (tbl db))"

end
