(* ===== verification/Store.thy ===== *)
theory Store
  imports Sqlite
begin

text \<open>
  \<open>pkg/provider/sqlite/store.go\<close>: the store over the database connection. Every
  operation takes the driver and the connection state and returns its result with the
  new connection state. \<open>Prepare\<close> errors are dropped by the code: the statement is then
  nil and executing it is a nil dereference. Then the refinement: over
  \<open>reliable_sqlite\<close> each operation is the address book operation on the tables, and over
  \<open>sqlite_engine\<close>, where any call may fail, what still holds.
\<close>

section \<open>Reading a row\<close>

text \<open>
  \<open>database/sql\<close> converts a column to the destination of \<open>Scan\<close>: an integer column prints
  in decimal into a string, a text column is parsed into an int, NULL into neither.
\<close>

definition ParseInt :: "string \<Rightarrow> int option" where
  "ParseInt s =
     (let neg = (s \<noteq> [] \<and> hd s = CHR ''-'');
          ds = (if s \<noteq> [] \<and> (hd s = CHR ''-'' \<or> hd s = CHR ''+'') then tl s else s);
          n = int (dec_value 0 ds)
      in if ds = [] \<or> \<not> list_all is_digit ds then None
         else if neg then (if n \<le> 2 ^ 63 then Some (- n) else None)
         else (if n < 2 ^ 63 then Some n else None))"

fun scan_string :: "sql_value \<Rightarrow> string option" where
  "scan_string (SText s) = Some s"
| "scan_string (SInt i) = Some (fmt_int i)"
| "scan_string SNull = None"

fun scan_int :: "sql_value \<Rightarrow> int option" where
  "scan_int (SInt i) = Some i"
| "scan_int (SText s) = ParseInt s"
| "scan_int SNull = None"

section \<open>Operations\<close>

text \<open>\<open>statement, _ := store.db.Prepare(sql); _, err := statement.Exec(args...)\<close>\<close>

definition prepare_exec ::
    "'db sqlite_driver \<Rightarrow> 'db \<Rightarrow> string \<Rightarrow> sql_value list \<Rightarrow> (bool \<times> 'db) go" where
  "prepare_exec drv db sql args =
     (case drv_prepare drv db sql of (ok, db1) \<Rightarrow>
        if \<not> ok then Inl NilDeref else Inr (drv_exec drv db1 sql args))"

definition CreateTables :: "'db sqlite_driver \<Rightarrow> 'db \<Rightarrow> (bool \<times> 'db) go" where
  "CreateTables drv db =
     go_bind (prepare_exec drv db createIPAddressTableSQL []) (\<lambda>(ok, db1).
       if \<not> ok then Inr (False, db1)
       else go_bind (prepare_exec drv db1 createARecodsTableSQL []) (\<lambda>(ok2, db2).
         if \<not> ok2 then Inr (False, db2) else Inr (True, db2)))"

text \<open>\<open>NewStore\<close>: \<open>None\<close> is the nil store.\<close>

definition NewStore :: "'db sqlite_driver \<Rightarrow> 'db option go" where
  "NewStore drv =
     (case drv_open drv ''sqlite3'' memory_dsn of
        None \<Rightarrow> Inr None
      | Some db \<Rightarrow>
          (case drv_ping drv db of (ok, db1) \<Rightarrow>
             if \<not> ok then Inr None
             else go_bind (CreateTables drv db1) (\<lambda>(created, db2).
               if \<not> created then Inr None else Inr (Some db2))))"

fun InsertIP :: "'db sqlite_driver \<Rightarrow> 'db \<Rightarrow> string list \<Rightarrow> string \<Rightarrow> 'db go" where
  "InsertIP drv db [] cidr = Inr db"
| "InsertIP drv db (j # js) cidr =
     go_bind (prepare_exec drv db insertIPSQL [SText j, SInt AVAILABLE, SText cidr])
       (\<lambda>(_, db1). InsertIP drv db1 js cidr)"

text \<open>
  \<open>DisplayIPRecords\<close> only logs, but a failed query leaves a nil \<open>Rows\<close> on which
  \<open>Columns\<close> is called.
\<close>

definition DisplayIPRecords :: "'db sqlite_driver \<Rightarrow> 'db \<Rightarrow> 'db go" where
  "DisplayIPRecords drv db =
     (case drv_query drv db displaySQL of (rows, db1) \<Rightarrow>
        (case rows of None \<Rightarrow> Inl NilDeref | Some _ \<Rightarrow> Inr db1))"

fun scan_ip_id :: "sql_value list option \<Rightarrow> (string \<times> int) option" where
  "scan_ip_id (Some [a, b]) =
     (case scan_string a of None \<Rightarrow> None | Some ip \<Rightarrow>
        (case scan_int b of None \<Rightarrow> None | Some i \<Rightarrow> Some (ip, i)))"
| "scan_ip_id _ = None"

fun scan_id :: "sql_value list option \<Rightarrow> int option" where
  "scan_id (Some [a]) = scan_int a"
| "scan_id _ = None"

fun scan_ip :: "sql_value list option \<Rightarrow> string option" where
  "scan_ip (Some [a]) = scan_string a"
| "scan_ip _ = None"

definition AllocateIP :: "'db sqlite_driver \<Rightarrow> 'db \<Rightarrow> string \<Rightarrow> (string \<times> 'db) go" where
  "AllocateIP drv db cidr =
     (case drv_query_row drv db (select_available_sql cidr) of (row, db1) \<Rightarrow>
        (case scan_ip_id row of
           None \<Rightarrow> Inr ([], db1)
         | Some (ipaddress, i) \<Rightarrow>
             go_bind (prepare_exec drv db1 allocateIPSql [SInt i])
               (\<lambda>(_, db2). Inr (ipaddress, db2))))"

definition MarkIPAsAllocated ::
    "'db sqlite_driver \<Rightarrow> 'db \<Rightarrow> string \<Rightarrow> string \<Rightarrow> (bool \<times> 'db) go" where
  "MarkIPAsAllocated drv db cidr ipAddr =
     (case drv_query_row drv db (select_available_ip_sql cidr ipAddr) of (row, db1) \<Rightarrow>
        (case scan_id row of
           None \<Rightarrow> Inr (False, db1)
         | Some i \<Rightarrow>
             go_bind (prepare_exec drv db1 allocateIPSql [SInt i])
               (\<lambda>(ok, db2). if \<not> ok then Inr (False, db2) else Inr (True, db2))))"

definition GetIPAddress :: "'db sqlite_driver \<Rightarrow> 'db \<Rightarrow> string \<Rightarrow> string \<times> 'db" where
  "GetIPAddress drv db hostname =
     (case drv_query_row drv db (select_host_sql hostname) of (row, db1) \<Rightarrow>
        (case scan_ip row of None \<Rightarrow> ([], db1) | Some ipaddress \<Rightarrow> (ipaddress, db1)))"

definition ReleaseIP :: "'db sqlite_driver \<Rightarrow> 'db \<Rightarrow> string \<Rightarrow> 'db go" where
  "ReleaseIP drv db ip =
     go_bind (prepare_exec drv db unallocateIPSql [SText ip]) (\<lambda>(_, db1). Inr db1)"

definition CreateARecord ::
    "'db sqlite_driver \<Rightarrow> 'db \<Rightarrow> string \<Rightarrow> string \<Rightarrow> (bool \<times> 'db) go" where
  "CreateARecord drv db hostname ipAddr =
     go_bind (prepare_exec drv db insertARecordSQL [SText ipAddr, SText hostname])
       (\<lambda>(ok, db1). if \<not> ok then Inr (False, db1) else Inr (True, db1))"

definition DeleteARecord ::
    "'db sqlite_driver \<Rightarrow> 'db \<Rightarrow> string \<Rightarrow> string \<Rightarrow> (bool \<times> 'db) go" where
  "DeleteARecord drv db hostname ipAddr =
     go_bind (prepare_exec drv db deleteARecord_sql [SText ipAddr, SText hostname])
       (\<lambda>(ok, db1). if \<not> ok then Inr (False, db1) else Inr (True, db1))"

lemmas store_defs = AllocateIP_def MarkIPAsAllocated_def GetIPAddress_def ReleaseIP_def
  CreateARecord_def DeleteARecord_def prepare_exec_def

section \<open>A healthy database: every operation is its address book operation\<close>

context reliable_sqlite
begin

text \<open>A prepared statement runs and has its effect on the tables.\<close>

lemma run_ok:
  assumes "sql \<in> set prepared_statements"
    and "\<And>db. fst (drv_exec drv db sql args)"
    and "\<And>db. tbl (snd (drv_exec drv db sql args)) = (if fst (drv_exec drv db sql args) then f (tbl db) else tbl db)"
  shows "\<exists>db'. prepare_exec drv db sql args = Inr (True, db') \<and> tbl db' = f (tbl db)"
proof -
  obtain b db1 where p: "drv_prepare drv db sql = (b, db1)" by fastforce
  obtain ok db2 where e: "drv_exec drv db1 sql args = (ok, db2)" by fastforce
  have "b" "tbl db1 = tbl db"
    using prepare_ok(1) [OF assms(1), of db] prepare_tables [of db sql] p by simp_all
  moreover have "ok" "tbl db2 = f (tbl db1)"
    using assms(2) [of db1] assms(3) [of db1] e by simp_all
  ultimately show ?thesis by (simp add: prepare_exec_def p e)
qed

lemma prepared [simp]:
  "createIPAddressTableSQL \<in> set prepared_statements" "createARecodsTableSQL \<in> set prepared_statements"
  "insertIPSQL \<in> set prepared_statements" "allocateIPSql \<in> set prepared_statements"
  "unallocateIPSql \<in> set prepared_statements" "insertARecordSQL \<in> set prepared_statements"
  "deleteARecord_sql \<in> set prepared_statements"
  by (simp_all add: prepared_statements_def)

lemmas run_allocate = run_ok [OF prepared(4) allocate_ok exec_allocate]
  and run_unallocate = run_ok [OF prepared(5) unallocate_ok exec_unallocate]
  and run_insert_record = run_ok [OF prepared(6) insert_record_ok exec_insert_record]
  and run_delete_record = run_ok [OF prepared(7) delete_record_ok exec_delete_record]
  and run_insert_range = run_ok [OF prepared(3) insert_range_ok exec_insert_range]

lemma GetIPAddress_book:
  assumes "sql_literal h"
  shows "\<exists>db'. GetIPAddress drv db h = (bk_lookup h (tbl db), db') \<and> tbl db' = tbl db"
  using host_ok [OF assms, of db] query_host(1) [OF assms, of db]
  by (cases "drv_query_row drv db (select_host_sql h)")
    (auto simp: GetIPAddress_def bk_lookup_def split: option.splits)

lemma GetIPAddress_column:
  "\<exists>db'. GetIPAddress drv db ''hostname'' =
     ((case tb_any_ip (tbl db) of None \<Rightarrow> [] | Some ip \<Rightarrow> ip), db') \<and> tbl db' = tbl db"
  using host_column_ok [of db] query_host_column(1) [of db]
  by (cases "drv_query_row drv db (select_host_sql ''hostname'')")
    (auto simp: GetIPAddress_def split: option.splits)

lemma AllocateIP_book:
  assumes "sql_literal c"
  shows "\<exists>db'. AllocateIP drv db c = Inr (fst (bk_next c (tbl db)), db')
     \<and> tbl db' = snd (bk_next c (tbl db))"
proof -
  obtain row db1 where q: "drv_query_row drv db (select_available_sql c) = (row, db1)" by fastforce
  have t: "tbl db1 = tbl db" using query_available(1) [OF assms, of db] q by simp
  have row: "row = map_option (\<lambda>r. [SText (row_ip r), SInt (row_id r)]) (tb_available c (tbl db))"
    using available_ok [OF assms, of db] q by simp
  show ?thesis
  proof (cases "tb_available c (tbl db)")
    case None
    then show ?thesis using q row t by (simp add: AllocateIP_def bk_next_def)
  next
    case (Some r)
    obtain db2 where "prepare_exec drv db1 allocateIPSql [SInt (row_id r)] = Inr (True, db2)"
      "tbl db2 = tb_status_by_id ALLOCATED (row_id r) (tbl db1)"
      using run_allocate by blast
    then show ?thesis using q row t Some by (simp add: AllocateIP_def bk_next_def)
  qed
qed

lemma MarkIPAsAllocated_book:
  assumes "sql_literal c" and "sql_literal ip"
  shows "\<exists>db'. MarkIPAsAllocated drv db c ip = Inr (fst (bk_take c ip (tbl db)), db')
     \<and> tbl db' = snd (bk_take c ip (tbl db))"
proof -
  obtain row db1 where q: "drv_query_row drv db (select_available_ip_sql c ip) = (row, db1)"
    by fastforce
  have t: "tbl db1 = tbl db" using query_available_ip(1) [OF assms, of db] q by simp
  have row: "row = map_option (\<lambda>r. [SInt (row_id r)]) (tb_available_ip c ip (tbl db))"
    using available_ip_ok [OF assms, of db] q by simp
  show ?thesis
  proof (cases "tb_available_ip c ip (tbl db)")
    case None
    then show ?thesis using q row t by (simp add: MarkIPAsAllocated_def bk_take_def)
  next
    case (Some r)
    obtain db2 where "prepare_exec drv db1 allocateIPSql [SInt (row_id r)] = Inr (True, db2)"
      "tbl db2 = tb_status_by_id ALLOCATED (row_id r) (tbl db1)"
      using run_allocate by blast
    then show ?thesis using q row t Some by (simp add: MarkIPAsAllocated_def bk_take_def)
  qed
qed

lemma ReleaseIP_book:
  "\<exists>db'. ReleaseIP drv db ip = Inr db' \<and> tbl db' = bk_release ip (tbl db)"
  using run_unallocate [where db = db and ip = ip] by (auto simp: ReleaseIP_def bk_release_def)

lemma CreateARecord_book:
  "\<exists>db'. CreateARecord drv db h ip = Inr (True, db') \<and> tbl db' = bk_bind h ip (tbl db)"
  using run_insert_record [where db = db and ip = ip and h = h]
  by (auto simp: CreateARecord_def bk_bind_def)

lemma DeleteARecord_book:
  "\<exists>db'. DeleteARecord drv db h ip = Inr (True, db') \<and> tbl db' = bk_unbind h ip (tbl db)"
  using run_delete_record [where db = db and ip = ip and h = h]
  by (auto simp: DeleteARecord_def bk_unbind_def)

lemma InsertIP_book:
  "\<exists>db'. InsertIP drv db ips c = Inr db' \<and> tbl db' = tb_insert_ips ips c (tbl db)"
proof (induction ips arbitrary: db)
  case Nil
  then show ?case by simp
next
  case (Cons ip ips)
  obtain db1 where "prepare_exec drv db insertIPSQL [SText ip, SInt AVAILABLE, SText c] = Inr (True, db1)"
    "tbl db1 = tb_insert_range ip AVAILABLE c (tbl db)"
    using run_insert_range by blast
  then show ?case using Cons.IH [of db1] by simp
qed

lemma DisplayIPRecords_book: "\<exists>db'. DisplayIPRecords drv db = Inr db' \<and> tbl db' = tbl db"
  using display_ok [of db] query_display [of db]
  by (cases "drv_query drv db displaySQL") (auto simp: DisplayIPRecords_def)

lemma CreateTables_empty:
  assumes "has db = {}"
  shows "\<exists>db'. CreateTables drv db = Inr (True, db') \<and> tbl db' = empty_tables"
proof -
  obtain b db1 where p1: "drv_prepare drv db createIPAddressTableSQL = (b, db1)" by fastforce
  obtain ok1 db2 where e1: "drv_exec drv db1 createIPAddressTableSQL [] = (ok1, db2)" by fastforce
  obtain b2 db3 where p2: "drv_prepare drv db2 createARecodsTableSQL = (b2, db3)" by fastforce
  obtain ok2 db4 where e2: "drv_exec drv db3 createARecodsTableSQL [] = (ok2, db4)" by fastforce
  have one: "b" "has db1 = {}"
    using prepare_ok(1) [OF prepared(1), of db] prepare_ok(2) [of db createIPAddressTableSQL] p1 assms
    by simp_all
  then have two: "ok1" "ranges (tbl db2) = []" "next_id (tbl db2) = 1" "has db2 = {''ipaddress_range''}"
    using create_ranges_ok [of db1] exec_create_ranges [of db1] e1 by simp_all
  then have three: "b2" "tbl db3 = tbl db2" "has db3 = {''ipaddress_range''}"
    using prepare_ok(1) [OF prepared(2), of db2] prepare_ok(2) [of db2 createARecodsTableSQL]
      prepare_tables [of db2 createARecodsTableSQL] p2 by simp_all
  then have "ok2" "tbl db4 = (tbl db2)\<lparr>a_records := []\<rparr>"
    using create_records_ok [of db3] exec_create_records [of db3] e2 by simp_all
  with one(1) two three(1) show ?thesis
    by (simp add: CreateTables_def prepare_exec_def p1 e1 p2 e2 empty_tables_def)
qed

lemma NewStore_empty: "\<exists>db. NewStore drv = Inr (Some db) \<and> tbl db = empty_tables"
proof -
  obtain db where o: "drv_open drv ''sqlite3'' memory_dsn = Some db" "has db = {}"
    using open_ok by blast
  obtain b db1 where p: "drv_ping drv db = (b, db1)" by fastforce
  have "b" "has db1 = {}" using ping_ok [of db] o(2) p by simp_all
  with CreateTables_empty obtain db2 where "CreateTables drv db1 = Inr (True, db2)"
    "tbl db2 = empty_tables" by blast
  with o(1) p \<open>b\<close> show ?thesis by (simp add: NewStore_def)
qed

end

section \<open>A database whose calls may fail\<close>

context sqlite_engine
begin

text \<open>Whatever fails, a statement has its whole effect or none.\<close>

lemma run_atomic:
  assumes "prepare_exec drv db sql args = Inr (ok, db')"
    and "\<And>db. tbl (snd (drv_exec drv db sql args)) = (if fst (drv_exec drv db sql args) then f (tbl db) else tbl db)"
  shows "tbl db' = (if ok then f (tbl db) else tbl db)"
proof -
  obtain b db1 where p: "drv_prepare drv db sql = (b, db1)" by fastforce
  have "tbl db1 = tbl db" using prepare_tables [of db sql] p by simp
  moreover have "drv_exec drv db1 sql args = (ok, db')"
    using assms(1) p by (cases b) (simp_all add: prepare_exec_def)
  ultimately show ?thesis using assms(2) [of db1] by simp
qed

lemmas allocate_atomic = run_atomic [OF _ exec_allocate]
  and unallocate_atomic = run_atomic [OF _ exec_unallocate]
  and insert_record_atomic = run_atomic [OF _ exec_insert_record]
  and delete_record_atomic = run_atomic [OF _ exec_delete_record]

text \<open>\<open>AllocateIP\<close>, by what the driver answers to its three calls.\<close>

lemma AllocateIP_none:
  assumes c: "sql_literal c" and q: "drv_query_row drv db (select_available_sql c) = (None, db1)"
  shows "AllocateIP drv db c = Inr ([], db1) \<and> tbl db1 = tbl db"
  using query_available(1) [OF c, of db] q by (simp add: AllocateIP_def)

lemma AllocateIP_row:
  assumes c: "sql_literal c" and q: "drv_query_row drv db (select_available_sql c) = (Some row, db1)"
  shows "\<exists>r. tb_available c (tbl db) = Some r
    \<and> AllocateIP drv db c =
      (case drv_prepare drv db1 allocateIPSql of
         (False, db2) \<Rightarrow> Inl NilDeref
       | (True, db2) \<Rightarrow> Inr (row_ip r, snd (drv_exec drv db2 allocateIPSql [SInt (row_id r)])))
    \<and> (\<forall>p db2 ok db3. drv_prepare drv db1 allocateIPSql = (p, db2) \<longrightarrow>
        drv_exec drv db2 allocateIPSql [SInt (row_id r)] = (ok, db3) \<longrightarrow>
        tbl db3 = (if ok then tb_status_by_id ALLOCATED (row_id r) (tbl db) else tbl db))"
proof -
  have t: "tbl db1 = tbl db" using query_available(1) [OF c, of db] q by simp
  obtain r where r: "tb_available c (tbl db) = Some r" "row = [SText (row_ip r), SInt (row_id r)]"
    using query_available(2) [OF c, of db row] q by auto
  have "AllocateIP drv db c =
      (case drv_prepare drv db1 allocateIPSql of
         (False, db2) \<Rightarrow> Inl NilDeref
       | (True, db2) \<Rightarrow> Inr (row_ip r, snd (drv_exec drv db2 allocateIPSql [SInt (row_id r)])))"
    by (simp add: AllocateIP_def prepare_exec_def q r(2) split: prod.split bool.split)
  moreover have "tbl db3 = (if ok then tb_status_by_id ALLOCATED (row_id r) (tbl db) else tbl db)"
    if "drv_prepare drv db1 allocateIPSql = (p, db2)" "drv_exec drv db2 allocateIPSql [SInt (row_id r)] = (ok, db3)"
    for p db2 ok db3
    using exec_allocate [of db2 "row_id r"] prepare_tables [of db1 allocateIPSql] that t by simp
  ultimately show ?thesis using r(1) by blast
qed

text \<open>As long as the tables do not change, every call that returns an address returns this one.\<close>

lemma AllocateIP_returns:
  assumes c: "sql_literal c" and run: "AllocateIP drv db c = Inr (ip, db')" and ip: "ip \<noteq> []"
  shows "\<exists>r. tb_available c (tbl db) = Some r \<and> ip = row_ip r"
proof -
  obtain row db1 where q: "drv_query_row drv db (select_available_sql c) = (row, db1)" by fastforce
  show ?thesis
  proof (cases row)
    case None
    then show ?thesis using AllocateIP_none [OF c, of db db1] q run ip by simp
  next
    case (Some cols)
    obtain r where "tb_available c (tbl db) = Some r"
      "AllocateIP drv db c =
      (case drv_prepare drv db1 allocateIPSql of
         (False, db2) \<Rightarrow> Inl NilDeref
       | (True, db2) \<Rightarrow> Inr (row_ip r, snd (drv_exec drv db2 allocateIPSql [SInt (row_id r)])))"
      using AllocateIP_row [OF c q [unfolded Some]] by (elim exE conjE)
    moreover obtain p db2 where "drv_prepare drv db1 allocateIPSql = (p, db2)" by fastforce
    ultimately show ?thesis using run by (cases p) auto
  qed
qed

lemma MarkIPAsAllocated_atomic:
  assumes c: "sql_literal c" and l: "sql_literal ip" and run: "MarkIPAsAllocated drv db c ip = Inr (b, db')"
  shows "if b then b = fst (bk_take c ip (tbl db)) \<and> tbl db' = snd (bk_take c ip (tbl db))
     else tbl db' = tbl db"
proof -
  obtain row db1 where q: "drv_query_row drv db (select_available_ip_sql c ip) = (row, db1)"
    by fastforce
  have t: "tbl db1 = tbl db" using query_available_ip(1) [OF c l, of db] q by simp
  show ?thesis
  proof (cases row)
    case None
    then show ?thesis using run q t by (simp add: MarkIPAsAllocated_def)
  next
    case (Some cols)
    then obtain r where r: "tb_available_ip c ip (tbl db) = Some r" "cols = [SInt (row_id r)]"
      using query_available_ip(2) [OF c l, of db cols] q by auto
    then obtain ok where e: "prepare_exec drv db1 allocateIPSql [SInt (row_id r)] = Inr (ok, db')"
      and "b = ok"
      using run q Some by (auto simp: MarkIPAsAllocated_def go_bind_eq_Inr split: if_splits)
    with allocate_atomic [OF e] t r(1) show ?thesis by (cases ok) (auto simp: bk_take_def)
  qed
qed

end

end
