(* ===== verification/GoNet.thy ===== *)
theory GoNet
  imports GoStrings
begin

unbundle bit_operations_syntax

text \<open>
  The part of Go's \<open>net\<close> package (Go 1.15, see \<open>go.mod\<close>) that the controller uses:
  \<open>ParseIP\<close>, \<open>ParseCIDR\<close>, \<open>IP.String\<close>, \<open>IP.Mask\<close>, \<open>IPMask.Size\<close> and \<open>IPNet.Contains\<close>.
  A \<open>net.IP\<close> is a slice of bytes, 4 or 16 of them; the parsers return 16 bytes, an IPv4
  address with the prefix \<open>::ffff:0:0/96\<close>; the error return is \<open>None\<close>.
\<close>

type_synonym bytes = "8 word list"

record IPNet =
  net_IP :: bytes
  net_Mask :: bytes

definition v4InV6Prefix :: bytes where
  "v4InV6Prefix = [0,0,0,0,0,0,0,0,0,0,255,255]"

section \<open>Numbers\<close>

definition net_big :: nat where
  "net_big = 0xFFFFFF"

text \<open>\<open>dtoi\<close>: value, number of bytes read, success. \<open>i\<close> counts what was read before.\<close>

fun dtoi_from :: "nat \<Rightarrow> nat \<Rightarrow> string \<Rightarrow> nat \<times> nat \<times> bool" where
  "dtoi_from n i [] = (if i = 0 then (0, 0, False) else (n, i, True))"
| "dtoi_from n i (c # cs) =
     (if is_digit c then
        (let n' = n * 10 + digit_val c in
         if n' \<ge> net_big then (net_big, i, False) else dtoi_from n' (Suc i) cs)
      else if i = 0 then (0, 0, False) else (n, i, True))"

definition dtoi :: "string \<Rightarrow> nat \<times> nat \<times> bool" where
  "dtoi s = dtoi_from 0 0 s"

fun xtoi_from :: "nat \<Rightarrow> nat \<Rightarrow> string \<Rightarrow> nat \<times> nat \<times> bool" where
  "xtoi_from n i [] = (if i = 0 then (0, i, False) else (n, i, True))"
| "xtoi_from n i (c # cs) =
     (case hex_val c of
        Some d \<Rightarrow> (let n' = n * 16 + d in
          if n' \<ge> net_big then (0, i, False) else xtoi_from n' (Suc i) cs)
      | None \<Rightarrow> if i = 0 then (0, i, False) else (n, i, True))"

definition xtoi :: "string \<Rightarrow> nat \<times> nat \<times> bool" where
  "xtoi s = xtoi_from 0 0 s"

section \<open>Parsing\<close>

text \<open>
  \<open>parseIPv4\<close>: the loop over the four octets; the first argument is how many are left
  (four at the start, so a dot is expected before every octet but the first).
\<close>

fun parse_octets :: "nat \<Rightarrow> string \<Rightarrow> bytes \<Rightarrow> bytes option" where
  "parse_octets 0 s p = (if s \<noteq> [] then None else Some p)"
| "parse_octets (Suc k) s p =
     (case s of
        [] \<Rightarrow> None
      | x # xs \<Rightarrow>
          if k < 3 \<and> x \<noteq> CHR ''.'' then None
          else let t = (if k < 3 then xs else s) in
            (case dtoi t of (n, c, ok) \<Rightarrow>
               if \<not> ok \<or> n > 255 then None
               else parse_octets k (drop c t) (p @ [of_nat n])))"

definition parseIPv4 :: "string \<Rightarrow> bytes option" where
  "parseIPv4 s = map_option (\<lambda>p. v4InV6Prefix @ p) (parse_octets 4 s [])"

text \<open>
  \<open>parseIPv6\<close>: the loop over at most eight groups. \<open>p\<close> holds the bytes written so far
  (the array index \<open>i\<close> of the code is its length), \<open>e\<close> the position of the ellipsis.
\<close>

fun parse_groups :: "nat \<Rightarrow> bytes \<Rightarrow> nat option \<Rightarrow> string \<Rightarrow> (bytes \<times> nat option \<times> string) option" where
  "parse_groups 0 p e s = Some (p, e, s)"
| "parse_groups (Suc k) p e s =
     (case xtoi s of (n, c, ok) \<Rightarrow>
        if \<not> ok \<or> n > 0xFFFF then None
        else if c < length s \<and> s ! c = CHR ''.'' then
          (if e = None \<and> length p \<noteq> 12 then None
           else if length p + 4 > 16 then None
           else (case parseIPv4 s of None \<Rightarrow> None | Some ip4 \<Rightarrow> Some (p @ drop 12 ip4, e, [])))
        else
          (let p' = p @ [of_nat (n div 256), of_nat n] in
           (case drop c s of
              [] \<Rightarrow> Some (p', e, [])
            | x # t \<Rightarrow>
                if x \<noteq> CHR '':'' \<or> t = [] then None
                else if hd t = CHR '':'' then
                  (if e \<noteq> None then None
                   else if tl t = [] then Some (p', Some (length p'), [])
                   else parse_groups k p' (Some (length p')) (tl t))
                else parse_groups k p' e t)))"

definition expand_ellipsis :: "bytes \<Rightarrow> nat option \<Rightarrow> string \<Rightarrow> bytes option" where
  "expand_ellipsis p e s =
     (if s \<noteq> [] then None
      else if length p < 16 then
        (case e of None \<Rightarrow> None | Some k \<Rightarrow> Some (take k p @ replicate (16 - length p) 0 @ drop k p))
      else if e \<noteq> None then None
      else Some p)"

definition parseIPv6 :: "string \<Rightarrow> bytes option" where
  "parseIPv6 s =
     (let lead = (length s \<ge> 2 \<and> s ! 0 = CHR '':'' \<and> s ! 1 = CHR '':'');
          e = (if lead then Some 0 else None);
          t = (if lead then drop 2 s else s)
      in if lead \<and> t = [] then Some (replicate 16 0)
         else (case parse_groups 8 [] e t of
                 None \<Rightarrow> None
               | Some (p, e', u) \<Rightarrow> expand_ellipsis p e' u))"

text \<open>\<open>ParseIP\<close>: the first dot or colon decides.\<close>

fun first_sep :: "string \<Rightarrow> char option" where
  "first_sep [] = None"
| "first_sep (c # cs) = (if c = CHR ''.'' \<or> c = CHR '':'' then Some c else first_sep cs)"

definition ParseIP :: "string \<Rightarrow> bytes option" where
  "ParseIP s =
     (case first_sep s of
        None \<Rightarrow> None
      | Some c \<Rightarrow> if c = CHR ''.'' then parseIPv4 s else parseIPv6 s)"

section \<open>Masks and networks\<close>

fun cidr_mask :: "nat \<Rightarrow> nat \<Rightarrow> bytes" where
  "cidr_mask 0 n = []"
| "cidr_mask (Suc l) n =
     (if n \<ge> 8 then 255 # cidr_mask l (n - 8) else NOT (drop_bit n 255) # cidr_mask l 0)"

definition To4 :: "bytes \<Rightarrow> bytes option" where
  "To4 ip =
     (if length ip = 4 then Some ip
      else if length ip = 16 \<and> take 12 ip = v4InV6Prefix then Some (drop 12 ip)
      else None)"

definition mask_bytes :: "bytes \<Rightarrow> bytes \<Rightarrow> bytes" where
  "mask_bytes ip m = map2 (AND) ip m"

definition IP_Mask :: "bytes \<Rightarrow> bytes \<Rightarrow> bytes option" where
  "IP_Mask ip msk =
     (let m = (if length msk = 16 \<and> length ip = 4 \<and> take 12 msk = replicate 12 255
               then drop 12 msk else msk);
          a = (if length m = 4 \<and> length ip = 16 \<and> take 12 ip = v4InV6Prefix
               then drop 12 ip else ip)
      in if length a \<noteq> length m then None else Some (mask_bytes a m))"

text \<open>\<open>IPMask.Size\<close>: the number of leading ones, 0 for a mask that is not canonical.\<close>

fun byte_ones :: "nat \<Rightarrow> 8 word \<Rightarrow> nat \<times> 8 word" where
  "byte_ones 0 v = (0, v)"
| "byte_ones (Suc k) v =
     (if v AND 128 \<noteq> 0 then (case byte_ones k (push_bit 1 v) of (n, w) \<Rightarrow> (Suc n, w)) else (0, v))"

fun simpleMaskLength :: "bytes \<Rightarrow> nat option" where
  "simpleMaskLength [] = Some 0"
| "simpleMaskLength (v # vs) =
     (if v = 255 then map_option ((+) 8) (simpleMaskLength vs)
      else (case byte_ones 8 v of (n, w) \<Rightarrow>
              if w \<noteq> 0 then None
              else if list_all (\<lambda>x. x = 0) vs then Some n else None))"

definition Mask_Size :: "bytes \<Rightarrow> nat" where
  "Mask_Size m = (case simpleMaskLength m of None \<Rightarrow> 0 | Some n \<Rightarrow> n)"

definition ParseCIDR :: "string \<Rightarrow> (bytes \<times> IPNet) option" where
  "ParseCIDR s =
     (if CHR ''/'' \<notin> set s then None
      else
        (let addr = takeWhile (\<lambda>x. x \<noteq> CHR ''/'') s;
             msk = tl (dropWhile (\<lambda>x. x \<noteq> CHR ''/'') s);
             v4 = parseIPv4 addr;
             iplen = (if v4 = None then 16 else 4);
             ip = (if v4 = None then parseIPv6 addr else v4)
         in (case ip of
               None \<Rightarrow> None
             | Some a \<Rightarrow>
                 (case dtoi msk of (n, i, ok) \<Rightarrow>
                    if \<not> ok \<or> i \<noteq> length msk \<or> n > 8 * iplen then None
                    else
                      (let m = cidr_mask iplen n in
                       Some (a, \<lparr>net_IP = (case IP_Mask a m of None \<Rightarrow> [] | Some x \<Rightarrow> x),
                                 net_Mask = m\<rparr>))))))"

definition networkNumberAndMask :: "IPNet \<Rightarrow> (bytes \<times> bytes) option" where
  "networkNumberAndMask n =
     (let ip = (case To4 (net_IP n) of
                  Some x \<Rightarrow> Some x
                | None \<Rightarrow> if length (net_IP n) = 16 then Some (net_IP n) else None);
          m = net_Mask n
      in (case ip of
            None \<Rightarrow> None
          | Some a \<Rightarrow>
              if length m = 4 then (if length a \<noteq> 4 then None else Some (a, m))
              else if length m = 16 then (if length a = 4 then Some (a, drop 12 m) else Some (a, m))
              else None))"

definition Contains :: "IPNet \<Rightarrow> bytes \<Rightarrow> bool" where
  "Contains n ip =
     (let (nn, m) = (case networkNumberAndMask n of None \<Rightarrow> ([], []) | Some p \<Rightarrow> p);
          a = (case To4 ip of Some x \<Rightarrow> x | None \<Rightarrow> ip)
      in length a = length nn \<and> mask_bytes nn m = mask_bytes a m)"

section \<open>Printing\<close>

definition dotted :: "bytes \<Rightarrow> string" where
  "dotted b = str_join ''.'' (map (\<lambda>x. uitoa (unat x)) b)"

fun ip_groups :: "bytes \<Rightarrow> nat list" where
  "ip_groups (a # b # bs) = (unat a * 256 + unat b) # ip_groups bs"
| "ip_groups _ = []"

text \<open>The longest run of zero groups (the first of the longest): start and length.\<close>

function best_run :: "nat \<Rightarrow> nat list \<Rightarrow> nat \<times> nat \<Rightarrow> nat \<times> nat" where
  "best_run i [] b = b"
| "best_run i (g # gs) b =
     (let l = length (takeWhile ((=) 0) (g # gs)) in
      if l > snd b then best_run (i + l + 1) (drop l gs) (i, l)
      else best_run (Suc i) gs b)"
  by pat_completeness auto
termination
  by (relation "measure (\<lambda>(i, gs, b). length gs)") auto

definition print_groups :: "nat list \<Rightarrow> string" where
  "print_groups gs =
     (let (e0, l) = best_run 0 gs (0, 0); hs = map hex_digits gs in
      if l \<le> 1 then str_join '':'' hs
      else str_join '':'' (take e0 hs) @ ''::'' @ str_join '':'' (drop (e0 + l) hs))"

text \<open>A slice that is neither 4 nor 16 bytes prints as \<open>"?"\<close> and its bytes in hexadecimal.\<close>

definition hexString :: "bytes \<Rightarrow> string" where
  "hexString b = concat (map (\<lambda>x. [digit_char (unat x div 16), digit_char (unat x mod 16)]) b)"

definition IP_String :: "bytes \<Rightarrow> string" where
  "IP_String ip =
     (if ip = [] then ''<nil>''
      else (case To4 ip of
              Some p \<Rightarrow> dotted p
            | None \<Rightarrow> if length ip \<noteq> 16 then CHR ''?'' # hexString ip
                       else print_groups (ip_groups ip)))"

end
