(* ===== verification/Provider.thy ===== *)
theory Provider
  imports Store GoNet "HOL-Library.AList"
begin

text \<open>
  \<open>pkg/provider/provider.go\<close>: the provider builds the pool of addresses from the
  \<open>--ip-range\<close> argument and serves addresses from the store. The pool is built by a loop
  that increments the start address in place until it meets the end address or leaves
  the start's network; it is a \<open>partial_function\<close> here, and that it ends is proved in
  \<open>Pool\<close>.
\<close>

section \<open>State\<close>

record 'db IPAMProvider =
  store :: 'db
  cidrs :: "(string \<times> bool) list"  \<comment> \<open>\<open>map[string]bool\<close> as an association list\<close>

section \<open>Building the pool\<close>

definition parseIPRange :: "string \<Rightarrow> string list option" where
  "parseIPRange ipRange =
     (if ipRange = [] then None
      else Some (map (str_trim CHR '' '') (str_split CHR '','' ipRange)))"

text \<open>\<open>inc\<close>: add one to the last byte and carry while a byte wraps to zero.\<close>

fun inc_reversed :: "bytes \<Rightarrow> bytes" where
  "inc_reversed [] = []"
| "inc_reversed (b # bs) = (if b + 1 > 0 then (b + 1) # bs else (b + 1) # inc_reversed bs)"

definition inc :: "bytes \<Rightarrow> bytes" where
  "inc ip = rev (inc_reversed (rev ip))"

fun ipv4or6 :: "string \<Rightarrow> string" where
  "ipv4or6 [] = ''[PROV] Invalid Address''"
| "ipv4or6 (c # cs) =
     (if c = CHR ''.'' then ''IPv4'' else if c = CHR '':'' then ''IPv6'' else ipv4or6 cs)"

text \<open>
  \<open>for ; ipnetStart.Contains(ipStart); inc(ipStart) { ips = append(ips, ...); ... }\<close>:
  the addresses collected, \<open>None\<close> if the loop does not end.
\<close>

partial_function (option) range_loop ::
    "IPNet \<Rightarrow> bytes \<Rightarrow> bytes \<Rightarrow> string list \<Rightarrow> string list option" where
  "range_loop ipnetStart ipEnd ipStart ips =
     (if \<not> Contains ipnetStart ipStart then Some ips
      else if IP_String ipStart = IP_String ipEnd then Some (ips @ [IP_String ipStart])
      else range_loop ipnetStart ipEnd (inc ipStart) (ips @ [IP_String ipStart]))"

declare range_loop.simps [code]

definition cidr_text :: "IPNet \<Rightarrow> string" where
  "cidr_text ipNet = IP_String (net_IP ipNet) @ ''/'' @ uitoa (Mask_Size (net_Mask ipNet))"

text \<open>
  One round of the loop of \<open>generateExternalIPAddr\<close>. A malformed entry is skipped; the
  check of the address family only logs. Note that the network is registered before the
  start address is parsed.
\<close>

definition add_range ::
    "'db sqlite_driver \<Rightarrow> 'db IPAMProvider \<Rightarrow> string \<Rightarrow> 'db IPAMProvider go" where
  "add_range drv prov ip0 =
     (let ip = str_trim dquote ip0 in
      case str_split CHR ''-'' ip of
        [lo, hi] \<Rightarrow>
          (case (str_split CHR ''/'' lo, str_split CHR ''/'' hi) of
             ([startRangeIP, m1], [endRangeIP, m2]) \<Rightarrow>
               if m1 \<noteq> m2 then Inr prov
               else
                 (case ParseCIDR (endRangeIP @ ''/'' @ m1) of
                    None \<Rightarrow> Inr prov
                  | Some (ipEnd, ipNet) \<Rightarrow>
                      (let cidr = cidr_text ipNet;
                           prov1 = prov\<lparr>cidrs := AList.update cidr True (cidrs prov)\<rparr>
                       in case ParseCIDR (startRangeIP @ ''/'' @ m1) of
                            None \<Rightarrow> Inr prov1
                          | Some (ipStart, ipnetStart) \<Rightarrow>
                              (case range_loop ipnetStart ipEnd ipStart [] of
                                 None \<Rightarrow> Inl Diverges
                               | Some ips \<Rightarrow>
                                   go_bind (InsertIP drv (store prov1) ips cidr)
                                     (\<lambda>db. Inr (prov1\<lparr>store := db\<rparr>)))))
           | _ \<Rightarrow> Inr prov)
      | _ \<Rightarrow> Inr prov)"

fun add_ranges ::
    "'db sqlite_driver \<Rightarrow> 'db IPAMProvider \<Rightarrow> string list \<Rightarrow> 'db IPAMProvider go" where
  "add_ranges drv prov [] = Inr prov"
| "add_ranges drv prov (ip # ips) =
     go_bind (add_range drv prov ip) (\<lambda>prov1. add_ranges drv prov1 ips)"

text \<open>\<open>log.Fatal\<close> on an empty list ends the process with code 1.\<close>

definition generateExternalIPAddr ::
    "'db sqlite_driver \<Rightarrow> 'db IPAMProvider \<Rightarrow> string list \<Rightarrow> 'db IPAMProvider go" where
  "generateExternalIPAddr drv prov ipRanges =
     (if ipRanges = [] then Inl (ExitProcess 1)
      else go_bind (add_ranges drv prov ipRanges) (\<lambda>prov1.
             go_bind (DisplayIPRecords drv (store prov1)) (\<lambda>db. Inr (prov1\<lparr>store := db\<rparr>))))"

text \<open>
  \<open>NewProvider\<close>: nil for an empty range. A nil store is not checked for; the pool
  building then dereferences it (in \<open>InsertIP\<close>, or at the latest in
  \<open>DisplayIPRecords\<close>).
\<close>

definition NewProvider :: "'db sqlite_driver \<Rightarrow> string \<Rightarrow> 'db IPAMProvider option go" where
  "NewProvider drv ipRange =
     (case parseIPRange ipRange of
        None \<Rightarrow> Inr None
      | Some ipRanges \<Rightarrow>
          go_bind (NewStore drv) (\<lambda>st.
            case st of
              None \<Rightarrow> Inl NilDeref
            | Some db \<Rightarrow>
                go_bind (generateExternalIPAddr drv \<lparr>store = db, cidrs = []\<rparr> ipRanges)
                  (\<lambda>prov. Inr (Some prov))))"

section \<open>Serving addresses\<close>

definition prov_CreateARecord ::
    "'db sqlite_driver \<Rightarrow> 'db IPAMProvider \<Rightarrow> string \<Rightarrow> string \<Rightarrow> (bool \<times> 'db IPAMProvider) go" where
  "prov_CreateARecord drv prov hostname ipAddr =
     go_bind (CreateARecord drv (store prov) hostname ipAddr)
       (\<lambda>(_, db). Inr (True, prov\<lparr>store := db\<rparr>))"

definition prov_DeleteARecord ::
    "'db sqlite_driver \<Rightarrow> 'db IPAMProvider \<Rightarrow> string \<Rightarrow> string \<Rightarrow> 'db IPAMProvider go" where
  "prov_DeleteARecord drv prov hostname ipAddr =
     go_bind (DeleteARecord drv (store prov) hostname ipAddr)
       (\<lambda>(_, db). Inr (prov\<lparr>store := db\<rparr>))"

definition prov_GetIPAddress ::
    "'db sqlite_driver \<Rightarrow> 'db IPAMProvider \<Rightarrow> string \<Rightarrow> string \<times> 'db IPAMProvider" where
  "prov_GetIPAddress drv prov hostname =
     (case GetIPAddress drv (store prov) hostname of (ip, db) \<Rightarrow> (ip, prov\<lparr>store := db\<rparr>))"

definition GetNextAddr ::
    "'db sqlite_driver \<Rightarrow> 'db IPAMProvider \<Rightarrow> string \<Rightarrow> (string \<times> 'db IPAMProvider) go" where
  "GetNextAddr drv prov cidr =
     (case map_of (cidrs prov) cidr of
        None \<Rightarrow> Inr ([], prov)
      | Some _ \<Rightarrow>
          go_bind (AllocateIP drv (store prov) cidr) (\<lambda>(ip, db). Inr (ip, prov\<lparr>store := db\<rparr>)))"

definition AllocateIPAddress ::
    "'db sqlite_driver \<Rightarrow> 'db IPAMProvider \<Rightarrow> string \<Rightarrow> string \<Rightarrow> (bool \<times> 'db IPAMProvider) go" where
  "AllocateIPAddress drv prov cidr ipAddr =
     (case map_of (cidrs prov) cidr of
        None \<Rightarrow> Inr (False, prov)
      | Some _ \<Rightarrow>
          (case ParseCIDR cidr of
             None \<Rightarrow> Inr (False, prov)
           | Some (_, ipNet) \<Rightarrow>
               (case ParseIP ipAddr of
                  None \<Rightarrow> Inr (False, prov)
                | Some ip \<Rightarrow>
                    if Contains ipNet ip
                    then go_bind (MarkIPAsAllocated drv (store prov) cidr ipAddr)
                           (\<lambda>(b, db). Inr (b, prov\<lparr>store := db\<rparr>))
                    else Inr (False, prov))))"

definition ReleaseAddr ::
    "'db sqlite_driver \<Rightarrow> 'db IPAMProvider \<Rightarrow> string \<Rightarrow> 'db IPAMProvider go" where
  "ReleaseAddr drv prov ipAddr =
     go_bind (ReleaseIP drv (store prov) ipAddr) (\<lambda>db. Inr (prov\<lparr>store := db\<rparr>))"

lemmas provider_defs = prov_CreateARecord_def prov_DeleteARecord_def prov_GetIPAddress_def
  GetNextAddr_def AllocateIPAddress_def ReleaseAddr_def

end
