(* ===== verification/Addresses.thy ===== *)
theory Addresses
  imports Provider
begin

text \<open>
  Addresses as numbers. \<open>ip_val\<close> is the value of a byte string, most significant byte
  first; \<open>inc\<close> adds one to it modulo its size, a mask comparison is a comparison of
  quotients, and an IPv4 address in its 16-byte form is \<open>2 ^ 32 * 0xffff\<close> plus its 32-bit
  value. With it, the enumeration loop of the provider ends on every input.
\<close>

section \<open>Values of byte strings\<close>

fun le_val :: "bytes \<Rightarrow> nat" where
  "le_val [] = 0"
| "le_val (b # bs) = unat b + 256 * le_val bs"

definition ip_val :: "bytes \<Rightarrow> nat" where
  "ip_val ip = le_val (rev ip)"

lemma unat_byte [simp]: "unat (b :: 8 word) < 256" "unat (b :: 8 word) \<le> 255"
proof -
  have "unat b < 2 ^ LENGTH(8)" by (rule unsigned_less)
  then show "unat b < 256" "unat b \<le> 255" by simp_all
qed

lemma le_val_append: "le_val (xs @ ys) = le_val xs + 256 ^ length xs * le_val ys"
  by (induction xs) (simp_all add: algebra_simps)

lemma le_val_less: "le_val xs < 256 ^ length xs"
proof (induction xs)
  case Nil
  then show ?case by simp
next
  case (Cons b bs)
  have "unat b < 256" by simp
  moreover have "256 * le_val bs + 256 \<le> 256 * 256 ^ length bs" using Cons.IH by simp
  ultimately have "unat b + 256 * le_val bs < 256 * 256 ^ length bs" by linarith
  then show ?case by simp
qed

lemma le_val_inject: "length xs = length ys \<Longrightarrow> le_val xs = le_val ys \<longleftrightarrow> xs = ys"
proof (induction xs ys rule: list_induct2)
  case Nil
  then show ?case by simp
next
  case (Cons x xs y ys)
  have "unat x + 256 * le_val xs = unat y + 256 * le_val ys \<longleftrightarrow>
      unat x = unat y \<and> le_val xs = le_val ys"
  proof
    assume eq: "unat x + 256 * le_val xs = unat y + 256 * le_val ys"
    then have "(unat x + 256 * le_val xs) mod 256 = (unat y + 256 * le_val ys) mod 256" by simp
    then have "unat x = unat y" by simp
    with eq show "unat x = unat y \<and> le_val xs = le_val ys" by simp
  qed simp
  with Cons.IH show ?case by (simp add: word_unat_eq_iff)
qed

lemma ip_val_simps [simp]:
  "ip_val [] = 0" "ip_val (b # bs) = unat b * 256 ^ length bs + ip_val bs"
  by (simp_all add: ip_val_def le_val_append)

lemma ip_val_append: "ip_val (xs @ ys) = ip_val xs * 256 ^ length ys + ip_val ys"
  by (simp add: ip_val_def le_val_append)

lemma ip_val_less: "ip_val ip < 256 ^ length ip"
  using le_val_less [of "rev ip"] by (simp add: ip_val_def)

lemma ip_val_inject: "length xs = length ys \<Longrightarrow> ip_val xs = ip_val ys \<longleftrightarrow> xs = ys"
  using le_val_inject [of "rev xs" "rev ys"] by (simp add: ip_val_def)

section \<open>The increment\<close>

lemma length_inc_reversed [simp]: "length (inc_reversed xs) = length xs"
  by (induction xs) auto

lemma length_inc [simp]: "length (inc ip) = length ip"
  by (simp add: inc_def)

lemma byte_plus_one:
  fixes b :: "8 word"
  assumes "b + 1 > 0"
  shows "unat (b + 1) = unat b + 1"
proof -
  have "1 + b \<noteq> 0" using assms by (simp add: word_gt_0 add.commute)
  then have "unat (1 + b) = Suc (unat b)" by (rule unatSuc)
  then show ?thesis by (simp add: add.commute)
qed

lemma byte_wrap:
  fixes b :: "8 word"
  assumes "\<not> b + 1 > 0"
  shows "unat b = 255"
proof -
  have "b + 1 = 0" using assms by (simp add: word_gt_0)
  then have "b = - 1" by (simp add: eq_neg_iff_add_eq_0)
  then have "b = 255" by simp
  then show ?thesis by simp
qed

lemma le_val_inc: "le_val (inc_reversed xs) = (le_val xs + 1) mod 256 ^ length xs"
proof (induction xs)
  case Nil
  then show ?case by simp
next
  case (Cons b bs)
  show ?case
  proof (cases "b + 1 > 0")
    case True
    have "le_val ((b + 1) # bs) < 256 ^ length ((b + 1) # bs)" by (rule le_val_less)
    with True show ?thesis by (simp add: byte_plus_one)
  next
    case False
    then have b: "b + 1 = 0" "unat b = 255" by (simp_all add: word_gt_0 byte_wrap)
    have "(unat b + 256 * le_val bs + 1) mod (256 * 256 ^ length bs) =
        (256 * (le_val bs + 1)) mod (256 * 256 ^ length bs)"
      using b(2) by (simp add: algebra_simps)
    also have "\<dots> = 256 * ((le_val bs + 1) mod 256 ^ length bs)"
      by (rule mult_mod_right [symmetric])
    finally show ?thesis using Cons.IH b(1) by simp
  qed
qed

lemma ip_val_inc: "ip_val (inc ip) = (ip_val ip + 1) mod 256 ^ length ip"
  by (simp add: ip_val_def inc_def le_val_inc)

section \<open>The IPv4 form of an address\<close>

lemma length_v4InV6Prefix [simp]: "length v4InV6Prefix = 12"
  by (simp add: v4InV6Prefix_def)

lemma ip_val_prefix: "ip_val v4InV6Prefix = 0xFFFF"
  by (simp add: v4InV6Prefix_def)

lemma length_To4: "To4 ip = Some p \<Longrightarrow> length p = 4"
  by (auto simp: To4_def split: if_splits)

lemma To4_val:
  assumes "length ip = 16"
  shows "To4 ip \<noteq> None \<longleftrightarrow> ip_val ip div 2 ^ 32 = 0xFFFF"
proof -
  have "ip_val ip = ip_val (take 12 ip) * 256 ^ 4 + ip_val (drop 12 ip)"
    using ip_val_append [of "take 12 ip" "drop 12 ip"] assms by simp
  moreover have "ip_val (drop 12 ip) < 256 ^ 4"
    using ip_val_less [of "drop 12 ip"] assms by simp
  ultimately have "ip_val ip div 2 ^ 32 = ip_val (take 12 ip)" by simp
  also have "\<dots> = 0xFFFF \<longleftrightarrow> take 12 ip = v4InV6Prefix"
    using ip_val_inject [of "take 12 ip" v4InV6Prefix] assms by (simp add: ip_val_prefix)
  finally show ?thesis using assms by (simp add: To4_def)
qed

section \<open>The enumeration loop ends\<close>

text \<open>
  An IPv4 network contains no address past \<open>::ffff:255.255.255.255\<close>, and a 16-byte network
  contains no IPv4 address. \<open>barrier\<close> is the first value past which the loop cannot go;
  the distance to it, counted modulo \<open>2 ^ 128\<close>, decreases with every increment.
\<close>

definition barrier :: "IPNet \<Rightarrow> int" where
  "barrier net =
     (case networkNumberAndMask net of
        Some (nn, m) \<Rightarrow> if length nn = 4 then 2 ^ 48 else 0xFFFF * 2 ^ 32
      | None \<Rightarrow> 0)"

definition distance :: "IPNet \<Rightarrow> bytes \<Rightarrow> int" where
  "distance net ip = (barrier net - int (ip_val ip)) mod 2 ^ 128"

lemma Contains_length:
  assumes "Contains net ip" and "length ip = 16"
  shows "\<exists>nn m. networkNumberAndMask net = Some (nn, m) \<and>
     (length nn = 4 \<and> To4 ip \<noteq> None \<or> length nn = 16 \<and> To4 ip = None)"
  using assms
  by (cases "networkNumberAndMask net"; cases "To4 ip")
    (auto simp: Contains_def dest: length_To4)

lemma Contains_not_barrier:
  assumes "Contains net ip" and "length ip = 16"
  shows "int (ip_val ip) \<noteq> barrier net"
proof
  assume eq: "int (ip_val ip) = barrier net"
  from Contains_length [OF assms] obtain nn m where
    n: "networkNumberAndMask net = Some (nn, m)"
      "length nn = 4 \<and> To4 ip \<noteq> None \<or> length nn = 16 \<and> To4 ip = None" by blast
  show False
  proof (cases "length nn = 4")
    case True
    with eq n have "ip_val ip = 2 ^ 48" by (simp add: barrier_def)
    then show False using True n(2) To4_val [OF assms(2)] by simp
  next
    case False
    with eq n have "ip_val ip = 0xFFFF * 2 ^ 32" by (simp add: barrier_def)
    then show False using False n(2) To4_val [OF assms(2)] by simp
  qed
qed

lemma barrier_range: "0 \<le> barrier net" "barrier net < 2 ^ 128"
  by (auto simp: barrier_def split: option.splits prod.splits)

lemma distance_step:
  assumes "Contains net ip" and len: "length ip = 16"
  shows "distance net ip = distance net (inc ip) + 1"
proof -
  define v where "v = int (ip_val ip)"
  have v: "0 \<le> v" "v < 2 ^ 128"
    using ip_val_less [of ip] len by (simp_all add: v_def flip: of_nat_less_iff)
  have ne: "v \<noteq> barrier net" using Contains_not_barrier [OF assms] by (simp add: v_def)
  have inc: "int (ip_val (inc ip)) = (v + 1) mod 2 ^ 128"
    using ip_val_inc [of ip] len by (simp add: v_def of_nat_mod add.commute)
  have d: "distance net (inc ip) = (barrier net - v - 1) mod 2 ^ 128"
    unfolding distance_def inc by (simp add: mod_diff_right_eq algebra_simps)
  have "(barrier net - v) mod 2 ^ 128 \<noteq> 0"
  proof
    assume "(barrier net - v) mod 2 ^ 128 = 0"
    then have "(2::int) ^ 128 dvd barrier net - v" by (simp add: mod_eq_0_iff_dvd)
    then have "\<bar>(2::int) ^ 128\<bar> \<le> \<bar>barrier net - v\<bar>"
      using ne by (intro dvd_imp_le_int) simp_all
    then show False using v barrier_range [of net] by linarith
  qed
  moreover have range: "0 \<le> (barrier net - v) mod 2 ^ 128" "(barrier net - v) mod 2 ^ 128 < 2 ^ 128"
    by simp_all
  ultimately have pos: "0 < (barrier net - v) mod 2 ^ 128" by linarith
  have "(barrier net - v - 1) mod 2 ^ 128 = ((barrier net - v) mod 2 ^ 128 - 1) mod 2 ^ 128"
    by (simp add: mod_diff_left_eq)
  also have "\<dots> = (barrier net - v) mod 2 ^ 128 - 1"
    using pos range by (intro mod_pos_pos_trivial) linarith+
  finally show ?thesis using d by (simp add: distance_def v_def)
qed

lemma distance_nonneg: "0 \<le> distance net ip"
  by (simp add: distance_def)

lemma range_loop_ends:
  "length ip = 16 \<Longrightarrow> \<exists>ips. range_loop net e ip acc = Some (acc @ ips) \<and>
     int (length ips) \<le> distance net ip"
proof (induction "nat (distance net ip)" arbitrary: ip acc rule: less_induct)
  case less
  show ?case
  proof (cases "Contains net ip")
    case False
    then show ?thesis using distance_nonneg by (subst range_loop.simps) auto
  next
    case True
    note step = distance_step [OF True less.prems]
    show ?thesis
    proof (cases "IP_String ip = IP_String e")
      case True
      with \<open>Contains net ip\<close> show ?thesis
        using step distance_nonneg [of net "inc ip"] by (subst range_loop.simps) auto
    next
      case False
      have "nat (distance net (inc ip)) < nat (distance net ip)"
        using step distance_nonneg [of net "inc ip"] by linarith
      from less.hyps [OF this, of "acc @ [IP_String ip]"] less.prems obtain ips where
        "range_loop net e (inc ip) (acc @ [IP_String ip]) = Some (acc @ IP_String ip # ips)"
        "int (length ips) \<le> distance net (inc ip)" by auto
      with True False step show ?thesis by (subst range_loop.simps) auto
    qed
  qed
qed

end
