(* ===== verification/IPv4.thy ===== *)
theory IPv4
  imports Addresses
begin

text \<open>
  IPv4 addresses and networks, by number. \<open>v4_of n\<close> is the 16-byte form of the address
  with 32-bit value \<open>n\<close>, \<open>v4_text n\<close> its dotted text, \<open>v4_net n p\<close> its network with prefix
  length \<open>p\<close>. Printing and parsing are inverse; a network contains exactly the
  addresses with the same quotient by \<open>2 ^ (32 - p)\<close>.
\<close>

definition v4_bytes :: "nat \<Rightarrow> bytes" where
  "v4_bytes n = [of_nat (n div 2 ^ 24), of_nat (n div 2 ^ 16), of_nat (n div 2 ^ 8), of_nat n]"

definition v4_of :: "nat \<Rightarrow> bytes" where
  "v4_of n = v4InV6Prefix @ v4_bytes n"

definition v4_text :: "nat \<Rightarrow> string" where
  "v4_text n = dotted (v4_bytes n)"

definition v4_net :: "nat \<Rightarrow> nat \<Rightarrow> IPNet" where
  "v4_net n p = \<lparr>net_IP = mask_bytes (v4_bytes n) (cidr_mask 4 p), net_Mask = cidr_mask 4 p\<rparr>"

text \<open>The first address of the network, and its text with the prefix length.\<close>

definition v4_base :: "nat \<Rightarrow> nat \<Rightarrow> nat" where
  "v4_base n p = n div 2 ^ (32 - p) * 2 ^ (32 - p)"

definition v4_cidr :: "nat \<Rightarrow> nat \<Rightarrow> string" where
  "v4_cidr n p = v4_text (v4_base n p) @ ''/'' @ uitoa p"

section \<open>Values\<close>

lemma unat_of_nat_byte: "unat (of_nat n :: 8 word) = n mod 256"
  by (simp add: unsigned_of_nat take_bit_eq_mod)

lemma length_v4 [simp]: "length (v4_bytes n) = 4" "length (v4_of n) = 16"
  by (simp_all add: v4_bytes_def v4_of_def)

lemma v4_bytes_val: "n < 2 ^ 32 \<Longrightarrow> ip_val (v4_bytes n) = n"
proof -
  assume n: "n < 2 ^ 32"
  have d: "m = m div 256 * 256 + m mod 256" for m :: nat by simp
  have q: "n div 2 ^ 16 = n div 2 ^ 8 div 256" "n div 2 ^ 24 = n div 2 ^ 16 div 256"
    by (simp_all flip: div_mult2_eq)
  have top: "n div 2 ^ 24 < 256" using n by (simp add: less_mult_imp_div_less)
  have "n = n div 2 ^ 8 * 256 + n mod 256" by simp
  also have "n div 2 ^ 8 = n div 2 ^ 16 * 256 + n div 2 ^ 8 mod 256" unfolding q(1) by (rule d)
  also have "n div 2 ^ 16 = n div 2 ^ 24 * 256 + n div 2 ^ 16 mod 256" unfolding q(2) by (rule d)
  finally show ?thesis using top by (simp add: v4_bytes_def unat_of_nat_byte)
qed

lemma v4_of_val: "n < 2 ^ 32 \<Longrightarrow> ip_val (v4_of n) = 0xFFFF * 2 ^ 32 + n"
  by (simp add: v4_of_def ip_val_append ip_val_prefix v4_bytes_val)

lemma v4_bytes_inject: "m < 2 ^ 32 \<Longrightarrow> n < 2 ^ 32 \<Longrightarrow> v4_bytes m = v4_bytes n \<longleftrightarrow> m = n"
  by (metis v4_bytes_val)

lemma v4_bytes_of_val: "length b = 4 \<Longrightarrow> v4_bytes (ip_val b) = b"
proof -
  assume b: "length b = 4"
  have "ip_val b < 2 ^ 32" using ip_val_less [of b] b by simp
  then have "ip_val (v4_bytes (ip_val b)) = ip_val b" by (rule v4_bytes_val)
  then show ?thesis using b by (simp add: ip_val_inject)
qed

lemma inc_v4_of:
  assumes "Suc n < 2 ^ 32"
  shows "inc (v4_of n) = v4_of (Suc n)"
proof -
  have "ip_val (inc (v4_of n)) = ip_val (v4_of (Suc n))"
    using assms by (simp add: ip_val_inc v4_of_val)
  then show ?thesis using ip_val_inject [of "inc (v4_of n)" "v4_of (Suc n)"] by simp
qed

lemma To4_v4_of [simp]: "To4 (v4_of n) = Some (v4_bytes n)"
  by (simp add: To4_def v4_of_def)

lemma IP_String_v4_of [simp]: "IP_String (v4_of n) = v4_text n"
proof -
  have "v4_of n \<noteq> []" by (simp add: v4_of_def v4_bytes_def)
  then show ?thesis by (simp add: IP_String_def v4_text_def)
qed

section \<open>Text\<close>

lemma dec_value_ge: "n \<le> dec_value n ds"
proof (induction ds arbitrary: n)
  case (Cons c ds)
  have "n \<le> n * 10 + digit_val c" by simp
  also have "\<dots> \<le> dec_value (n * 10 + digit_val c) ds" by (rule Cons.IH)
  finally show ?case by simp
qed simp

lemma dtoi_from_digits:
  assumes "\<forall>c\<in>set ds. is_digit c" and "dec_value n ds < net_big"
    and "rest = [] \<or> \<not> is_digit (hd rest)" and "0 < i + length ds"
  shows "dtoi_from n i (ds @ rest) = (dec_value n ds, i + length ds, True)"
  using assms
proof (induction ds arbitrary: n i)
  case Nil
  then show ?case by (cases rest) auto
next
  case (Cons c ds)
  have "n * 10 + digit_val c \<le> dec_value n (c # ds)" using dec_value_ge by simp
  with Cons.prems(2) have "n * 10 + digit_val c < net_big" by linarith
  with Cons show ?case by simp
qed

lemma dtoi_uitoa:
  assumes "n < net_big" and "rest = [] \<or> \<not> is_digit (hd rest)"
  shows "dtoi (uitoa n @ rest) = (n, length (uitoa n), True)"
proof -
  have "0 < 0 + length (uitoa n)" by simp
  with assms dtoi_from_digits [of "uitoa n" 0 rest 0] show ?thesis
    by (simp add: dtoi_def uitoa_digits)
qed

lemma dtoi_uitoa_only: "n < net_big \<Longrightarrow> dtoi (uitoa n) = (n, length (uitoa n), True)"
  using dtoi_uitoa [of n "[]"] by simp

lemma parse_octets_step:
  assumes "k < 256" and "rest = [] \<or> \<not> is_digit (hd rest)"
  shows "parse_octets 4 (uitoa k @ rest) p = parse_octets 3 rest (p @ [of_nat k])"
    and "j < 3 \<Longrightarrow> parse_octets (Suc j) (CHR ''.'' # uitoa k @ rest) p = parse_octets j rest (p @ [of_nat k])"
proof -
  have big: "k < net_big" using assms(1) by (simp add: net_big_def)
  note d = dtoi_uitoa [OF big assms(2)]
  have four: "(4::nat) = Suc 3" by simp
  obtain x xs where u: "uitoa k @ rest = x # xs"
    by (metis append_is_Nil_conv neq_Nil_conv uitoa_not_Nil)
  have "parse_octets (Suc 3) (x # xs) p = (case dtoi (x # xs) of (n, c, ok) \<Rightarrow>
      if \<not> ok \<or> n > 255 then None else parse_octets 3 (drop c (x # xs)) (p @ [of_nat n]))"
    by (subst parse_octets.simps(2)) (simp only: list.case Let_def simp_thms less_irrefl if_False)
  then show "parse_octets 4 (uitoa k @ rest) p = parse_octets 3 rest (p @ [of_nat k])"
    unfolding four u [symmetric] d using assms(1) by simp
  show "j < 3 \<Longrightarrow> parse_octets (Suc j) (CHR ''.'' # uitoa k @ rest) p = parse_octets j rest (p @ [of_nat k])"
    using assms(1) d by simp
qed

lemma v4_text_unfold:
  "v4_text n = uitoa (n div 2 ^ 24 mod 256) @ CHR ''.'' # uitoa (n div 2 ^ 16 mod 256) @
     CHR ''.'' # uitoa (n div 2 ^ 8 mod 256) @ CHR ''.'' # uitoa (n mod 256)"
  by (simp add: v4_text_def dotted_def v4_bytes_def unat_of_nat_byte)

lemma parseIPv4_text: "parseIPv4 (v4_text n) = Some (v4_of n)"
proof -
  have nd: "\<not> is_digit (hd (CHR ''.'' # s))" for s by (simp add: not_digit_separators)
  have n3: "(3::nat) = Suc 2" "(2::nat) = Suc 1" "(1::nat) = Suc 0" by simp_all
  have byte: "of_nat (m mod 256) = (of_nat m :: 8 word)" for m
    by (metis (mono_tags) unat_of_nat_byte word_unat_eq_iff mod_mod_trivial)
  have last: "uitoa (n mod 256) = uitoa (n mod 256) @ []" by simp
  have "parse_octets 4 (v4_text n) [] = Some (v4_bytes n)"
    unfolding v4_text_unfold
    apply (subst parse_octets_step(1), simp, simp add: not_digit_separators)
    apply (subst n3(1), subst parse_octets_step(2), simp, simp add: not_digit_separators, simp)
    apply (subst n3(2), subst parse_octets_step(2), simp, simp add: not_digit_separators, simp)
    apply (subst n3(3), subst last, subst parse_octets_step(2), simp, simp, simp)
    apply (simp add: v4_bytes_def byte)
    done
  then show ?thesis by (simp add: parseIPv4_def v4_of_def)
qed

lemma v4_text_inject [simp]:
  "m < 2 ^ 32 \<Longrightarrow> n < 2 ^ 32 \<Longrightarrow> v4_text m = v4_text n \<longleftrightarrow> m = n"
  by (metis option.inject parseIPv4_text v4_of_val add_left_cancel)

lemma v4_text_chars: "c \<in> set (v4_text n) \<Longrightarrow> is_digit c \<or> c = CHR ''.''"
  by (auto simp: v4_text_unfold dest: uitoa_digits)

lemma v4_text_plain [simp]:
  "CHR ''/'' \<notin> set (v4_text n)" "CHR ''-'' \<notin> set (v4_text n)" "CHR '','' \<notin> set (v4_text n)"
  "CHR '':'' \<notin> set (v4_text n)" "CHR '' '' \<notin> set (v4_text n)" "dquote \<notin> set (v4_text n)"
  using v4_text_chars [of _ n] not_digit_separators by (auto simp: dquote_def)

lemma v4_text_not_Nil [simp]: "v4_text n \<noteq> []"
  by (simp add: v4_text_unfold)

lemma first_sep_v4_text: "first_sep (v4_text n) = Some CHR ''.''"
proof -
  have step: "first_sep (ds @ CHR ''.'' # rest) = Some CHR ''.''" if "\<forall>c\<in>set ds. is_digit c" for ds rest
    using that not_digit_separators by (induction ds) auto
  show ?thesis unfolding v4_text_unfold by (rule step) (simp add: uitoa_digits)
qed

lemma ParseIP_text: "ParseIP (v4_text n) = Some (v4_of n)"
  by (simp add: ParseIP_def first_sep_v4_text parseIPv4_text)

section \<open>Masks\<close>

lemma length_cidr_mask [simp]: "length (cidr_mask l p) = l"
  by (induction l arbitrary: p) auto

lemma length_mask_bytes [simp]: "length (mask_bytes a m) = min (length a) (length m)"
  by (simp add: mask_bytes_def)

lemma mask_bytes_simps [simp]:
  "mask_bytes [] m = []" "mask_bytes (a # as) (b # bs) = (a AND b) # mask_bytes as bs"
  by (simp_all add: mask_bytes_def)

lemma byte_full: "(255 :: 8 word) = mask 8" "(255 :: 8 word) = - 1" "(- 256 :: 8 word) = 0"
  by (simp_all add: mask_eq_exp_minus_1)

lemma and_byte_full [simp]: "b AND 255 = (b :: 8 word)" "b AND - 256 = (0 :: 8 word)"
  unfolding byte_full(2,3) by simp_all

lemma mask_byte_bits:
  fixes b :: "8 word"
  assumes "p < 8"
  shows "b AND NOT (drop_bit p 255) = push_bit (8 - p) (drop_bit (8 - p) b)"
proof (rule bit_word_eqI)
  fix i assume i: "i < LENGTH(8)"
  have "8 - p + (i - (8 - p)) = i" if "8 - p \<le> i" using that by simp
  then show "bit (b AND NOT (drop_bit p 255)) i = bit (push_bit (8 - p) (drop_bit (8 - p) b)) i"
    unfolding byte_full(1) using i assms by (auto simp: bit_simps)
qed

lemma mask_byte_val:
  fixes b :: "8 word"
  assumes "p < 8"
  shows "unat (b AND NOT (drop_bit p 255)) = unat b div 2 ^ (8 - p) * 2 ^ (8 - p)"
proof -
  have le: "unat b div 2 ^ (8 - p) * 2 ^ (8 - p) \<le> unat b" by simp
  then have "unat b div 2 ^ (8 - p) * 2 ^ (8 - p) < 256"
    using unat_byte(1) [of b] by linarith
  moreover have "unat (drop_bit (8 - p) b) = unat b div 2 ^ (8 - p)"
    unfolding unsigned_drop_bit_eq by (simp add: drop_bit_eq_div take_bit_eq_mod)
  moreover have "unat (push_bit (8 - p) w) = unat w * 2 ^ (8 - p) mod 256" for w :: "8 word"
    unfolding unsigned_push_bit_eq by (simp add: push_bit_eq_mult take_bit_eq_mod)
  ultimately show ?thesis
    unfolding mask_byte_bits [OF assms] by (simp del: push_bit_of_nat)
qed

lemma mask_bytes_zero: "ip_val (mask_bytes a (cidr_mask (length a) 0)) = 0"
  by (induction a) simp_all

lemma div_top: "(u * B + v) div (B * k) = u div k" if "v < B" for u v B k :: nat
  using that by (simp add: div_mult2_eq)

lemma mask_val:
  "p \<le> 8 * length a \<Longrightarrow> ip_val (mask_bytes a (cidr_mask (length a) p)) =
     ip_val a div 2 ^ (8 * length a - p) * 2 ^ (8 * length a - p)"
proof (induction a arbitrary: p)
  case Nil
  then show ?case by simp
next
  case (Cons b bs)
  let ?B = "256 ^ length bs :: nat"
  have B: "?B = 2 ^ (8 * length bs)" by (simp add: power_mult)
  show ?case
  proof (cases "p \<ge> 8")
    case True
    let ?k = "8 * length bs - (p - 8)"
    have k: "8 * length (b # bs) - p = ?k" and le: "?k \<le> 8 * length bs" using True by simp_all
    have "?B = 2 ^ (8 * length bs - ?k) * 2 ^ ?k" using le by (simp add: B flip: power_add)
    then have "(unat b * ?B + ip_val bs) div 2 ^ ?k * 2 ^ ?k =
        unat b * ?B + ip_val bs div 2 ^ ?k * 2 ^ ?k"
      by (simp add: add_mult_distrib flip: mult.assoc)
    then show ?thesis using Cons.IH [of "p - 8"] Cons.prems True by (simp add: k add.commute)
  next
    case False
    then have "8 * length (b # bs) - p = 8 * length bs + (8 - p)" by simp
    then have "2 ^ (8 * length (b # bs) - p) = ?B * 2 ^ (8 - p)" by (simp add: B power_add)
    moreover have "ip_val bs < ?B" by (rule ip_val_less)
    ultimately show ?thesis
      using False by (simp add: mask_byte_val mask_bytes_zero div_top)
  qed
qed

lemma mask_bytes_twice: "mask_bytes (mask_bytes a m) m = mask_bytes a m"
  by (induction a m rule: list_induct2') (simp_all add: mask_bytes_def ac_simps)

lemma byte_ones_mask: "p < 8 \<Longrightarrow> byte_ones 8 (NOT (drop_bit p 255)) = (p, 0)"
proof -
  assume "p < 8"
  then have "p \<in> set [0, 1, 2, 3, 4, 5, 6, 7]" by auto
  moreover have "list_all (\<lambda>p. byte_ones 8 (NOT (drop_bit p 255)) = (p, 0)) [0, 1, 2, 3, 4, 5, 6, 7]"
    by code_simp
  ultimately show ?thesis by (auto simp: list_all_iff)
qed

lemma zero_tail: "list_all (\<lambda>x. x = 0) (cidr_mask l 0)"
  by (induction l) simp_all

lemma simpleMaskLength_cidr: "p \<le> 8 * l \<Longrightarrow> simpleMaskLength (cidr_mask l p) = Some p"
proof (induction l arbitrary: p)
  case 0
  then show ?case by simp
next
  case (Suc l)
  show ?case
  proof (cases "p \<ge> 8")
    case True
    with Suc show ?thesis by simp
  next
    case False
    then have ones: "byte_ones 8 (NOT (drop_bit p 255)) = (p, 0)" by (simp add: byte_ones_mask)
    have "byte_ones 8 255 = (8, 0)" by code_simp
    with ones False have "NOT (drop_bit p 255) \<noteq> (255 :: 8 word)" by auto
    with False ones show ?thesis by (simp add: zero_tail)
  qed
qed

lemma Mask_Size_cidr [simp]: "p \<le> 8 * l \<Longrightarrow> Mask_Size (cidr_mask l p) = p"
  by (simp add: Mask_Size_def simpleMaskLength_cidr)

section \<open>Networks\<close>

lemma v4_base_less: "n < 2 ^ 32 \<Longrightarrow> v4_base n p < 2 ^ 32"
  unfolding v4_base_def by (rule le_less_trans [of _ n]) simp_all

lemma v4_base_val:
  assumes "n < 2 ^ 32" and "p \<le> 32"
  shows "ip_val (mask_bytes (v4_bytes n) (cidr_mask 4 p)) = v4_base n p"
  using mask_val [of p "v4_bytes n"] assms by (simp add: v4_bytes_val v4_base_def)

lemma v4_net_IP:
  assumes "n < 2 ^ 32" and "p \<le> 32"
  shows "net_IP (v4_net n p) = v4_bytes (v4_base n p)"
proof -
  have "v4_bytes (ip_val (net_IP (v4_net n p))) = net_IP (v4_net n p)"
    by (rule v4_bytes_of_val) (simp add: v4_net_def)
  then show ?thesis using v4_base_val [OF assms] by (simp add: v4_net_def)
qed

lemma v4_net_base:
  assumes "n < 2 ^ 32" and "p \<le> 32"
  shows "v4_net (v4_base n p) p = v4_net n p"
proof -
  have "v4_base (v4_base n p) p = v4_base n p" by (simp add: v4_base_def)
  then have "net_IP (v4_net (v4_base n p) p) = net_IP (v4_net n p)"
    using v4_net_IP [OF v4_base_less [OF assms(1), of p] assms(2)] v4_net_IP [OF assms] by simp
  then show ?thesis by (simp add: v4_net_def)
qed

lemma cidr_text_v4:
  assumes "n < 2 ^ 32" and "p \<le> 32"
  shows "cidr_text (v4_net n p) = v4_cidr n p"
proof -
  have "IP_String (v4_bytes m) = v4_text m" for m
    by (simp add: IP_String_def To4_def v4_text_def) (simp add: v4_bytes_def)
  then show ?thesis
    using assms by (simp add: cidr_text_def v4_cidr_def v4_net_IP) (simp add: v4_net_def)
qed

lemma Contains_v4:
  assumes "m < 2 ^ 32" "n < 2 ^ 32" and "p \<le> 32"
  shows "Contains (v4_net m p) (v4_of n) \<longleftrightarrow> n div 2 ^ (32 - p) = m div 2 ^ (32 - p)"
proof -
  let ?m = "cidr_mask 4 p"
  have "networkNumberAndMask (v4_net m p) = Some (mask_bytes (v4_bytes m) ?m, ?m)"
    by (simp add: networkNumberAndMask_def v4_net_def To4_def Let_def)
  then have "Contains (v4_net m p) (v4_of n) \<longleftrightarrow>
      mask_bytes (v4_bytes m) ?m = mask_bytes (v4_bytes n) ?m"
    by (simp add: Contains_def mask_bytes_twice)
  also have "\<dots> \<longleftrightarrow> v4_base m p = v4_base n p"
    using ip_val_inject [of "mask_bytes (v4_bytes m) ?m" "mask_bytes (v4_bytes n) ?m"] assms
    by (simp add: v4_base_val)
  also have "\<dots> \<longleftrightarrow> n div 2 ^ (32 - p) = m div 2 ^ (32 - p)"
    by (auto simp: v4_base_def)
  finally show ?thesis .
qed

text \<open>The text of an address and a prefix length, parsed.\<close>

lemma ParseCIDR_parts:
  assumes "CHR ''/'' \<notin> set n" and "q < net_big"
  shows "ParseCIDR (n @ ''/'' @ uitoa q) =
     (let v4 = parseIPv4 n; iplen = (if v4 = None then 16 else 4); ip = (if v4 = None then parseIPv6 n else v4)
      in case ip of None \<Rightarrow> None
         | Some a \<Rightarrow> if q > 8 * iplen then None
             else Some (a, \<lparr>net_IP = (case IP_Mask a (cidr_mask iplen q) of None \<Rightarrow> [] | Some x \<Rightarrow> x),
                            net_Mask = cidr_mask iplen q\<rparr>))"
proof -
  have tw: "takeWhile (\<lambda>x. x \<noteq> CHR ''/'') (n @ CHR ''/'' # uitoa q) = n"
    using assms(1) by (subst takeWhile_append2) auto
  have dw: "dropWhile (\<lambda>x. x \<noteq> CHR ''/'') (n @ CHR ''/'' # uitoa q) = CHR ''/'' # uitoa q"
    using assms(1) by (subst dropWhile_append2) auto
  show ?thesis
    by (simp add: ParseCIDR_def tw dw dtoi_uitoa_only [OF assms(2)] Let_def split: option.split)
qed

lemma ParseCIDR_v4:
  assumes "p \<le> 32"
  shows "ParseCIDR (v4_text n @ ''/'' @ uitoa p) = Some (v4_of n, v4_net n p)"
proof -
  have "p < net_big" using assms by (simp add: net_big_def)
  note parts = ParseCIDR_parts [OF v4_text_plain(1) this, of n]
  have m: "IP_Mask (v4_of n) (cidr_mask 4 p) = Some (mask_bytes (v4_bytes n) (cidr_mask 4 p))"
    by (simp add: IP_Mask_def Let_def) (simp add: v4_of_def)
  show ?thesis unfolding parts using assms by (simp add: parseIPv4_text m v4_net_def)
qed

section \<open>IPv4-mapped addresses\<close>

lemma hex_digit: "is_digit c \<Longrightarrow> hex_val c = Some (digit_val c) \<and> digit_val c < 16"
  by (auto simp: is_digit_def hex_val_def digit_val_def Let_def)

lemma xtoi_from_digits:
  assumes "\<forall>c\<in>set ds. is_digit c" and "n < 16 ^ j" and "j + length ds \<le> 4" and "0 < i + length ds" and "hex_val x = None"
  shows "\<exists>v. xtoi_from n i (ds @ x # rest) = (v, i + length ds, True) \<and> v < 16 ^ (j + length ds)"
  using assms
proof (induction ds arbitrary: n i j)
  case (Cons c ds)
  have c: "hex_val c = Some (digit_val c)" "digit_val c < 16" using hex_digit [of c] Cons.prems(1) by simp_all
  let ?n = "n * 16 + digit_val c"
  have "n + 1 \<le> 16 ^ j" using Cons.prems(2) by simp
  then have "(n + 1) * 16 \<le> 16 ^ j * 16" by (rule mult_le_mono1)
  then have lt: "?n < 16 ^ Suc j" using c(2) by simp
  have "(16::nat) ^ Suc j \<le> 16 ^ 4" using Cons.prems(3) by (intro power_increasing) simp_all
  with lt have "?n < net_big" by (simp add: net_big_def)
  moreover obtain v where "xtoi_from ?n (Suc i) (ds @ x # rest) = (v, Suc i + length ds, True)" "v < 16 ^ (Suc j + length ds)"
    using Cons.IH [OF _ lt, of "Suc i"] Cons.prems by auto
  ultimately show ?case using c(1) by auto
qed auto

lemma uitoa_byte: "n < 256 \<Longrightarrow> length (uitoa n) \<le> 3"
  by (simp add: uitoa.simps [of n] uitoa.simps [of "n div 10"] uitoa.simps [of "n div 10 div 10"])

lemma parse_groups_v4:
  "parse_groups 7 [255, 255] (Some 0) (v4_text m) = Some ([255, 255] @ v4_bytes m, Some 0, [])"
proof -
  let ?o = "uitoa (m div 2 ^ 24 mod 256)"
  obtain rest where t: "v4_text m = ?o @ CHR ''.'' # rest" unfolding v4_text_unfold by simp
  have "length ?o \<le> 3" by (rule uitoa_byte) simp
  then obtain v where v: "xtoi (v4_text m) = (v, length ?o, True)" "v < 16 ^ length ?o"
    using xtoi_from_digits [of ?o 0 0 0 "CHR ''.''" rest] uitoa_digits
    unfolding xtoi_def t by (auto simp: hex_val_def)
  have "(16::nat) ^ length ?o \<le> 16 ^ 3" using \<open>length ?o \<le> 3\<close> by (intro power_increasing) simp_all
  with v(2) have small: "\<not> v > 0xFFFF" by simp
  have dot: "length ?o < length (v4_text m)" "v4_text m ! length ?o = CHR ''.''" by (simp_all add: t)
  have seven: "(7::nat) = Suc 6" by simp
  show ?thesis unfolding seven parse_groups.simps(2) v(1) prod.case
    using small dot by (simp add: parseIPv4_text) (simp add: v4_of_def v4InV6Prefix_def)
qed

definition mapped_text :: "nat \<Rightarrow> string" where
  "mapped_text m = ''::ffff:'' @ v4_text m"

lemma parse_mapped: "parseIPv4 (mapped_text m) = None" "parseIPv6 (mapped_text m) = Some (v4_of m)"
  "CHR ''/'' \<notin> set (mapped_text m)"
proof -
  show "CHR ''/'' \<notin> set (mapped_text m)" by (simp add: mapped_text_def)
  have four: "(4::nat) = Suc 3" by simp
  show "parseIPv4 (mapped_text m) = None"
    unfolding parseIPv4_def four parse_octets.simps(2) mapped_text_def by (simp add: dtoi_def is_digit_def)
  have eight: "(8::nat) = Suc 7" by simp
  have x: "xtoi (''ffff:'' @ v4_text m) = (0xFFFF, 4, True)"
    by (simp add: xtoi_def hex_val_def net_big_def)
  obtain c s where t: "v4_text m = c # s" "c \<noteq> CHR '':''" 
    using v4_text_plain(4) [of m] v4_text_not_Nil [of m] by (cases "v4_text m") auto
  have byte: "(65535 :: 8 word) = 255" by code_simp
  have g: "parse_groups 8 [] (Some 0) (''ffff:'' @ v4_text m) = Some ([255, 255] @ v4_bytes m, Some 0, [])"
    unfolding eight parse_groups.simps(2) x using parse_groups_v4 [of m] t by (simp add: byte)
  have "v4_of m = replicate 10 0 @ [255, 255] @ v4_bytes m" by (simp add: v4_of_def v4InV6Prefix_def numeral_eq_Suc)
  then show "parseIPv6 (mapped_text m) = Some (v4_of m)"
    using g by (simp add: parseIPv6_def mapped_text_def expand_ellipsis_def)
qed


text \<open>The network of a mapped address with a prefix of 96 bits or more. Its text is that of an IPv4
  network, but with the long prefix, and does not parse.\<close>

definition mapped_net :: "nat \<Rightarrow> nat \<Rightarrow> IPNet" where
  "mapped_net m p = \<lparr>net_IP = v4_of (v4_base m p), net_Mask = cidr_mask 16 (96 + p)\<rparr>"

lemma cidr_mask_full: "cidr_mask (k + l) (8 * k + p) = replicate k 255 @ cidr_mask l p"
  by (induction k) simp_all

lemma mapped_mask:
  assumes "m < 2 ^ 32" and "p \<le> 32"
  shows "IP_Mask (v4_of m) (cidr_mask 16 (96 + p)) = Some (v4_of (v4_base m p))"
proof -
  have mask: "cidr_mask 16 (96 + p) = replicate 12 255 @ cidr_mask 4 p"
    using cidr_mask_full [of 12 4 p] by simp
  have pre: "mask_bytes v4InV6Prefix (replicate 12 255) = v4InV6Prefix"
    by (simp add: v4InV6Prefix_def numeral_eq_Suc)
  have "mask_bytes (a @ b) (x @ y) = mask_bytes a x @ mask_bytes b y" if "length a = length x" for a b x y
    using that by (simp add: mask_bytes_def)
  then have "mask_bytes (v4_of m) (cidr_mask 16 (96 + p)) = v4InV6Prefix @ mask_bytes (v4_bytes m) (cidr_mask 4 p)"
    unfolding v4_of_def mask by (simp add: pre)
  also have "mask_bytes (v4_bytes m) (cidr_mask 4 p) = v4_bytes (v4_base m p)"
    using v4_net_IP [OF assms] by (simp add: v4_net_def)
  finally show ?thesis by (simp add: IP_Mask_def v4_of_def)
qed

lemma ParseCIDR_mapped:
  assumes "m < 2 ^ 32" and "p \<le> 32"
  shows "ParseCIDR (mapped_text m @ ''/'' @ uitoa (96 + p)) = Some (v4_of m, mapped_net m p)"
proof -
  have "96 + p < net_big" using assms(2) by (simp add: net_big_def)
  from ParseCIDR_parts [OF parse_mapped(3) this, of m] show ?thesis
    using assms(2) by (simp add: parse_mapped mapped_mask [OF assms] mapped_net_def)
qed

lemma cidr_text_mapped:
  assumes "p \<le> 32"
  shows "cidr_text (mapped_net m p) = v4_text (v4_base m p) @ ''/'' @ uitoa (96 + p)"
  using assms by (simp add: cidr_text_def mapped_net_def)

lemma ParseCIDR_long:
  assumes "32 < q" and "q < net_big"
  shows "ParseCIDR (v4_text m @ ''/'' @ uitoa q) = None"
  using ParseCIDR_parts [OF v4_text_plain(1) assms(2), of m] assms(1) by (simp add: parseIPv4_text)

end
