(* ===== verification/Pool.thy ===== *)
theory Pool
  imports IPv4
begin

text \<open>
  The pool the provider builds. Every range entry is processed in finitely many steps
  (\<open>parse_groups\<close> and \<open>parse_octets\<close> return 16 bytes, and the loop over 16-byte addresses
  ends); a well-formed IPv4 entry adds exactly the addresses of \<open>pool_addresses\<close>.
\<close>

section \<open>Parsed addresses have 16 bytes\<close>

lemma length_parse_octets: "parse_octets k s p = Some q \<Longrightarrow> length q = length p + k"
  by (induction k s p rule: parse_octets.induct)
    (auto split: if_splits list.splits prod.splits simp: Let_def)

lemma length_parseIPv4: "parseIPv4 s = Some ip \<Longrightarrow> length ip = 16"
  by (auto simp: parseIPv4_def dest: length_parse_octets)

lemma parse_groups_step:
  "parse_groups (Suc k) p e s = Some r \<Longrightarrow>
     (\<exists>p' e' s'. length p' = length p + 2 \<and> parse_groups k p' e' s' = Some r) \<or>
     length (fst r) = length p + 2 \<or> length (fst r) \<le> 16"
proof (cases "xtoi s")
  case (fields n c ok)
  then show "parse_groups (Suc k) p e s = Some r \<Longrightarrow> ?thesis"
    by (cases "drop c s") (auto split: if_splits option.splits simp: Let_def
        dest!: length_parseIPv4)
qed

lemma length_parse_groups:
  "parse_groups k p e s = Some r \<Longrightarrow> length p + 2 * k \<le> 16 \<Longrightarrow> length (fst r) \<le> 16"
proof (induction k arbitrary: p e s)
  case 0
  then show ?case by auto
next
  case (Suc k)
  from parse_groups_step [OF Suc.prems(1)] show ?case
    using Suc.IH Suc.prems(2) by fastforce
qed

lemma length_expand: "expand_ellipsis p e s = Some ip \<Longrightarrow> length p \<le> 16 \<Longrightarrow> length ip = 16"
  by (auto simp: expand_ellipsis_def split: if_splits option.splits)

lemma length_parseIPv6: "parseIPv6 s = Some ip \<Longrightarrow> length ip = 16"
  by (auto simp: parseIPv6_def Let_def split: if_splits option.splits
      dest!: length_parse_groups length_expand)

lemma length_ParseCIDR: "ParseCIDR s = Some (ip, net) \<Longrightarrow> length ip = 16"
  by (auto simp: ParseCIDR_def Let_def split: if_splits option.splits prod.splits
      dest!: length_parseIPv4 length_parseIPv6)

section \<open>Building the pool ends\<close>

lemma prepare_exec_stop: "prepare_exec drv db sql args = Inl e \<Longrightarrow> e = NilDeref"
  by (auto simp: prepare_exec_def split: prod.splits if_splits)

lemma InsertIP_stop: "InsertIP drv db ips c = Inl e \<Longrightarrow> e = NilDeref"
  by (induction ips arbitrary: db)
    (auto simp: go_bind_eq_Inl dest: prepare_exec_stop split: prod.splits)

lemma add_range_stop: "add_range drv prov ip = Inl e \<Longrightarrow> e = NilDeref"
proof -
  have ends: "range_loop net e ip [] \<noteq> None" if "ParseCIDR s = Some (ip, net)" for s net e ip
    using range_loop_ends [OF length_ParseCIDR [OF that], of net e "[]"] by auto
  show "add_range drv prov ip = Inl e \<Longrightarrow> e = NilDeref"
    by (auto simp: add_range_def Let_def go_bind_eq_Inl dest: InsertIP_stop ends
        split: list.splits if_splits option.splits prod.splits)
qed

lemma add_ranges_stop: "add_ranges drv prov ips = Inl e \<Longrightarrow> e = NilDeref"
  by (induction ips arbitrary: prov) (auto simp: go_bind_eq_Inl dest: add_range_stop)

lemma DisplayIPRecords_stop: "DisplayIPRecords drv db = Inl e \<Longrightarrow> e = NilDeref"
  by (auto simp: DisplayIPRecords_def split: option.splits prod.splits)

lemma generateExternalIPAddr_stop:
  "generateExternalIPAddr drv prov ips = Inl e \<Longrightarrow> e = NilDeref \<or> (ips = [] \<and> e = ExitProcess 1)"
  by (auto simp: generateExternalIPAddr_def go_bind_eq_Inl dest: add_ranges_stop
      DisplayIPRecords_stop split: if_splits)

lemma NewStore_stop: "NewStore drv = Inl e \<Longrightarrow> e = NilDeref"
  by (auto simp: NewStore_def CreateTables_def go_bind_eq_Inl dest: prepare_exec_stop
      split: if_splits option.splits prod.splits)

lemma parseIPRange_Some: "parseIPRange r = Some rs \<Longrightarrow> rs \<noteq> []"
  by (auto simp: parseIPRange_def split: if_splits)

section \<open>What an IPv4 entry adds\<close>

definition same_net :: "nat \<Rightarrow> nat \<Rightarrow> nat \<Rightarrow> bool" where
  "same_net p m n \<longleftrightarrow> m div 2 ^ (32 - p) = n div 2 ^ (32 - p)"

definition pool_addresses :: "nat \<Rightarrow> nat \<Rightarrow> nat \<Rightarrow> nat list" where
  "pool_addresses s e p =
     (if s \<le> e \<and> same_net p s e then [s..<Suc e] else [s..<v4_base s p + 2 ^ (32 - p)])"

lemma same_net_iff_bounds:
  "same_net p s n \<longleftrightarrow> v4_base s p \<le> n \<and> n < v4_base s p + 2 ^ (32 - p)"
proof -
  let ?k = "2 ^ (32 - p) :: nat"
  have "n div ?k = s div ?k \<longleftrightarrow> s div ?k * ?k \<le> n \<and> n < (s div ?k + 1) * ?k"
  proof
    assume eq: "n div ?k = s div ?k"
    have "n div ?k * ?k \<le> n" by simp
    moreover have "n < ?k + n div ?k * ?k" by (rule dividend_less_div_times) simp
    ultimately show "s div ?k * ?k \<le> n \<and> n < (s div ?k + 1) * ?k" using eq by simp
  next
    assume "s div ?k * ?k \<le> n \<and> n < (s div ?k + 1) * ?k"
    then show "n div ?k = s div ?k" by (intro div_nat_eqI) (simp_all add: mult.commute)
  qed
  then show ?thesis by (auto simp: same_net_def v4_base_def algebra_simps)
qed

lemma same_net_between:
  assumes "same_net p s e" and "s \<le> n" and "n \<le> e"
  shows "same_net p s n"
  using assms div_le_mono [OF assms(2), of "2 ^ (32 - p)"] div_le_mono [OF assms(3), of "2 ^ (32 - p)"]
  by (simp add: same_net_def)

lemma net_end_le: "n < 2 ^ 32 \<Longrightarrow> p \<le> 32 \<Longrightarrow> v4_base n p + 2 ^ (32 - p) \<le> 2 ^ 32"
proof -
  assume n: "n < 2 ^ 32" and p: "p \<le> 32"
  let ?k = "2 ^ (32 - p) :: nat"
  have k: "(2 ^ 32 :: nat) = 2 ^ p * ?k" using p by (simp flip: power_add)
  then have "n div ?k < 2 ^ p" using n by (simp add: less_mult_imp_div_less)
  then have "(n div ?k + 1) * ?k \<le> 2 ^ p * ?k" by (intro mult_le_mono1) simp
  then show ?thesis using k by (simp add: v4_base_def)
qed

lemma not_Contains_past_v4:
  assumes "m < 2 ^ 32" and "p \<le> 32" and "n < 2 ^ 32" and "Suc n = 2 ^ 32"
  shows "\<not> Contains (v4_net m p) (inc (v4_of n))"
proof
  assume c: "Contains (v4_net m p) (inc (v4_of n))"
  have len: "length (inc (v4_of n)) = 16" by simp
  have "ip_val (inc (v4_of n)) = 2 ^ 48" using assms(3,4) by (simp add: ip_val_inc v4_of_val)
  then have "To4 (inc (v4_of n)) = None" using To4_val [OF len] by auto
  moreover have "networkNumberAndMask (v4_net m p) =
      Some (net_IP (v4_net m p), cidr_mask 4 p)" and "length (net_IP (v4_net m p)) = 4"
    by (simp_all add: networkNumberAndMask_def v4_net_def To4_def Let_def)
  ultimately show False using Contains_length [OF c len] by auto
qed

text \<open>The end address is met: the addresses up to it.\<close>

lemma range_loop_meets:
  assumes "p \<le> 32" "e < 2 ^ 32" "s \<le> e" "same_net p m s" "same_net p m e" "m < 2 ^ 32"
  shows "range_loop (v4_net m p) (v4_of e) (v4_of s) acc = Some (acc @ map v4_text [s..<Suc e])"
  using assms(3,4)
proof (induction "e - s" arbitrary: s acc)
  case 0
  then have "s = e" by simp
  with assms show ?case by (subst range_loop.simps) (simp add: Contains_v4 same_net_def)
next
  case (Suc d)
  then have lt: "s < e" "s < 2 ^ 32" "Suc s < 2 ^ 32" using assms(2) by simp_all
  have c: "Contains (v4_net m p) (v4_of s)"
    using lt assms Suc.prems(2) by (simp add: Contains_v4 same_net_def)
  have "same_net p s e" using Suc.prems(2) assms(5) by (simp add: same_net_def)
  from same_net_between [OF this, of "Suc s"] lt have "same_net p m (Suc s)"
    using Suc.prems(2) by (simp add: same_net_def)
  then have "range_loop (v4_net m p) (v4_of e) (v4_of (Suc s)) (acc @ [v4_text s]) =
      Some ((acc @ [v4_text s]) @ map v4_text [Suc s..<Suc e])"
    using Suc.hyps lt by (intro Suc.hyps(1)) simp_all
  moreover have "[s..<Suc e] = s # [Suc s..<Suc e]" using lt by (simp add: upt_conv_Cons)
  ultimately show ?case
    using c lt assms(2) by (subst range_loop.simps) (simp add: inc_v4_of)
qed

text \<open>The end address is not met: the addresses up to the end of the start's network.\<close>

lemma range_loop_misses:
  assumes "p \<le> 32" "e < 2 ^ 32" "m < 2 ^ 32" "same_net p m s" "\<not> (s \<le> e \<and> same_net p m e)"
  shows "range_loop (v4_net m p) (v4_of e) (v4_of s) acc =
     Some (acc @ map v4_text [s..<v4_base m p + 2 ^ (32 - p)])"
  using assms(4,5)
proof (induction "v4_base m p + 2 ^ (32 - p) - s" arbitrary: s acc)
  case 0
  then have False using same_net_iff_bounds [of p m s] by simp
  then show ?case ..
next
  case (Suc d)
  let ?top = "v4_base m p + 2 ^ (32 - p)"
  have s: "s < ?top" "s < 2 ^ 32"
    using Suc.prems(1) same_net_iff_bounds [of p m s] net_end_le [OF assms(3,1)] by auto
  have c: "Contains (v4_net m p) (v4_of s)"
    using s assms Suc.prems(1) by (simp add: Contains_v4 same_net_def)
  have ne: "s \<noteq> e" using Suc.prems by auto
  show ?case
  proof (cases "Suc s < ?top")
    case True
    then have next_ok: "same_net p m (Suc s)" "Suc s < 2 ^ 32"
      using Suc.prems(1) same_net_iff_bounds [of p m] net_end_le [OF assms(3,1)] by auto
    have "\<not> (Suc s \<le> e \<and> same_net p m e)" using Suc.prems(2) by auto
    then have "range_loop (v4_net m p) (v4_of e) (v4_of (Suc s)) (acc @ [v4_text s]) =
        Some ((acc @ [v4_text s]) @ map v4_text [Suc s..<?top])"
      using Suc.hyps(2) next_ok by (intro Suc.hyps(1)) simp_all
    then show ?thesis
      using c s ne assms(2) next_ok by (subst range_loop.simps) (simp add: inc_v4_of upt_conv_Cons)
  next
    case False
    then have top: "?top = Suc s" using s by simp
    have "\<not> Contains (v4_net m p) (inc (v4_of s))"
    proof (cases "Suc s < 2 ^ 32")
      case True
      have "\<not> same_net p m (Suc s)" using same_net_iff_bounds [of p m "Suc s"] top by simp
      with True assms show ?thesis by (simp add: inc_v4_of Contains_v4 same_net_def)
    next
      case False
      then show ?thesis using s assms by (intro not_Contains_past_v4) simp_all
    qed
    then have "range_loop (v4_net m p) (v4_of e) (inc (v4_of s)) (acc @ [v4_text s]) =
        Some (acc @ [v4_text s])" by (subst range_loop.simps) simp
    then show ?thesis
      using c s ne assms(2) top by (subst range_loop.simps) simp
  qed
qed

lemma range_loop_pool:
  assumes "s < 2 ^ 32" "e < 2 ^ 32" "p \<le> 32"
  shows "range_loop (v4_net s p) (v4_of e) (v4_of s) [] = Some (map v4_text (pool_addresses s e p))"
  using assms range_loop_meets [of p e s s "[]"] range_loop_misses [of p e s s "[]"]
  by (auto simp: pool_addresses_def same_net_def)

text \<open>An entry of the \<open>--ip-range\<close> argument for IPv4 addresses \<open>s\<close> and \<open>e\<close>.\<close>

definition range_entry :: "nat \<Rightarrow> nat \<Rightarrow> nat \<Rightarrow> string" where
  "range_entry s e p = (v4_text s @ ''/'' @ uitoa p) @ ''-'' @ (v4_text e @ ''/'' @ uitoa p)"

lemma split_range_entry:
  "str_split CHR ''-'' (str_trim dquote (range_entry s e p)) =
     [v4_text s @ ''/'' @ uitoa p, v4_text e @ ''/'' @ uitoa p]"
proof -
  have "dquote \<notin> set (range_entry s e p)" by (simp add: range_entry_def) (simp add: dquote_def)
  moreover have "str_split CHR ''-'' (range_entry s e p) =
      [v4_text s @ ''/'' @ uitoa p, v4_text e @ ''/'' @ uitoa p]"
    unfolding range_entry_def
    by (simp add: str_split_append str_split_plain del: append_assoc flip: append_assoc)
  ultimately show ?thesis by (simp add: str_trim_plain)
qed

lemma split_entry_part:
  "str_split CHR ''/'' (v4_text n @ ''/'' @ uitoa p) = [v4_text n, uitoa p]"
  by (simp add: str_split_append str_split_plain)

lemma add_range_v4:
  assumes "s < 2 ^ 32" "e < 2 ^ 32" "p \<le> 32"
  shows "add_range drv prov (range_entry s e p) =
     go_bind (InsertIP drv (store prov) (map v4_text (pool_addresses s e p)) (v4_cidr e p))
       (\<lambda>db. Inr (prov\<lparr>cidrs := AList.update (v4_cidr e p) True (cidrs prov), store := db\<rparr>))"
  using assms
  by (simp add: add_range_def split_range_entry [simplified] split_entry_part [simplified]
      ParseCIDR_v4 [simplified] cidr_text_v4 range_loop_pool Let_def)

end
