(* ===== verification/AddrText.thy ===== *)
theory AddrText
  imports Pool
begin

text \<open>
  Which strings the address parsers accept. The store pastes addresses and networks into
  its statements, so it matters that a string accepted by \<open>ParseIP\<close> or \<open>ParseCIDR\<close> is
  plain text for SQLite: it has only digits, hexadecimal letters and separators.
\<close>

definition ip_char :: "char \<Rightarrow> bool" where
  "ip_char c \<longleftrightarrow> is_digit c \<or> hex_val c \<noteq> None \<or> c = CHR ''.'' \<or> c = CHR '':''"

lemma set_take_drop: "set s \<subseteq> set (take c s) \<union> set (drop c s)"
  by (metis append_take_drop_id order_refl set_append)

lemma dtoi_from_chars:
  "dtoi_from n i s = (m, j, True) \<Longrightarrow> i \<le> j \<and> list_all ip_char (take (j - i) s)"
proof (induction n i s rule: dtoi_from.induct)
  case (1 n i)
  then show ?case by (auto split: if_splits)
next
  case (2 n i c cs)
  show ?case
  proof (cases "is_digit c")
    case True
    with 2 have "Suc i \<le> j \<and> list_all ip_char (take (j - Suc i) cs)"
      by (auto simp: Let_def split: if_splits)
    moreover have "ip_char c" using True by (simp add: ip_char_def)
    ultimately show ?thesis by (auto simp: take_Cons')
  next
    case False
    with 2 show ?thesis by (auto split: if_splits)
  qed
qed

lemma xtoi_from_chars:
  "xtoi_from n i s = (m, j, True) \<Longrightarrow> i \<le> j \<and> list_all ip_char (take (j - i) s)"
proof (induction n i s rule: xtoi_from.induct)
  case (1 n i)
  then show ?case by (auto split: if_splits)
next
  case (2 n i c cs)
  show ?case
  proof (cases "hex_val c")
    case (Some d)
    with 2 have "Suc i \<le> j \<and> list_all ip_char (take (j - Suc i) cs)"
      by (auto simp: Let_def split: if_splits)
    moreover have "ip_char c" using Some by (simp add: ip_char_def)
    ultimately show ?thesis by (auto simp: take_Cons')
  next
    case None
    with 2 show ?thesis by (auto split: if_splits)
  qed
qed

lemma dtoi_chars: "dtoi s = (n, c, True) \<Longrightarrow> list_all ip_char (take c s)"
  by (auto simp: dtoi_def dest: dtoi_from_chars)

lemma xtoi_chars: "xtoi s = (n, c, True) \<Longrightarrow> list_all ip_char (take c s)"
  by (auto simp: xtoi_def dest: xtoi_from_chars)

lemma ip_char_sep [simp]: "ip_char CHR ''.''" "ip_char CHR '':''"
  by (simp_all add: ip_char_def)

lemma list_all_take_drop: "list_all P (take n s) \<Longrightarrow> list_all P (drop n s) \<Longrightarrow> list_all P s"
  by (metis append_take_drop_id list_all_append)

lemma parse_octets_chars: "parse_octets k s p = Some q \<Longrightarrow> list_all ip_char s"
proof (induction k s p rule: parse_octets.induct)
  case (1 s p)
  then show ?case by (simp split: if_splits)
next
  case (2 k s p)
  from "2.prems" obtain x xs where s: "s = x # xs" by (auto split: list.splits)
  let ?t = "if k < 3 then xs else s"
  from "2.prems" s have dot: "k < 3 \<Longrightarrow> x = CHR ''.''" by (auto split: if_splits)
  obtain n c ok where d: "dtoi ?t = (n, c, ok)" by (metis prod_cases3)
  have ok: "ok" "\<not> n > 255" and rest: "parse_octets k (drop c ?t) (p @ [of_nat n]) = Some q"
    using "2.prems" s d by (simp_all add: Let_def split: if_splits)
  have not: "\<not> (k < 3 \<and> x \<noteq> CHR ''.'')" using dot by blast
  have "list_all ip_char (drop c ?t)"
    using "2.IH" [OF s not refl d [symmetric] refl] ok rest by simp
  moreover have "list_all ip_char (take c ?t)" using d ok dtoi_chars by simp
  ultimately have "list_all ip_char ?t" by (rule list_all_take_drop [rotated])
  then show ?case using s dot by (auto split: if_splits)
qed

lemma parse_groups_chars:
  "parse_groups k p e s = Some (p', e', u) \<Longrightarrow> list_all ip_char u \<Longrightarrow> list_all ip_char s"
proof (induction k arbitrary: p e s)
  case 0
  then show ?case by simp
next
  case (Suc k)
  obtain n c ok where x: "xtoi s = (n, c, ok)" by (metis prod_cases3)
  then have ok: "ok" using Suc.prems(1) by (simp split: if_splits)
  then have taken: "list_all ip_char (take c s)" using x xtoi_chars by simp
  show ?case
  proof (cases "c < length s \<and> s ! c = CHR ''.''")
    case True
    then have "parseIPv4 s \<noteq> None" using Suc.prems(1) x by (auto split: if_splits option.splits)
    then show ?thesis by (auto simp: parseIPv4_def dest: parse_octets_chars)
  next
    case False
    have "list_all ip_char (drop c s)"
    proof (cases "drop c s")
      case (Cons y t)
      then show ?thesis
        using Suc.prems False x ok
        by (cases t) (auto simp: Let_def split: if_splits dest: Suc.IH)
    qed simp
    with taken show ?thesis by (rule list_all_take_drop)
  qed
qed

lemma parseIPv6_chars: "parseIPv6 s = Some ip \<Longrightarrow> list_all ip_char s"
proof -
  assume ip: "parseIPv6 s = Some ip"
  define lead where "lead = (length s \<ge> 2 \<and> s ! 0 = CHR '':'' \<and> s ! 1 = CHR '':'')"
  let ?t = "if lead then drop 2 s else s"
  have "list_all ip_char ?t"
  proof (cases "lead \<and> ?t = []")
    case False
    then obtain p e u where g: "parse_groups 8 [] (if lead then Some 0 else None) ?t = Some (p, e, u)"
      and x: "expand_ellipsis p e u = Some ip"
      using ip unfolding parseIPv6_def lead_def [symmetric] Let_def
      by (simp only: if_False) (auto split: option.splits)
    from x have "u = []" by (simp add: expand_ellipsis_def split: if_splits)
    with parse_groups_chars [OF g] show ?thesis by simp
  next
    case True
    then have "?t = []" by (rule conjunct2)
    then show ?thesis by (simp only: list.pred_inject)
  qed
  moreover have "list_all ip_char (take 2 s)" if lead
    using that by (cases s; cases "tl s") (auto simp: lead_def)
  ultimately show ?thesis by (auto intro: list_all_take_drop split: if_splits)
qed

lemma ParseIP_chars: "ParseIP s = Some ip \<Longrightarrow> list_all ip_char s"
  by (auto simp: ParseIP_def parseIPv4_def split: option.splits if_splits
      dest: parse_octets_chars parseIPv6_chars)

lemma first_sep_mem: "first_sep s = Some c \<Longrightarrow> c \<in> set s \<and> (c = CHR ''.'' \<or> c = CHR '':'')"
  by (induction s) (auto split: if_splits)

section \<open>Plain text for SQLite\<close>

lemma ip_char_not [simp]: "\<not> ip_char dquote" "\<not> ip_char CHR 0x00" "\<not> ip_char CHR ''/''"
  by code_simp+

lemma plain_sep_literal:
  assumes "dquote \<notin> set s" "CHR 0x00 \<notin> set s" "c \<in> set s" "c \<in> {CHR ''.'', CHR '':'', CHR ''/''}"
  shows "sql_literal s"
proof -
  have "lower_char c = c" using assms(4) by (auto simp: lower_char_def)
  then have "c \<in> set (map lower_char s)" using assms(3) by force
  moreover have "\<forall>t\<in>set sql_columns. CHR ''.'' \<notin> set t \<and> CHR '':'' \<notin> set t \<and> CHR ''/'' \<notin> set t"
    by (simp add: sql_columns_def)
  ultimately have "map lower_char s \<notin> set sql_columns" using assms(4) by blast
  with assms(1,2) show ?thesis by (simp add: sql_literal_def)
qed

lemma ParseIP_literal:
  assumes "ParseIP s = Some ip"
  shows "sql_literal s"
proof -
  obtain c where "first_sep s = Some c" using assms by (auto simp: ParseIP_def split: option.splits)
  then have c: "c \<in> set s" "c = CHR ''.'' \<or> c = CHR '':''" using first_sep_mem by blast+
  have "dquote \<notin> set s" "CHR 0x00 \<notin> set s"
    using ParseIP_chars [OF assms] by (auto simp: list_all_iff)
  with c show ?thesis by (intro plain_sep_literal) auto
qed

lemma dquote_not_slash: "dquote \<noteq> CHR ''/''"
  by (simp add: dquote_def)

lemma dtoi_only_chars: "dtoi s = (n, length s, True) \<Longrightarrow> list_all ip_char s"
  using dtoi_chars by fastforce

lemma ParseCIDR_literal:
  assumes "ParseCIDR s = Some r"
  shows "sql_literal s"
proof -
  define addr where "addr = takeWhile (\<lambda>x. x \<noteq> CHR ''/'') s"
  define msk where "msk = tl (dropWhile (\<lambda>x. x \<noteq> CHR ''/'') s)"
  have slash: "CHR ''/'' \<in> set s" using assms by (auto simp: ParseCIDR_def split: if_splits)
  then have "dropWhile (\<lambda>x. x \<noteq> CHR ''/'') s = CHR ''/'' # msk"
    unfolding msk_def by (induction s) auto
  then have s: "s = addr @ CHR ''/'' # msk"
    unfolding addr_def by (metis takeWhile_dropWhile_id)
  have "parseIPv4 addr \<noteq> None \<or> parseIPv6 addr \<noteq> None"
    using assms slash by (auto simp: ParseCIDR_def Let_def addr_def split: if_splits option.splits)
  then have "list_all ip_char addr"
    by (auto simp: parseIPv4_def dest: parse_octets_chars parseIPv6_chars)
  moreover have "\<exists>n. dtoi msk = (n, length msk, True)"
    using assms slash
    by (cases "dtoi msk") (auto simp: ParseCIDR_def Let_def msk_def split: if_splits option.splits)
  then have "list_all ip_char msk" using dtoi_only_chars by blast
  ultimately have "dquote \<notin> set s" "CHR 0x00 \<notin> set s"
    unfolding s list_all_iff using ip_char_not
    by (auto simp: dquote_not_slash)
  with slash show ?thesis by (intro plain_sep_literal [of s "CHR ''/''"]) auto
qed

end
