(* ===== verification/SqliteRef.thy ===== *)
theory SqliteRef
  imports Sqlite
begin

text \<open>
  A reference database: an instance of the driver parameter that runs the store's
  statements on the tables of \<open>Ledger\<close> and nothing else. It reads the pasted arguments
  back from the statement text. It shows that the laws of \<open>Sqlite\<close> can hold together, and
  the concrete examples of the development run on it. \<open>failing_driver\<close> is the same
  database whose \<open>UPDATE\<close> by id fails, as every call of \<open>sqlite_engine\<close> may.
\<close>

type_synonym ref_db = "tables \<times> string list"

definition ref_tables :: "ref_db \<Rightarrow> tables" where
  "ref_tables db = fst db"

definition ref_has :: "ref_db \<Rightarrow> string set" where
  "ref_has db = set (snd db)"

fun ref_exec :: "ref_db \<Rightarrow> string \<Rightarrow> sql_value list \<Rightarrow> bool \<times> ref_db" where
  "ref_exec (t, ns) sql [] =
     (if sql = createIPAddressTableSQL \<and> ''ipaddress_range'' \<notin> set ns
      then (True, t\<lparr>ranges := [], next_id := 1\<rparr>, ''ipaddress_range'' # ns)
      else if sql = createARecodsTableSQL \<and> ''a_records'' \<notin> set ns
      then (True, t\<lparr>a_records := []\<rparr>, ''a_records'' # ns)
      else (False, t, ns))"
| "ref_exec (t, ns) sql [SInt i] =
     (if sql = allocateIPSql then (True, tb_status_by_id ALLOCATED i t, ns) else (False, t, ns))"
| "ref_exec (t, ns) sql [SText ip] =
     (if sql = unallocateIPSql then (True, tb_status_by_ip AVAILABLE ip t, ns) else (False, t, ns))"
| "ref_exec (t, ns) sql [SText ip, SText h] =
     (if sql = insertARecordSQL then (True, tb_insert_record ip h t, ns)
      else if sql = deleteARecord_sql then (True, tb_delete_record ip h t, ns)
      else (False, t, ns))"
| "ref_exec (t, ns) sql [SText ip, SInt st, SText c] =
     (if sql = insertIPSQL then (True, tb_insert_range ip st c t, ns) else (False, t, ns))"
| "ref_exec (t, ns) sql args = (False, t, ns)"

text \<open>The texts around the pasted arguments.\<close>

definition available_pre :: string where
  "available_pre = ''SELECT ipaddress,id FROM ipaddress_range where status=1 AND cidr=''"

definition available_ip_pre :: string where
  "available_ip_pre = ''SELECT id FROM ipaddress_range where status=1 AND cidr=''"

definition host_pre :: string where
  "host_pre = ''SELECT ipaddress FROM a_records where hostname=''"

fun ref_row :: "tables \<Rightarrow> string list \<Rightarrow> sql_value list option" where
  "ref_row t [a, x, b] =
     (if a = available_pre
      then map_option (\<lambda>r. [SText (row_ip r), SInt (row_id r)]) (tb_available x t)
      else if a = host_pre
      then (if x = ''hostname'' then map_option (\<lambda>ip. [SText ip]) (tb_any_ip t)
            else map_option (\<lambda>ip. [SText ip]) (tb_host_ip x t))
      else None)"
| "ref_row t [a, x, b, y, d] =
     (if a = available_ip_pre
      then map_option (\<lambda>r. [SInt (row_id r)]) (tb_available_ip x y t) else None)"
| "ref_row t _ = None"

definition ref_driver :: "ref_db sqlite_driver" where
  "ref_driver =
     \<lparr>drv_open = (\<lambda>name dsn. Some (empty_tables, [])),
      drv_ping = (\<lambda>db. (True, db)),
      drv_prepare = (\<lambda>db sql. (True, db)),
      drv_exec = ref_exec,
      drv_query_row = (\<lambda>db sql. (ref_row (fst db) (str_split dquote sql), db)),
      drv_query = (\<lambda>db sql. (Some [], db))\<rparr>"

definition failing_driver :: "ref_db sqlite_driver" where
  "failing_driver = ref_driver\<lparr>drv_exec :=
     (\<lambda>db sql args. if sql = allocateIPSql then (False, db) else ref_exec db sql args)\<rparr>"

section \<open>Statement texts\<close>

lemma fmt_status: "fmt_int AVAILABLE = ''1''" "fmt_int ALLOCATED = ''0''"
  by code_simp+

lemma sql_text_pieces:
  "dquote \<notin> set x \<Longrightarrow> str_split dquote (select_available_sql x) =
     [available_pre, x, '' order by id ASC limit 1'']"
  "dquote \<notin> set x \<Longrightarrow> str_split dquote (select_host_sql x) =
     [host_pre, x, '' order by ipaddress ASC limit 1'']"
  "dquote \<notin> set x \<Longrightarrow> dquote \<notin> set y \<Longrightarrow> str_split dquote (select_available_ip_sql x y) =
     [available_ip_pre, x, '' AND ipaddress='', y, '' order by id ASC limit 1'']"
proof -
  have plain: "dquote \<notin> set available_pre" "dquote \<notin> set host_pre" "dquote \<notin> set available_ip_pre"
    "dquote \<notin> set '' AND ipaddress=''" "dquote \<notin> set '' order by id ASC limit 1''"
    "dquote \<notin> set '' order by ipaddress ASC limit 1''"
    by code_simp+
  have a: "select_available_sql x = available_pre @ dquote # x @ dquote # '' order by id ASC limit 1''"
    by (simp add: select_available_sql_def available_pre_def quoted_def fmt_status)
  have h: "select_host_sql x = host_pre @ dquote # x @ dquote # '' order by ipaddress ASC limit 1''"
    by (simp add: select_host_sql_def host_pre_def quoted_def)
  have i: "select_available_ip_sql x y = available_ip_pre @ dquote # x @ dquote # '' AND ipaddress=''
      @ dquote # y @ dquote # '' order by id ASC limit 1''"
    by (simp add: select_available_ip_sql_def available_ip_pre_def quoted_def fmt_status)
  note split = str_split_append str_split_plain
  show "dquote \<notin> set x \<Longrightarrow> str_split dquote (select_available_sql x) =
      [available_pre, x, '' order by id ASC limit 1'']"
    unfolding a using plain by (simp only: split not_False_eq_True)
  show "dquote \<notin> set x \<Longrightarrow> str_split dquote (select_host_sql x) =
      [host_pre, x, '' order by ipaddress ASC limit 1'']"
    unfolding h using plain by (simp only: split not_False_eq_True)
  show "dquote \<notin> set x \<Longrightarrow> dquote \<notin> set y \<Longrightarrow> str_split dquote (select_available_ip_sql x y) =
      [available_ip_pre, x, '' AND ipaddress='', y, '' order by id ASC limit 1'']"
    unfolding i using plain by (simp only: split not_False_eq_True)
qed

lemma host_pre_distinct: "host_pre \<noteq> available_pre"
  by code_simp

lemma sql_distinct:
  "createARecodsTableSQL \<noteq> createIPAddressTableSQL" "deleteARecord_sql \<noteq> insertARecordSQL"
  "unallocateIPSql \<noteq> allocateIPSql" "insertIPSQL \<noteq> allocateIPSql"
  "insertARecordSQL \<noteq> allocateIPSql" "deleteARecord_sql \<noteq> allocateIPSql"
  "createIPAddressTableSQL \<noteq> allocateIPSql" "createARecodsTableSQL \<noteq> allocateIPSql"
  by code_simp+

lemma sql_literal_plain: "sql_literal x \<Longrightarrow> dquote \<notin> set x"
  by (simp add: sql_literal_def)

lemma hostname_not_literal: "\<not> sql_literal ''hostname''"
  by code_simp

lemma hostname_plain: "dquote \<notin> set ''hostname''"
  by code_simp

lemma ref_available [simp]:
  "sql_literal x \<Longrightarrow> ref_row t (str_split dquote (select_available_sql x)) =
     map_option (\<lambda>r. [SText (row_ip r), SInt (row_id r)]) (tb_available x t)"
  by (simp add: sql_text_pieces sql_literal_plain)

lemma ref_available_ip [simp]:
  "sql_literal x \<Longrightarrow> sql_literal y \<Longrightarrow>
     ref_row t (str_split dquote (select_available_ip_sql x y)) =
     map_option (\<lambda>r. [SInt (row_id r)]) (tb_available_ip x y t)"
  by (simp add: sql_text_pieces sql_literal_plain)

lemma ref_host [simp]:
  assumes "sql_literal x"
  shows "ref_row t (str_split dquote (select_host_sql x)) =
     map_option (\<lambda>ip. [SText ip]) (tb_host_ip x t)"
proof -
  have "x \<noteq> ''hostname''" using assms hostname_not_literal by blast
  then show ?thesis
    by (simp add: sql_text_pieces sql_literal_plain assms host_pre_distinct)
qed

lemma ref_host_column [simp]:
  "ref_row t (str_split dquote (select_host_sql ''hostname'')) =
     map_option (\<lambda>ip. [SText ip]) (tb_any_ip t)"
  unfolding sql_text_pieces(2) [OF hostname_plain] by (simp add: host_pre_distinct)

lemma ref_exec_eqs:
  "ref_exec db allocateIPSql [SInt i] = (True, tb_status_by_id ALLOCATED i (fst db), snd db)"
  "ref_exec db unallocateIPSql [SText ip] = (True, tb_status_by_ip AVAILABLE ip (fst db), snd db)"
  "ref_exec db insertARecordSQL [SText ip, SText h] = (True, tb_insert_record ip h (fst db), snd db)"
  "ref_exec db deleteARecord_sql [SText ip, SText h] = (True, tb_delete_record ip h (fst db), snd db)"
  "ref_exec db insertIPSQL [SText ip, SInt st, SText c] =
     (True, tb_insert_range ip st c (fst db), snd db)"
  "ref_exec db createIPAddressTableSQL [] =
     (if ''ipaddress_range'' \<notin> set (snd db)
      then (True, (fst db)\<lparr>ranges := [], next_id := 1\<rparr>, ''ipaddress_range'' # snd db)
      else (False, fst db, snd db))"
  "ref_exec db createARecodsTableSQL [] =
     (if ''a_records'' \<notin> set (snd db)
      then (True, (fst db)\<lparr>a_records := []\<rparr>, ''a_records'' # snd db)
      else (False, fst db, snd db))"
  unfolding atomize_conj
  by (cases db) (simp add: sql_distinct sql_distinct(1) [symmetric])

section \<open>The laws hold\<close>

lemma ref_driver_calls [simp]:
  "drv_open ref_driver name dsn = Some (empty_tables, [])"
  "drv_ping ref_driver db = (True, db)"
  "drv_prepare ref_driver db sql = (True, db)"
  "drv_exec ref_driver = ref_exec"
  "drv_query_row ref_driver db sql = (ref_row (fst db) (str_split dquote sql), db)"
  "drv_query ref_driver db sql = (Some [], db)"
  by (simp_all add: ref_driver_def)

lemma failing_driver_calls [simp]:
  "drv_ping failing_driver db = (True, db)"
  "drv_prepare failing_driver db sql = (True, db)"
  "drv_exec failing_driver db sql args =
     (if sql = allocateIPSql then (False, db) else ref_exec db sql args)"
  "drv_query_row failing_driver db sql = (ref_row (fst db) (str_split dquote sql), db)"
  "drv_query failing_driver db sql = (Some [], db)"
  by (simp_all add: failing_driver_def)

interpretation ref: reliable_sqlite ref_driver ref_tables ref_has
proof (unfold_locales, goal_cases)
qed (simp_all add: ref_tables_def ref_has_def ref_exec_eqs insert_absorb, blast+)

interpretation failing: sqlite_engine failing_driver ref_tables
proof (unfold_locales, goal_cases)
qed (simp_all add: ref_tables_def ref_exec_eqs sql_distinct, blast+)

end
