(* ===== verification/Manager.thy ===== *)
theory Manager
  imports AddrText SqliteRef
begin

text \<open>
  \<open>pkg/manager\<close>: the interface \<open>Manager\<close> the controller calls, here a record of functions
  over the manager's state as a Go interface is a table of methods, and its one
  implementation \<open>IPAMManager\<close>, a pointer to a struct that holds the provider (\<open>None\<close> is
  the nil pointer). The contract of the interface is the locale \<open>ip_manager\<close>; over a
  healthy database \<open>IPAMManager\<close> fulfils it.
\<close>

section \<open>The interface\<close>

record 'm manager_iface =
  mg_CreateARecord :: "'m \<Rightarrow> string \<Rightarrow> string \<Rightarrow> (bool \<times> 'm) go"
  mg_DeleteARecord :: "'m \<Rightarrow> string \<Rightarrow> string \<Rightarrow> 'm go"
  mg_GetIPAddress :: "'m \<Rightarrow> string \<Rightarrow> (string \<times> 'm) go"
  mg_GetNextIPAddress :: "'m \<Rightarrow> string \<Rightarrow> (string \<times> 'm) go"
  mg_AllocateIPAddress :: "'m \<Rightarrow> string \<Rightarrow> string \<Rightarrow> (bool \<times> 'm) go"
  mg_ReleaseIPAddress :: "'m \<Rightarrow> string \<Rightarrow> 'm go"

section \<open>IPAMManager\<close>

record 'db IPAMManager =
  provider :: "'db IPAMProvider"

type_synonym 'db ipam_ptr = "'db IPAMManager option"

definition NewIPAMManager :: "'db sqlite_driver \<Rightarrow> string \<Rightarrow> 'db ipam_ptr go" where
  "NewIPAMManager drv ipRange =
     go_bind (NewProvider drv ipRange) (\<lambda>prov.
       case prov of None \<Rightarrow> Inr None | Some p \<Rightarrow> Inr (Some \<lparr>provider = p\<rparr>))"

definition isIPV4Addr :: "string \<Rightarrow> bool" where
  "isIPV4Addr ipAddr =
     (if ParseIP ipAddr = None then False else if CHR '':'' \<in> set ipAddr then False else True)"

definition with_provider ::
    "'db ipam_ptr \<Rightarrow> ('db IPAMProvider \<Rightarrow> ('a \<times> 'db IPAMProvider) go) \<Rightarrow> ('a \<times> 'db ipam_ptr) go" where
  "with_provider m f =
     (case m of
        None \<Rightarrow> Inl NilDeref
      | Some mgr \<Rightarrow> go_bind (f (provider mgr)) (\<lambda>(x, p). Inr (x, Some (mgr\<lparr>provider := p\<rparr>))))"

definition ipmgr_CreateARecord ::
    "'db sqlite_driver \<Rightarrow> 'db ipam_ptr \<Rightarrow> string \<Rightarrow> string \<Rightarrow> (bool \<times> 'db ipam_ptr) go" where
  "ipmgr_CreateARecord drv m hostname ipAddr =
     (if \<not> isIPV4Addr ipAddr then Inr (False, m)
      else go_bind (with_provider m (\<lambda>p. prov_CreateARecord drv p hostname ipAddr))
             (\<lambda>(_, m1). Inr (True, m1)))"

definition ipmgr_DeleteARecord ::
    "'db sqlite_driver \<Rightarrow> 'db ipam_ptr \<Rightarrow> string \<Rightarrow> string \<Rightarrow> 'db ipam_ptr go" where
  "ipmgr_DeleteARecord drv m hostname ipAddr =
     (if \<not> isIPV4Addr ipAddr then Inr m
      else go_bind (with_provider m (\<lambda>p. go_bind (prov_DeleteARecord drv p hostname ipAddr) (\<lambda>q. Inr ((), q))))
             (\<lambda>(_, m1). Inr m1))"

definition ipmgr_GetIPAddress ::
    "'db sqlite_driver \<Rightarrow> 'db ipam_ptr \<Rightarrow> string \<Rightarrow> (string \<times> 'db ipam_ptr) go" where
  "ipmgr_GetIPAddress drv m hostname = with_provider m (\<lambda>p. Inr (prov_GetIPAddress drv p hostname))"

definition ipmgr_GetNextIPAddress ::
    "'db sqlite_driver \<Rightarrow> 'db ipam_ptr \<Rightarrow> string \<Rightarrow> (string \<times> 'db ipam_ptr) go" where
  "ipmgr_GetNextIPAddress drv m cidr =
     (case ParseCIDR cidr of
        None \<Rightarrow> Inr ([], m)
      | Some _ \<Rightarrow> with_provider m (\<lambda>p. GetNextAddr drv p cidr))"

definition ipmgr_AllocateIPAddress ::
    "'db sqlite_driver \<Rightarrow> 'db ipam_ptr \<Rightarrow> string \<Rightarrow> string \<Rightarrow> (bool \<times> 'db ipam_ptr) go" where
  "ipmgr_AllocateIPAddress drv m cidr ipAddr = with_provider m (\<lambda>p. AllocateIPAddress drv p cidr ipAddr)"

definition ipmgr_ReleaseIPAddress ::
    "'db sqlite_driver \<Rightarrow> 'db ipam_ptr \<Rightarrow> string \<Rightarrow> 'db ipam_ptr go" where
  "ipmgr_ReleaseIPAddress drv m ipAddr =
     (if \<not> isIPV4Addr ipAddr then Inr m
      else go_bind (with_provider m (\<lambda>p. go_bind (ReleaseAddr drv p ipAddr) (\<lambda>q. Inr ((), q))))
             (\<lambda>(_, m1). Inr m1))"

definition ipam_manager :: "'db sqlite_driver \<Rightarrow> 'db ipam_ptr manager_iface" where
  "ipam_manager drv =
     \<lparr>mg_CreateARecord = ipmgr_CreateARecord drv,
      mg_DeleteARecord = ipmgr_DeleteARecord drv,
      mg_GetIPAddress = ipmgr_GetIPAddress drv,
      mg_GetNextIPAddress = ipmgr_GetNextIPAddress drv,
      mg_AllocateIPAddress = ipmgr_AllocateIPAddress drv,
      mg_ReleaseIPAddress = ipmgr_ReleaseIPAddress drv\<rparr>"

lemmas ipmgr_defs = ipmgr_CreateARecord_def ipmgr_DeleteARecord_def ipmgr_GetIPAddress_def
  ipmgr_GetNextIPAddress_def ipmgr_AllocateIPAddress_def ipmgr_ReleaseIPAddress_def

section \<open>NewManager\<close>

definition F5IPAMProvider :: string where
  "F5IPAMProvider = ''f5-ip-provider''"

record ManagerParams =
  Provider :: string
  Range :: string

text \<open>
  \<open>NewManager\<close> returns an interface value: \<open>None\<close> is the nil interface, \<open>Some None\<close> an
  interface that holds a nil \<open>*IPAMManager\<close> and does not compare equal to nil.
\<close>

definition NewManager :: "'db sqlite_driver \<Rightarrow> ManagerParams \<Rightarrow> 'db ipam_ptr option go" where
  "NewManager drv params =
     (if Provider params = F5IPAMProvider
      then go_bind (NewIPAMManager drv (Range params)) (\<lambda>m. Inr (Some m))
      else Inr None)"

section \<open>The contract\<close>

text \<open>
  \<open>book m\<close> is the address book behind the manager, \<open>wf\<close> what the manager keeps of its
  own state, \<open>host_ok\<close> the host names it can look up, \<open>bindable\<close> the addresses it creates
  records for, \<open>in_net c ip\<close> when it considers \<open>ip\<close> an address of network \<open>c\<close>.
\<close>

locale ip_manager =
  fixes M :: "'m manager_iface"
    and book :: "'m \<Rightarrow> tables"
    and wf :: "'m \<Rightarrow> bool"
    and host_ok :: "string \<Rightarrow> bool"
    and bindable :: "string \<Rightarrow> bool"
    and in_net :: "string \<Rightarrow> string \<Rightarrow> bool"
  assumes lookup: "wf m \<Longrightarrow> host_ok h \<Longrightarrow> \<exists>m'. mg_GetIPAddress M m h = Inr (bk_lookup h (book m), m')
       \<and> book m' = book m \<and> wf m'"
    and next_address: "wf m \<Longrightarrow> \<exists>m'. mg_GetNextIPAddress M m c = Inr (fst (bk_next c (book m)), m')
       \<and> book m' = snd (bk_next c (book m)) \<and> wf m'"
    and take_address: "wf m \<Longrightarrow> \<exists>m'. mg_AllocateIPAddress M m c ip =
           Inr (in_net c ip \<and> fst (bk_take c ip (book m)), m')
       \<and> book m' = (if in_net c ip then snd (bk_take c ip (book m)) else book m) \<and> wf m'"
    and release: "wf m \<Longrightarrow> \<exists>m'. mg_ReleaseIPAddress M m ip = Inr m' \<and> wf m'
       \<and> book m' = (if bindable ip then bk_release ip (book m) else book m)"
    and bind: "wf m \<Longrightarrow> \<exists>m'. mg_CreateARecord M m h ip = Inr (bindable ip, m') \<and> wf m'
       \<and> book m' = (if bindable ip then bk_bind h ip (book m) else book m)"
    and unbind: "wf m \<Longrightarrow> \<exists>m'. mg_DeleteARecord M m h ip = Inr m' \<and> wf m'
       \<and> book m' = (if bindable ip then bk_unbind h ip (book m) else book m)"

section \<open>IPAMManager fulfils the contract\<close>

text \<open>
  What the manager keeps of its state: the network of every row of the pool is registered,
  and every registered network parses.
\<close>

definition nets_ok :: "(string \<times> bool) list \<Rightarrow> tables \<Rightarrow> bool" where
  "nets_ok cs t \<longleftrightarrow>
     list_all (\<lambda>r. map_of cs (row_cidr r) \<noteq> None) (ranges t) \<and>
     list_all (\<lambda>e. ParseCIDR (fst e) \<noteq> None) cs"

fun mgr_wf :: "('db \<Rightarrow> tables) \<Rightarrow> 'db ipam_ptr \<Rightarrow> bool" where
  "mgr_wf tbl None = False"
| "mgr_wf tbl (Some m) = nets_ok (cidrs (provider m)) (tbl (store (provider m)))"

fun mgr_book :: "('db \<Rightarrow> tables) \<Rightarrow> 'db ipam_ptr \<Rightarrow> tables" where
  "mgr_book tbl None = empty_tables"
| "mgr_book tbl (Some m) = tbl (store (provider m))"

lemma nets_ok_cong:
  assumes "map row_cidr (ranges t') = map row_cidr (ranges t)"
  shows "nets_ok cs t' = nets_ok cs t"
proof -
  have "list_all (\<lambda>r. P (row_cidr r)) (ranges t') = list_all (\<lambda>r. P (row_cidr r)) (ranges t)" for P
    using arg_cong [OF assms, of "list_all P"] by (simp add: list_all_iff)
  from this [of "\<lambda>c. map_of cs c \<noteq> None"] show ?thesis unfolding nets_ok_def by blast
qed

lemma nets_ok_book [simp]:
  "nets_ok cs (snd (bk_next c t)) = nets_ok cs t"
  "nets_ok cs (snd (bk_take c ip t)) = nets_ok cs t"
  "nets_ok cs (bk_release ip t) = nets_ok cs t"
  "nets_ok cs (bk_bind h ip t) = nets_ok cs t"
  "nets_ok cs (bk_unbind h ip t) = nets_ok cs t"
  by (rule nets_ok_cong; simp add: bk_defs split: option.split)+

lemma nets_ok_literal:
  "nets_ok cs t \<Longrightarrow> map_of cs c = Some b \<Longrightarrow> ParseCIDR c \<noteq> None \<and> sql_literal c"
  by (fastforce simp: nets_ok_def list_all_iff dest: map_of_SomeD ParseCIDR_literal)

lemma nets_ok_unregistered:
  assumes "nets_ok cs t" and "map_of cs c = None \<or> ParseCIDR c = None"
  shows "bk_next c t = ([], t)" and "bk_take c ip t = (False, t)"
proof -
  have "row_cidr r \<noteq> c" if "r \<in> set (ranges t)" for r
    using assms that nets_ok_literal [OF assms(1), of c]
    by (auto simp: nets_ok_def list_all_iff)
  then have "tb_available c t = None" "tb_available_ip c ip t = None"
    by (auto simp: tb_available_None tb_available_ip_def find_None_iff)
  then show "bk_next c t = ([], t)" "bk_take c ip t = (False, t)"
    by (simp_all add: bk_next_def bk_take_def)
qed

definition addr_in_net :: "string \<Rightarrow> string \<Rightarrow> bool" where
  "addr_in_net c ip =
     (case ParseCIDR c of None \<Rightarrow> False | Some (_, net) \<Rightarrow>
        (case ParseIP ip of None \<Rightarrow> False | Some a \<Rightarrow> Contains net a))"

lemma isIPV4Addr_literal: "isIPV4Addr ip \<Longrightarrow> sql_literal ip"
  by (auto simp: isIPV4Addr_def intro: ParseIP_literal split: if_splits)

lemma mgr_cases:
  assumes "mgr_wf tbl m"
  obtains db cs where "m = Some \<lparr>provider = \<lparr>store = db, cidrs = cs\<rparr>\<rparr>" "nets_ok cs (tbl db)"
  using assms by (cases m; cases "the m"; cases "provider (the m)") auto

sublocale reliable_sqlite \<subseteq>
  mgr: ip_manager "ipam_manager drv" "mgr_book tbl" "mgr_wf tbl" sql_literal isIPV4Addr addr_in_net
proof
  fix m h c ip
  assume wf: "mgr_wf tbl m"
  from wf obtain db cs where m: "m = Some \<lparr>provider = \<lparr>store = db, cidrs = cs\<rparr>\<rparr>"
    and nets: "nets_ok cs (tbl db)" by (rule mgr_cases)
  note defs = ipam_manager_def ipmgr_defs with_provider_def provider_defs
  show "\<exists>m'. mg_GetIPAddress (ipam_manager drv) m h = Inr (bk_lookup h (mgr_book tbl m), m')
      \<and> mgr_book tbl m' = mgr_book tbl m \<and> mgr_wf tbl m'" if "sql_literal h"
    using GetIPAddress_book [OF that, of db] nets by (auto simp: defs m)
  show "\<exists>m'. mg_GetNextIPAddress (ipam_manager drv) m c = Inr (fst (bk_next c (mgr_book tbl m)), m')
      \<and> mgr_book tbl m' = snd (bk_next c (mgr_book tbl m)) \<and> mgr_wf tbl m'"
    using AllocateIP_book [of c db] nets nets_ok_literal [OF nets, of c]
      nets_ok_unregistered [OF nets, of c]
    by (auto simp: defs m split: option.split)
  show "\<exists>m'. mg_AllocateIPAddress (ipam_manager drv) m c ip =
        Inr (addr_in_net c ip \<and> fst (bk_take c ip (mgr_book tbl m)), m')
      \<and> mgr_book tbl m' = (if addr_in_net c ip then snd (bk_take c ip (mgr_book tbl m)) else mgr_book tbl m)
      \<and> mgr_wf tbl m'"
  proof (cases "map_of cs c = None \<or> ParseCIDR c = None \<or> ParseIP ip = None")
    case True
    then show ?thesis
      using nets nets_ok_unregistered(2) [OF nets, of c ip]
      by (auto simp: defs m addr_in_net_def split: option.splits prod.splits)
  next
    case False
    then obtain b a net x where c: "map_of cs c = Some b" "ParseCIDR c = Some (a, net)"
      "ParseIP ip = Some x" by auto
    then have lit: "sql_literal c" "sql_literal ip" by (auto intro: ParseCIDR_literal ParseIP_literal)
    show ?thesis
      using MarkIPAsAllocated_book [OF lit, of db] nets c
      by (auto simp: defs m addr_in_net_def)
  qed
  show "\<exists>m'. mg_ReleaseIPAddress (ipam_manager drv) m ip = Inr m' \<and> mgr_wf tbl m'
      \<and> mgr_book tbl m' = (if isIPV4Addr ip then bk_release ip (mgr_book tbl m) else mgr_book tbl m)"
    using ReleaseIP_book [of db ip] nets by (auto simp: defs m)
  show "\<exists>m'. mg_CreateARecord (ipam_manager drv) m h ip = Inr (isIPV4Addr ip, m') \<and> mgr_wf tbl m'
      \<and> mgr_book tbl m' = (if isIPV4Addr ip then bk_bind h ip (mgr_book tbl m) else mgr_book tbl m)"
    using CreateARecord_book [of db h ip] nets by (auto simp: defs m)
  show "\<exists>m'. mg_DeleteARecord (ipam_manager drv) m h ip = Inr m' \<and> mgr_wf tbl m'
      \<and> mgr_book tbl m' = (if isIPV4Addr ip then bk_unbind h ip (mgr_book tbl m) else mgr_book tbl m)"
    using DeleteARecord_book [of db h ip] nets by (auto simp: defs m)
qed

end
