(* ===== verification/Startup.thy ===== *)
theory Startup
  imports Manager
begin

text \<open>
  What the program starts with: from an \<open>--ip-range\<close> argument that lists IPv4 entries,
  \<open>NewManager\<close> builds a manager that fulfils the contract of \<open>Manager\<close>, whose pool has
  exactly the addresses of the entries, in the order of the argument, all available.
\<close>

section \<open>The argument\<close>

type_synonym v4_entry = "nat \<times> nat \<times> nat"  \<comment> \<open>first address, last address, prefix length\<close>

fun valid_entry :: "v4_entry \<Rightarrow> bool" where
  "valid_entry (s, e, p) = (s < 2 ^ 32 \<and> e < 2 ^ 32 \<and> p \<le> 32)"

fun entry_text :: "v4_entry \<Rightarrow> string" where
  "entry_text (s, e, p) = range_entry s e p"

fun entry_cidr :: "v4_entry \<Rightarrow> string" where
  "entry_cidr (s, e, p) = v4_cidr e p"

fun entry_ips :: "v4_entry \<Rightarrow> string list" where
  "entry_ips (s, e, p) = map v4_text (pool_addresses s e p)"

definition range_text :: "v4_entry list \<Rightarrow> string" where
  "range_text es = str_join '','' (map entry_text es)"

lemma entry_text_char:
  assumes "c \<in> set (entry_text en)"
  shows "is_digit c \<or> c = CHR ''.'' \<or> c = CHR ''/'' \<or> c = CHR ''-''"
proof -
  obtain s e p where "en = (s, e, p)" by (cases en)
  with assms have "c \<in> set (v4_text s) \<union> set (v4_text e) \<union> set (uitoa p) \<union> {CHR ''/'', CHR ''-''}"
    by (auto simp: range_entry_def)
  then show ?thesis using v4_text_chars uitoa_digits by blast
qed

lemma entry_text_plain: "CHR '','' \<notin> set (entry_text en)" "CHR '' '' \<notin> set (entry_text en)"
  using entry_text_char not_digit_separators by fastforce+

lemma parseIPRange_text:
  assumes "es \<noteq> []"
  shows "parseIPRange (range_text es) = Some (map entry_text es)"
proof -
  have "str_split CHR '','' (range_text es) = map entry_text es"
    unfolding range_text_def using assms entry_text_plain(1) by (intro str_split_join) auto
  moreover have "map (str_trim CHR '' '') (map entry_text es) = map entry_text es"
    using entry_text_plain(2) by (simp add: str_trim_plain)
  moreover have "range_text es \<noteq> []"
    using calculation(1) assms by (cases es; cases "hd es") (auto simp: range_entry_def)
  ultimately show ?thesis by (simp add: parseIPRange_def)
qed

section \<open>The tables\<close>

definition entries_tables :: "v4_entry list \<Rightarrow> tables \<Rightarrow> tables" where
  "entries_tables es t = fold (\<lambda>en. tb_insert_ips (entry_ips en) (entry_cidr en)) es t"

lemma tb_insert_ips_frame:
  "map (\<lambda>r. (row_ip r, row_cidr r)) (ranges (tb_insert_ips ips c t)) =
     map (\<lambda>r. (row_ip r, row_cidr r)) (ranges t) @ map (\<lambda>ip. (ip, c)) ips"
  "a_records (tb_insert_ips ips c t) = a_records t"
  "list_all (\<lambda>r. row_status r = AVAILABLE) (ranges t) \<Longrightarrow>
     list_all (\<lambda>r. row_status r = AVAILABLE) (ranges (tb_insert_ips ips c t))"
  by (induction ips arbitrary: t) (simp_all add: tb_insert_range_def)

definition ids_ok :: "tables \<Rightarrow> bool" where
  "ids_ok t \<longleftrightarrow> distinct (map row_id (ranges t)) \<and> (\<forall>r\<in>set (ranges t). row_id r < next_id t)"

lemma ids_ok_insert: "ids_ok t \<Longrightarrow> ids_ok (tb_insert_ips ips c t)"
proof (induction ips arbitrary: t)
  case (Cons ip ips)
  have "ids_ok (tb_insert_range ip AVAILABLE c t)"
    using Cons.prems by (fastforce simp: ids_ok_def tb_insert_range_def)
  then show ?case using Cons.IH by simp
qed simp

lemma entries_tables_rows:
  "map (\<lambda>r. (row_ip r, row_cidr r)) (ranges (entries_tables es t)) =
     map (\<lambda>r. (row_ip r, row_cidr r)) (ranges t)
     @ concat (map (\<lambda>en. map (\<lambda>ip. (ip, entry_cidr en)) (entry_ips en)) es)"
  "a_records (entries_tables es t) = a_records t"
  "ids_ok t \<Longrightarrow> ids_ok (entries_tables es t)"
  "list_all (\<lambda>r. row_status r = AVAILABLE) (ranges t) \<Longrightarrow>
     list_all (\<lambda>r. row_status r = AVAILABLE) (ranges (entries_tables es t))"
  unfolding entries_tables_def
  by (induction es arbitrary: t) (simp_all add: tb_insert_ips_frame ids_ok_insert)

section \<open>The provider after its construction\<close>

definition entries_cidrs :: "v4_entry list \<Rightarrow> (string \<times> bool) list \<Rightarrow> (string \<times> bool) list" where
  "entries_cidrs es cs = fold (\<lambda>en. AList.update (entry_cidr en) True) es cs"

lemma entry_cidr_parses: "valid_entry en \<Longrightarrow> ParseCIDR (entry_cidr en) \<noteq> None"
  by (cases en) (simp add: v4_cidr_def ParseCIDR_v4 [simplified])

lemma update_parses:
  "list_all (\<lambda>e. ParseCIDR (fst e) \<noteq> None) cs \<Longrightarrow> ParseCIDR c \<noteq> None \<Longrightarrow>
     list_all (\<lambda>e. ParseCIDR (fst e) \<noteq> None) (AList.update c b cs)"
  by (induction cs) auto

lemma nets_ok_entry:
  assumes "nets_ok cs t" and "ParseCIDR c \<noteq> None"
  shows "nets_ok (AList.update c True cs) (tb_insert_ips ips c t)"
proof -
  have "row_cidr r = c \<or> row_cidr r \<in> row_cidr ` set (ranges t)"
    if "r \<in> set (ranges (tb_insert_ips ips c t))" for r
  proof -
    have "(row_ip r, row_cidr r) \<in> set (map (\<lambda>r. (row_ip r, row_cidr r)) (ranges (tb_insert_ips ips c t)))"
      using that by simp
    then show ?thesis unfolding tb_insert_ips_frame by auto
  qed
  then have "list_all (\<lambda>r. map_of (AList.update c True cs) (row_cidr r) \<noteq> None)
      (ranges (tb_insert_ips ips c t))"
    using assms(1) by (fastforce simp: nets_ok_def list_all_iff update_conv)
  moreover have "list_all (\<lambda>e. ParseCIDR (fst e) \<noteq> None) (AList.update c True cs)"
    using assms by (intro update_parses) (simp_all add: nets_ok_def)
  ultimately show ?thesis unfolding nets_ok_def by blast
qed

context reliable_sqlite
begin

lemma add_range_book:
  assumes "valid_entry en"
  shows "\<exists>db. add_range drv prov (entry_text en) =
      Inr \<lparr>store = db, cidrs = AList.update (entry_cidr en) True (cidrs prov)\<rparr>
    \<and> tbl db = tb_insert_ips (entry_ips en) (entry_cidr en) (tbl (store prov))"
proof -
  obtain s e p where en: "en = (s, e, p)" by (cases en)
  show ?thesis
    using assms InsertIP_book [of "store prov" "entry_ips en" "entry_cidr en"]
    by (cases prov) (auto simp: en add_range_v4)
qed

lemma add_ranges_book:
  assumes "list_all valid_entry es"
  shows "\<exists>db. add_ranges drv prov (map entry_text es) =
      Inr \<lparr>store = db, cidrs = entries_cidrs es (cidrs prov)\<rparr>
    \<and> tbl db = entries_tables es (tbl (store prov))"
  using assms
proof (induction es arbitrary: prov)
  case Nil
  then show ?case by (cases prov) (simp add: entries_cidrs_def entries_tables_def)
next
  case (Cons en es)
  obtain db1 where "add_range drv prov (entry_text en) =
      Inr \<lparr>store = db1, cidrs = AList.update (entry_cidr en) True (cidrs prov)\<rparr>"
    "tbl db1 = tb_insert_ips (entry_ips en) (entry_cidr en) (tbl (store prov))"
    using add_range_book [of en prov] Cons.prems by auto
  then show ?case
    using Cons.IH [of "\<lparr>store = db1, cidrs = AList.update (entry_cidr en) True (cidrs prov)\<rparr>"]
      Cons.prems by (simp add: entries_cidrs_def entries_tables_def)
qed

lemma NewProvider_book:
  assumes "es \<noteq> []" and "list_all valid_entry es"
  shows "\<exists>db. NewProvider drv (range_text es) =
      Inr (Some \<lparr>store = db, cidrs = entries_cidrs es []\<rparr>) \<and> tbl db = entries_tables es empty_tables"
proof -
  obtain db0 where "NewStore drv = Inr (Some db0)" "tbl db0 = empty_tables"
    using NewStore_empty by blast
  moreover obtain db1 where "add_ranges drv \<lparr>store = db0, cidrs = []\<rparr> (map entry_text es) =
      Inr \<lparr>store = db1, cidrs = entries_cidrs es []\<rparr>" "tbl db1 = entries_tables es (tbl db0)"
    using add_ranges_book [OF assms(2), of "\<lparr>store = db0, cidrs = []\<rparr>"] by auto
  moreover obtain db2 where "DisplayIPRecords drv db1 = Inr db2" "tbl db2 = tbl db1"
    using DisplayIPRecords_book by blast
  ultimately show ?thesis
    using assms(1) by (simp add: NewProvider_def parseIPRange_text generateExternalIPAddr_def)
qed

lemma NewManager_book:
  assumes "es \<noteq> []" and "list_all valid_entry es"
  shows "\<exists>m. NewManager drv \<lparr>Provider = F5IPAMProvider, Range = range_text es\<rparr> = Inr (Some m)
    \<and> mgr_wf tbl m \<and> mgr_book tbl m = entries_tables es empty_tables"
proof -
  have "nets_ok cs t \<Longrightarrow> nets_ok (entries_cidrs es cs) (entries_tables es t)" for cs t
    using assms(2) unfolding entries_cidrs_def entries_tables_def
    by (induction es arbitrary: cs t) (simp_all add: nets_ok_entry entry_cidr_parses del: valid_entry.simps)
  from this [of "[]" empty_tables] have "nets_ok (entries_cidrs es []) (entries_tables es empty_tables)"
    by (simp add: nets_ok_def empty_tables_def)
  then show ?thesis
    using NewProvider_book [OF assms] by (auto simp: NewManager_def NewIPAMManager_def)
qed

end

text \<open>The pool at the start.\<close>

definition all_ips :: "v4_entry list \<Rightarrow> string list" where
  "all_ips es = concat (map entry_ips es)"

lemma entries_row_ips: "map row_ip (ranges (entries_tables es empty_tables)) = all_ips es"
proof -
  have pairs: "map row_ip rs = map fst (map (\<lambda>r. (row_ip r, row_cidr r)) rs)" for rs
    by simp
  have fst_pairs: "map fst (map (\<lambda>ip. (ip, c)) ips) = (ips :: string list)" for c :: string and ips
    by (induction ips) simp_all
  show ?thesis
    unfolding pairs entries_tables_rows
    by (simp add: all_ips_def map_concat o_def) (simp add: empty_tables_def)
qed

lemma entries_book_ok:
  assumes "distinct (all_ips es)"
  shows "book_ok (entries_tables es empty_tables)"
proof -
  let ?t = "entries_tables es empty_tables"
  have "[] \<notin> set (entry_ips en)" for en
    by (cases en) (simp add: image_iff v4_text_not_Nil [symmetric] del: v4_text_not_Nil)
  then have "[] \<notin> set (all_ips es)" by (simp add: all_ips_def)
  moreover have "ids_ok ?t" by (rule entries_tables_rows) (simp add: ids_ok_def empty_tables_def)
  moreover have "row_ip ` set (ranges ?t) = set (all_ips es)" by (metis entries_row_ips set_map)
  ultimately have "pool_ok ?t"
    using assms by (simp add: pool_ok_def entries_row_ips ids_ok_def)
  then show ?thesis
    by (simp add: book_ok_def bound_ok_def entries_tables_rows) (simp add: empty_tables_def)
qed

lemma entries_available: "avail_ips (entries_tables es empty_tables) = set (all_ips es)"
proof -
  let ?t = "entries_tables es empty_tables"
  have "list_all (\<lambda>r. row_status r = AVAILABLE) (ranges ?t)"
    by (rule entries_tables_rows) (simp add: empty_tables_def)
  then have "avail_ips ?t = row_ip ` set (ranges ?t)" by (auto simp: avail_ips_def list_all_iff)
  then show ?thesis by (metis entries_row_ips set_map)
qed

text \<open>Which addresses the manager considers part of an IPv4 network.\<close>

lemma addr_in_net_v4:
  assumes "e < 2 ^ 32" and "n < 2 ^ 32" and "p \<le> 32"
  shows "addr_in_net (v4_cidr e p) (v4_text n) \<longleftrightarrow> n div 2 ^ (32 - p) = e div 2 ^ (32 - p)"
proof -
  have "ParseCIDR (v4_cidr e p) = Some (v4_of (v4_base e p), v4_net e p)"
    using ParseCIDR_v4 [OF assms(3), of "v4_base e p"] v4_net_base [OF assms(1,3)]
    by (simp add: v4_cidr_def)
  then show ?thesis using Contains_v4 [OF assms] by (simp add: addr_in_net_def ParseIP_text)
qed

end
