(* ===== verification/Ipamspec.thy ===== *)
theory Ipamspec
  imports Prelude
begin

text \<open>
  The messages between the orchestrator and the controller (\<open>pkg/ipamspec/ipamspec.go\<close>).
  \<open>Metadata\<close> is an \<open>interface{}\<close> that the controller passes through; the orchestrator puts
  a \<open>ResourceMeta\<close> (\<open>pkg/orchestration/kuberntes.go\<close>) into it.
\<close>

definition OP_CREATE :: string where
  "OP_CREATE = ''Create''"

definition OP_DELETE :: string where
  "OP_DELETE = ''Delete''"

lemma op_distinct [simp]: "OP_CREATE \<noteq> OP_DELETE" "OP_DELETE \<noteq> OP_CREATE"
  by (simp_all add: OP_CREATE_def OP_DELETE_def)

record ResourceMeta =
  meta_name :: string
  meta_namespace :: string

datatype metadata = NoMetadata | Meta ResourceMeta

record IPAMRequest =
  Metadata :: metadata
  HostName :: string
  CIDR :: string
  IPAddr :: string
  Operation :: string

record IPAMResponse =
  Request :: IPAMRequest
  RespIPAddr :: string
  Status :: bool

end
