(* ===== verification/Controller.thy ===== *)
theory Controller
  imports Startup Ipamspec
begin

text \<open>
  \<open>pkg/controller/controller.go\<close>: the loop of \<open>runController\<close>, which takes a request from
  the orchestrator, asks the manager, and answers from a goroutine of its own. The request
  loop is sequential; the answers wait in goroutines until the orchestrator takes them, in
  any order.

  \<open>book_serve\<close> is what a request asks of the address book. In the locale \<open>ip_manager\<close> the
  controller is shown to implement it for any manager that fulfils the contract, and
  the properties of the loop are properties of \<open>book_serve\<close>.
\<close>

section \<open>Serving one request\<close>

definition reply :: "IPAMRequest \<Rightarrow> string \<Rightarrow> bool \<Rightarrow> IPAMResponse" where
  "reply request ipAddr st = \<lparr>Request = request, RespIPAddr = ipAddr, Status = st\<rparr>"

text \<open>The two branches of the switch: the answer sent, if any, and the manager's state.\<close>

definition handle_create ::
    "'m manager_iface \<Rightarrow> 'm \<Rightarrow> IPAMRequest \<Rightarrow> (IPAMResponse option \<times> 'm) go" where
  "handle_create M m req =
     (if IPAddr req \<noteq> [] then
        go_bind (mg_AllocateIPAddress M m (CIDR req) (IPAddr req)) (\<lambda>(ok, m1).
          if ok then
            go_bind (mg_CreateARecord M m1 (HostName req) (IPAddr req)) (\<lambda>(_, m2).
              Inr (Some (reply req (IPAddr req) True), m2))
          else Inr (Some (reply req [] False), m1))
      else
        go_bind (mg_GetIPAddress M m (HostName req)) (\<lambda>(ipAddr, m1).
          if ipAddr \<noteq> [] then Inr (Some (reply req ipAddr True), m1)
          else
            go_bind (mg_GetNextIPAddress M m1 (CIDR req)) (\<lambda>(ipAddr, m2).
              if ipAddr \<noteq> [] then
                go_bind (mg_CreateARecord M m2 (HostName req) ipAddr) (\<lambda>(_, m3).
                  Inr (Some (reply req ipAddr True), m3))
              else Inr (None, m2))))"

definition handle_delete ::
    "'m manager_iface \<Rightarrow> 'm \<Rightarrow> IPAMRequest \<Rightarrow> (IPAMResponse option \<times> 'm) go" where
  "handle_delete M m req =
     go_bind (mg_GetIPAddress M m (HostName req)) (\<lambda>(ipAddr, m1).
       go_bind
         (if ipAddr \<noteq> [] then
            go_bind (mg_ReleaseIPAddress M m1 ipAddr) (\<lambda>m2.
              mg_DeleteARecord M m2 (HostName req) ipAddr)
          else Inr m1)
         (\<lambda>m3. Inr (Some (reply req [] True), m3)))"

definition handle_request ::
    "'m manager_iface \<Rightarrow> 'm \<Rightarrow> IPAMRequest \<Rightarrow> (IPAMResponse option \<times> 'm) go" where
  "handle_request M m req =
     (if Operation req = OP_CREATE then handle_create M m req
      else if Operation req = OP_DELETE then handle_delete M m req
      else Inr (None, m))"

section \<open>The controller\<close>

text \<open>
  \<open>Manager\<close> is \<open>None\<close> for a nil interface; \<open>pending\<close> holds the answers of the goroutines
  that have not been received yet.
\<close>

record 'm Controller =
  Manager :: "'m option"
  pending :: "IPAMResponse list"

definition NewController :: "'m option \<Rightarrow> 'm Controller" where
  "NewController mgr = \<lparr>Manager = mgr, pending = []\<rparr>"

text \<open>One round of \<open>for req := range ctlr.reqChan\<close>. An operation that is neither ignores
  the manager.\<close>

definition controller_round :: "'m manager_iface \<Rightarrow> 'm Controller \<Rightarrow> IPAMRequest \<Rightarrow> 'm Controller go" where
  "controller_round M ctlr req =
     (if Operation req \<noteq> OP_CREATE \<and> Operation req \<noteq> OP_DELETE then Inr ctlr
      else (case Manager ctlr of
              None \<Rightarrow> Inl NilDeref
            | Some m \<Rightarrow>
                go_bind (handle_request M m req) (\<lambda>(resp, m1).
                  Inr \<lparr>Manager = Some m1,
                       pending = pending ctlr @ (case resp of None \<Rightarrow> [] | Some r \<Rightarrow> [r])\<rparr>)))"

text \<open>The loop over the requests received, in order.\<close>

fun runController :: "'m manager_iface \<Rightarrow> 'm Controller \<Rightarrow> IPAMRequest list \<Rightarrow> 'm Controller go" where
  "runController M ctlr [] = Inr ctlr"
| "runController M ctlr (req # reqs) =
     go_bind (controller_round M ctlr req) (\<lambda>c. runController M c reqs)"

section \<open>What a request asks of the address book\<close>

definition book_bind :: "(string \<Rightarrow> bool) \<Rightarrow> string \<Rightarrow> string \<Rightarrow> tables \<Rightarrow> tables" where
  "book_bind bindable h ip t = (if bindable ip then bk_bind h ip t else t)"

definition book_create ::
    "(string \<Rightarrow> bool) \<Rightarrow> (string \<Rightarrow> string \<Rightarrow> bool) \<Rightarrow> IPAMRequest \<Rightarrow> tables \<Rightarrow> IPAMResponse option \<times> tables" where
  "book_create bindable in_net req t =
     (if IPAddr req \<noteq> [] then
        (if in_net (CIDR req) (IPAddr req) \<and> fst (bk_take (CIDR req) (IPAddr req) t)
         then (Some (reply req (IPAddr req) True),
               book_bind bindable (HostName req) (IPAddr req) (snd (bk_take (CIDR req) (IPAddr req) t)))
         else (Some (reply req [] False), t))
      else if bk_lookup (HostName req) t \<noteq> []
      then (Some (reply req (bk_lookup (HostName req) t) True), t)
      else if fst (bk_next (CIDR req) t) \<noteq> []
      then (Some (reply req (fst (bk_next (CIDR req) t)) True),
            book_bind bindable (HostName req) (fst (bk_next (CIDR req) t)) (snd (bk_next (CIDR req) t)))
      else (None, snd (bk_next (CIDR req) t)))"

definition book_delete :: "(string \<Rightarrow> bool) \<Rightarrow> IPAMRequest \<Rightarrow> tables \<Rightarrow> IPAMResponse option \<times> tables" where
  "book_delete bindable req t =
     (Some (reply req [] True),
      let ip = bk_lookup (HostName req) t in
      if ip \<noteq> [] \<and> bindable ip then bk_unbind (HostName req) ip (bk_release ip t) else t)"

definition book_serve ::
    "(string \<Rightarrow> bool) \<Rightarrow> (string \<Rightarrow> string \<Rightarrow> bool) \<Rightarrow> IPAMRequest \<Rightarrow> tables \<Rightarrow> IPAMResponse option \<times> tables" where
  "book_serve bindable in_net req t =
     (if Operation req = OP_CREATE then book_create bindable in_net req t
      else if Operation req = OP_DELETE then book_delete bindable req t
      else (None, t))"

fun book_run ::
    "(string \<Rightarrow> bool) \<Rightarrow> (string \<Rightarrow> string \<Rightarrow> bool) \<Rightarrow> IPAMRequest list \<Rightarrow> tables \<Rightarrow> IPAMResponse list \<times> tables" where
  "book_run bindable in_net [] t = ([], t)"
| "book_run bindable in_net (req # reqs) t =
     (case book_serve bindable in_net req t of (resp, t1) \<Rightarrow>
        (case book_run bindable in_net reqs t1 of (rs, t2) \<Rightarrow>
           ((case resp of None \<Rightarrow> [] | Some r \<Rightarrow> [r]) @ rs, t2)))"

lemma book_run_Cons:
  "book_run bindable in_net (req # reqs) t =
     ((case fst (book_serve bindable in_net req t) of None \<Rightarrow> [] | Some r \<Rightarrow> [r])
        @ fst (book_run bindable in_net reqs (snd (book_serve bindable in_net req t))),
      snd (book_run bindable in_net reqs (snd (book_serve bindable in_net req t))))"
  by (simp split: prod.split)

lemmas book_serve_defs = book_serve_def book_create_def book_delete_def book_bind_def

section \<open>The controller implements it\<close>

lemma bk_take_False: "\<not> fst (bk_take c ip t) \<Longrightarrow> snd (bk_take c ip t) = t"
  by (auto simp: bk_take_def split: option.splits)

context ip_manager
begin

lemma handle_request_book:
  assumes wf: "wf m" and h: "host_ok (HostName req)"
  shows "\<exists>m'. handle_request M m req = Inr (fst (book_serve bindable in_net req (book m)), m')
     \<and> book m' = snd (book_serve bindable in_net req (book m)) \<and> wf m'"
proof (cases "Operation req = OP_CREATE")
  case create: True
  show ?thesis
  proof (cases "IPAddr req = []")
    case False
    obtain m1 where take: "mg_AllocateIPAddress M m (CIDR req) (IPAddr req) =
        Inr (in_net (CIDR req) (IPAddr req) \<and> fst (bk_take (CIDR req) (IPAddr req) (book m)), m1)"
      "book m1 = (if in_net (CIDR req) (IPAddr req)
         then snd (bk_take (CIDR req) (IPAddr req) (book m)) else book m)" "wf m1"
      using take_address [OF wf] by blast
    with bind [OF take(3), of "HostName req" "IPAddr req"] show ?thesis
      using create False bk_take_False [of "CIDR req" "IPAddr req" "book m"]
      by (auto simp: handle_request_def handle_create_def book_serve_defs)
  next
    case none: True
    obtain m1 where look: "mg_GetIPAddress M m (HostName req) = Inr (bk_lookup (HostName req) (book m), m1)"
      "book m1 = book m" "wf m1" using lookup [OF wf h] by blast
    obtain m2 where nxt: "mg_GetNextIPAddress M m1 (CIDR req) = Inr (fst (bk_next (CIDR req) (book m)), m2)"
      "book m2 = snd (bk_next (CIDR req) (book m))" "wf m2"
      using next_address [OF look(3)] look(2) by metis
    from bind [OF nxt(3), of "HostName req" "fst (bk_next (CIDR req) (book m))"] show ?thesis
      using create none look nxt
      by (auto simp: handle_request_def handle_create_def book_serve_defs)
  qed
next
  case other: False
  show ?thesis
  proof (cases "Operation req = OP_DELETE")
    case True
    obtain m1 where look: "mg_GetIPAddress M m (HostName req) = Inr (bk_lookup (HostName req) (book m), m1)"
      "book m1 = book m" "wf m1" using lookup [OF wf h] by blast
    obtain m2 where rel: "mg_ReleaseIPAddress M m1 (bk_lookup (HostName req) (book m)) = Inr m2" "wf m2"
      "book m2 = (if bindable (bk_lookup (HostName req) (book m))
         then bk_release (bk_lookup (HostName req) (book m)) (book m1) else book m1)"
      using release [OF look(3)] by blast
    from unbind [OF rel(2), of "HostName req" "bk_lookup (HostName req) (book m)"] show ?thesis
      using True other look rel
      by (auto simp: handle_request_def handle_delete_def book_serve_defs Let_def)
  next
    case False
    with other wf show ?thesis by (simp add: handle_request_def book_serve_def)
  qed
qed

lemma controller_round_book:
  assumes wf: "wf m" and h: "host_ok (HostName req)"
  shows "\<exists>m'. controller_round M \<lparr>Manager = Some m, pending = ps\<rparr> req =
       Inr \<lparr>Manager = Some m', pending = ps @ (case fst (book_serve bindable in_net req (book m)) of
          None \<Rightarrow> [] | Some r \<Rightarrow> [r])\<rparr>
     \<and> book m' = snd (book_serve bindable in_net req (book m)) \<and> wf m'"
  using handle_request_book [OF assms] wf by (auto simp: controller_round_def book_serve_def)

lemma runController_book:
  assumes "wf m" and "list_all (\<lambda>req. host_ok (HostName req)) reqs"
  shows "\<exists>m'. runController M \<lparr>Manager = Some m, pending = ps\<rparr> reqs =
       Inr \<lparr>Manager = Some m', pending = ps @ fst (book_run bindable in_net reqs (book m))\<rparr>
     \<and> book m' = snd (book_run bindable in_net reqs (book m)) \<and> wf m'"
  using assms
proof (induction reqs arbitrary: m ps)
  case Nil
  then show ?case by simp
next
  case (Cons req reqs)
  let ?out = "book_serve bindable in_net req (book m)"
  let ?ps = "ps @ (case fst ?out of None \<Rightarrow> [] | Some r \<Rightarrow> [r])"
  obtain m1 where one: "controller_round M \<lparr>Manager = Some m, pending = ps\<rparr> req =
      Inr \<lparr>Manager = Some m1, pending = ?ps\<rparr>" "book m1 = snd ?out" "wf m1"
    using controller_round_book [of m req ps] Cons.prems by auto
  from Cons.IH [OF one(3), of ?ps] Cons.prems one show ?case
    by (auto simp: split: prod.splits)
qed

end

end
