(* ===== verification/Requests.thy ===== *)
theory Requests
  imports Controller
begin

text \<open>
  What sequences of requests do to the address book: the invariants of \<open>book_serve\<close>, that
  repeating a CREATE changes nothing, that DELETE gives the address back, that the
  requests the orchestrator sends after a restart restore the bindings. The facts about the
  controller itself follow through \<open>runController_book\<close>.
\<close>

section \<open>Frames\<close>

lemma book_serve_frame [simp]:
  "map row_id (ranges (snd (book_serve bindable in_net req t))) = map row_id (ranges t)"
  "map row_ip (ranges (snd (book_serve bindable in_net req t))) = map row_ip (ranges t)"
  "map row_cidr (ranges (snd (book_serve bindable in_net req t))) = map row_cidr (ranges t)"
  by (simp_all add: book_serve_defs bk_defs Let_def split: option.split)

text \<open>Every row is allocated or available.\<close>

definition statuses_ok :: "tables \<Rightarrow> bool" where
  "statuses_ok t \<longleftrightarrow> list_all (\<lambda>r. row_status r = ALLOCATED \<or> row_status r = AVAILABLE) (ranges t)"

lemma statuses_ok_set [simp]:
  "statuses_ok t \<Longrightarrow> statuses_ok (tb_status_by_id ALLOCATED i t)"
  "statuses_ok t \<Longrightarrow> statuses_ok (tb_status_by_ip AVAILABLE ip t)"
  "statuses_ok (tb_insert_record ip h t) = statuses_ok t"
  "statuses_ok (tb_delete_record ip h t) = statuses_ok t"
  by (auto simp: statuses_ok_def ranges_status list_all_iff)

lemma statuses_ok_serve [inv_keep]:
  "statuses_ok t \<Longrightarrow> statuses_ok (snd (book_serve bindable in_net req t))"
  by (simp add: book_serve_defs bk_defs Let_def split: option.split)

section \<open>Exclusive addresses\<close>

lemma book_ok_serve [inv_keep]:
  assumes "book_ok t"
  shows "book_ok (snd (book_serve bindable in_net req t))"
proof -
  have take: "book_ok (book_bind bindable h ip (snd (bk_take c ip t)))" if "fst (bk_take c ip t)" for c ip h
    using book_take [OF assms, of c ip True "snd (bk_take c ip t)"] that
    by (cases "bk_take c ip t") (simp add: book_bind_def)
  have nxt: "book_ok (snd (bk_next c t))"
    "fst (bk_next c t) \<noteq> [] \<Longrightarrow> book_ok (book_bind bindable h (fst (bk_next c t)) (snd (bk_next c t)))" for c h
    using book_next [OF assms, of c "fst (bk_next c t)" "snd (bk_next c t)"]
    by (simp_all add: book_bind_def)
  have del: "book_ok (bk_unbind h (bk_lookup h t) (bk_release (bk_lookup h t) t))"
    if "bk_lookup h t \<noteq> []" for h
    using book_release_unbind [OF assms] bk_lookup_bound [OF refl that] .
  show ?thesis
    using assms take nxt del by (auto simp: book_serve_def book_create_def book_delete_def Let_def)
qed

lemma book_run_induct:
  assumes "\<And>req t. I t \<Longrightarrow> I (snd (book_serve bindable in_net req t))" and "I t"
  shows "I (snd (book_run bindable in_net reqs t))"
  using assms(2)
proof (induction reqs arbitrary: t)
  case (Cons req reqs)
  from Cons.IH [OF assms(1) [OF Cons.prems, of req]] show ?case by (simp only: book_run_Cons snd_conv)
qed simp

lemma book_ok_run: "book_ok t \<Longrightarrow> book_ok (snd (book_run bindable in_net reqs t))"
  by (rule book_run_induct [where I = book_ok]) (rule book_ok_serve)

text \<open>No address is bound to two hosts.\<close>

lemma book_exclusive:
  assumes "book_ok t" and "(ip, h) \<in> set (a_records t)" and "(ip, h') \<in> set (a_records t)"
  shows "h = h'"
  using assms by (metis book_ok_def bound_ok_def eq_key_imp_eq_value)

lemma book_lookup_exclusive:
  assumes "book_ok t" and "bk_lookup h t = bk_lookup h' t" and "bk_lookup h t \<noteq> []"
  shows "h = h'"
  using book_exclusive [OF assms(1)] assms bk_lookup_bound by metis

section \<open>No address is lost\<close>

text \<open>
  When every address of the pool can be bound, the allocated addresses are exactly the
  bound ones: an address is available or some host has it.
\<close>

definition no_leak :: "(string \<Rightarrow> bool) \<Rightarrow> tables \<Rightarrow> bool" where
  "no_leak bindable t \<longleftrightarrow> book_ok t \<and> statuses_ok t \<and> list_all bindable (map row_ip (ranges t))
     \<and> alloc_ips t \<subseteq> fst ` set (a_records t)"

lemma alloc_bindable:
  assumes "list_all bindable (map row_ip (ranges t))" and "ip \<in> row_ip ` set (ranges t)"
  shows "bindable ip"
  using assms by (auto simp: list_all_iff)

lemma bound_in_pool: "book_ok t \<Longrightarrow> (ip, h) \<in> set (a_records t) \<Longrightarrow> ip \<in> row_ip ` set (ranges t)"
  by (force simp: book_ok_def bound_ok_def alloc_ips_def)

lemma no_leak_serve [inv_keep]:
  assumes nl: "no_leak bindable t"
  shows "no_leak bindable (snd (book_serve bindable in_net req t))"
proof -
  let ?t = "snd (book_serve bindable in_net req t)"
  have ok: "book_ok t" and pool: "pool_ok t" and st: "statuses_ok t"
    and all: "list_all bindable (map row_ip (ranges t))" and sub: "alloc_ips t \<subseteq> fst ` set (a_records t)"
    using nl by (simp_all add: no_leak_def book_ok_def)
  have mark: "alloc_ips (book_bind bindable h (row_ip r) (tb_status_by_id ALLOCATED (row_id r) t)) \<subseteq>
      fst ` set (a_records (book_bind bindable h (row_ip r) (tb_status_by_id ALLOCATED (row_id r) t)))"
    if "r \<in> set (ranges t)" for r h
    using alloc_bindable [OF all, of "row_ip r"] that sub
    by (auto simp: book_bind_def bk_bind_def alloc_ips_mark [OF pool that])
  have take: "alloc_ips (book_bind bindable h ip (snd (bk_take c ip t))) \<subseteq>
      fst ` set (a_records (book_bind bindable h ip (snd (bk_take c ip t))))"
    if taken: "fst (bk_take c ip t)" for c ip h
  proof -
    obtain r where r: "tb_available_ip c ip t = Some r"
      using taken by (auto simp: bk_take_def split: option.splits)
    from tb_available_ip_SomeD [OF r] mark [of r h] r show ?thesis by (auto simp: bk_take_def)
  qed
  have nxt: "alloc_ips (book_bind bindable h (fst (bk_next c t)) (snd (bk_next c t))) \<subseteq>
      fst ` set (a_records (book_bind bindable h (fst (bk_next c t)) (snd (bk_next c t))))"
    if some: "fst (bk_next c t) \<noteq> []" for c h
  proof -
    obtain r where r: "tb_available c t = Some r"
      using some by (auto simp: bk_next_def split: option.splits)
    from tb_available_SomeD [OF r] mark [of r h] r show ?thesis by (auto simp: bk_next_def)
  qed
  have none: "snd (bk_next c t) = t" if "fst (bk_next c t) = []" for c
  proof -
    have "[] \<notin> row_ip ` set (ranges t)" using pool by (simp add: pool_ok_def)
    then have "row_ip r \<noteq> []" if "r \<in> set (ranges t)" for r
      using that by (metis image_eqI)
    then show ?thesis
      using that by (auto simp: bk_next_def split: option.splits dest!: tb_available_SomeD)
  qed
  have del: "alloc_ips (bk_unbind h ip (bk_release ip t)) \<subseteq>
      fst ` set (a_records (bk_unbind h ip (bk_release ip t)))" for h ip
    using sub by (force simp: bk_unbind_def bk_release_def alloc_ips_release)
  have "alloc_ips ?t \<subseteq> fst ` set (a_records ?t)"
    using sub take nxt none del by (auto simp: book_serve_def book_create_def book_delete_def Let_def)
  moreover have "list_all bindable (map row_ip (ranges ?t))" using all by simp
  ultimately show ?thesis
    using book_ok_serve [OF ok, of bindable in_net req] statuses_ok_serve [OF st, of bindable in_net req]
    by (simp only: no_leak_def simp_thms)
qed

lemma no_leak_run:
  "no_leak bindable t \<Longrightarrow> no_leak bindable (snd (book_run bindable in_net reqs t))"
  by (rule book_run_induct [where I = "no_leak bindable"]) (rule no_leak_serve)

lemma no_leak_partition:
  assumes "no_leak bindable t"
  shows "row_ip ` set (ranges t) = avail_ips t \<union> fst ` set (a_records t)"
    and "avail_ips t \<inter> fst ` set (a_records t) = {}"
proof -
  have ok: "book_ok t" and st: "statuses_ok t" and sub: "alloc_ips t \<subseteq> fst ` set (a_records t)"
    using assms by (simp_all add: no_leak_def)
  from ok have eq: "fst ` set (a_records t) = alloc_ips t"
    using sub by (auto simp: book_ok_def bound_ok_def)
  show "row_ip ` set (ranges t) = avail_ips t \<union> fst ` set (a_records t)"
    unfolding eq using st by (auto simp: statuses_ok_def list_all_iff alloc_ips_def avail_ips_def)
  show "avail_ips t \<inter> fst ` set (a_records t) = {}"
    unfolding eq using alloc_avail_disjoint [of t] ok by (auto simp: book_ok_def)
qed

section \<open>CREATE is idempotent\<close>

definition create_request :: "metadata \<Rightarrow> string \<Rightarrow> string \<Rightarrow> string \<Rightarrow> IPAMRequest" where
  "create_request md h c ip =
     \<lparr>Metadata = md, HostName = h, CIDR = c, IPAddr = ip, Operation = OP_CREATE\<rparr>"

definition delete_request :: "metadata \<Rightarrow> string \<Rightarrow> string \<Rightarrow> string \<Rightarrow> IPAMRequest" where
  "delete_request md h c ip =
     \<lparr>Metadata = md, HostName = h, CIDR = c, IPAddr = ip, Operation = OP_DELETE\<rparr>"

lemma request_simps [simp]:
  "HostName (create_request md h c ip) = h" "CIDR (create_request md h c ip) = c"
  "IPAddr (create_request md h c ip) = ip" "Operation (create_request md h c ip) = OP_CREATE"
  "Metadata (create_request md h c ip) = md"
  "HostName (delete_request md h c ip) = h" "CIDR (delete_request md h c ip) = c"
  "IPAddr (delete_request md h c ip) = ip" "Operation (delete_request md h c ip) = OP_DELETE"
  "Metadata (delete_request md h c ip) = md"
  by (simp_all add: create_request_def delete_request_def)

lemma host_records_bind:
  "map fst (filter (\<lambda>r. snd r = h) (a_records (tb_insert_record ip h t))) =
     map fst (filter (\<lambda>r. snd r = h) (a_records t)) @ [ip]"
  by simp

lemma bk_lookup_single:
  "map fst (filter (\<lambda>r. snd r = h) (a_records t)) = [ip] \<Longrightarrow> bk_lookup h t = ip"
  by (simp add: bk_lookup_def tb_host_ip_def least_ip_def)

text \<open>A host without an address has exactly the one it is bound to next.\<close>

lemma bk_lookup_bind_fresh:
  assumes "book_ok t" and "bk_lookup h t = []" and "a_records t' = a_records t"
  shows "bk_lookup h (bk_bind h ip t') = ip"
proof -
  have "h \<notin> snd ` set (a_records t)" using bk_lookup_unbound [OF assms(1)] assms(2) by simp
  then have "filter (\<lambda>r. snd r = h) (a_records t) = []" by (auto simp: filter_empty_conv)
  then show ?thesis
    using assms(3) by (intro bk_lookup_single) (simp add: bk_bind_def)
qed

lemma next_records [simp]:
  "a_records (snd (bk_next c t)) = a_records t" "a_records (snd (bk_take c ip t)) = a_records t"
  "a_records (bk_release ip t) = a_records t" "a_records (bk_bind h ip t) = a_records t @ [(ip, h)]"
  "a_records (bk_unbind h ip t) = filter (\<lambda>r. r \<noteq> (ip, h)) (a_records t)"
  by (simp_all add: bk_defs split: option.split)

lemma create_twice:
  assumes ok: "book_ok t"
    and first: "book_serve bindable in_net (create_request md h c []) t = (Some r, t')"
    and b: "bindable (RespIPAddr r)"
  shows "book_serve bindable in_net (create_request md' h c' []) t' =
     (Some (reply (create_request md' h c' []) (RespIPAddr r) True), t')"
proof (cases "bk_lookup h t = []")
  case False
  with first show ?thesis by (auto simp: book_serve_def book_create_def reply_def)
next
  case True
  with first have r: "RespIPAddr r = fst (bk_next c t)" "fst (bk_next c t) \<noteq> []"
    and t': "t' = book_bind bindable h (fst (bk_next c t)) (snd (bk_next c t))"
    by (auto simp: book_serve_def book_create_def reply_def split: if_splits)
  have "bk_lookup h t' = RespIPAddr r"
    using bk_lookup_bind_fresh [OF ok True, of "snd (bk_next c t)" "RespIPAddr r"] b r
    by (simp add: t' book_bind_def)
  with r show ?thesis by (simp add: book_serve_def book_create_def)
qed

section \<open>An exhausted network\<close>

lemma create_exhausted:
  assumes ok: "book_ok t" and h: "h \<notin> snd ` set (a_records t)"
    and none: "\<forall>r\<in>set (ranges t). row_cidr r = c \<longrightarrow> row_status r \<noteq> AVAILABLE"
  shows "book_serve bindable in_net (create_request md h c []) t = (None, t)"
proof -
  have "tb_available c t = None" using none by (simp only: tb_available_None)
  then have "bk_next c t = ([], t)" by (simp add: bk_next_def)
  moreover have "bk_lookup h t = []" using bk_lookup_unbound [OF ok] h by simp
  ultimately show ?thesis by (simp add: book_serve_def book_create_def)
qed

section \<open>DELETE gives the address back\<close>

lemma delete_frees:
  assumes ok: "book_ok t" and rec: "filter (\<lambda>r. snd r = h) (a_records t) = [(ip, h)]"
    and b: "bindable ip"
    and run: "book_serve bindable in_net (delete_request md h c i) t = (resp, t')"
  shows "bk_lookup h t' = []" and "avail_ips t' = insert ip (avail_ips t)"
    and "a_records t' = filter (\<lambda>r. snd r \<noteq> h) (a_records t)"
proof -
  have mem: "(ip, h) \<in> set (a_records t)"
    using arg_cong [OF rec, of set] by auto
  have "ip \<noteq> []" using book_no_empty_ip [OF ok] mem by force
  moreover have "bk_lookup h t = ip" using rec by (intro bk_lookup_single) simp
  ultimately have t': "t' = bk_unbind h ip (bk_release ip t)"
    using run b by (auto simp: book_serve_def book_delete_def)
  have "r \<noteq> (ip, h) \<longleftrightarrow> snd r \<noteq> h" if "r \<in> set (a_records t)" for r
  proof -
    have "snd r = h \<Longrightarrow> r \<in> set (filter (\<lambda>r. snd r = h) (a_records t))" using that by simp
    then show ?thesis unfolding rec by auto
  qed
  then show recs: "a_records t' = filter (\<lambda>r. snd r \<noteq> h) (a_records t)"
    by (simp add: t' cong: filter_cong)
  have "filter (\<lambda>r. snd r = h) (a_records t') = []" by (simp add: recs filter_empty_conv)
  then show "bk_lookup h t' = []" by (simp add: bk_lookup_def tb_host_ip_def least_ip_def)
  show "avail_ips t' = insert ip (avail_ips t)"
    using bound_in_pool [OF ok mem] by (auto simp: t' bk_unbind_def bk_release_def avail_ips_release)
qed

section \<open>Restart\<close>

text \<open>
  After a restart the orchestrator sends a CREATE with an address for every entry
  \<open>(host, cidr, ip)\<close> of the status of the custom resource.
\<close>

type_synonym status_entry = "string \<times> string \<times> string"

fun sync_request :: "metadata \<Rightarrow> status_entry \<Rightarrow> IPAMRequest" where
  "sync_request md (h, c, ip) = create_request md h c ip"

fun entry_available :: "(string \<Rightarrow> bool) \<Rightarrow> (string \<Rightarrow> string \<Rightarrow> bool) \<Rightarrow> tables \<Rightarrow> status_entry \<Rightarrow> bool" where
  "entry_available bindable in_net t (h, c, ip) \<longleftrightarrow>
     ip \<noteq> [] \<and> bindable ip \<and> in_net c ip \<and> tb_available_ip c ip t \<noteq> None"

fun entry_record :: "status_entry \<Rightarrow> string \<times> string" where
  "entry_record (h, c, ip) = (ip, h)"

lemma available_other_ip:
  assumes pool: "pool_ok t" and r: "r \<in> set (ranges t)" "row_ip r \<noteq> ip"
    and av: "tb_available_ip c ip t \<noteq> None"
  shows "tb_available_ip c ip (tb_status_by_id ALLOCATED (row_id r) t) \<noteq> None"
proof -
  obtain s where s: "s \<in> set (ranges t)" "row_status s = AVAILABLE" "row_cidr s = c" "row_ip s = ip"
    using av tb_available_ip_SomeD by blast
  then have "row_id s \<noteq> row_id r" using pool_row_by_id [OF pool s(1) r(1)] r(2) by blast
  with s have "s \<in> set (ranges (tb_status_by_id ALLOCATED (row_id r) t))"
    by (force simp: ranges_status)
  with s show ?thesis by (auto simp: tb_available_ip_def find_None_iff)
qed

lemma sync_step:
  assumes ok: "book_ok t" and av: "entry_available bindable in_net t (h, c, ip)"
  obtains t' where "book_serve bindable in_net (sync_request md (h, c, ip)) t =
      (Some (reply (sync_request md (h, c, ip)) ip True), t')"
    and "a_records t' = a_records t @ [(ip, h)]"
    and "\<And>en. fst (entry_record en) \<noteq> ip \<Longrightarrow> entry_available bindable in_net t en \<Longrightarrow>
        entry_available bindable in_net t' en"
proof -
  obtain r where r: "tb_available_ip c ip t = Some r" using av by auto
  note rD = tb_available_ip_SomeD [OF r]
  let ?t = "bk_bind h ip (tb_status_by_id ALLOCATED (row_id r) t)"
  have frame: "tb_available_ip c' ip' ?t = tb_available_ip c' ip' (tb_status_by_id ALLOCATED (row_id r) t)"
    for c' ip' by (simp add: tb_available_ip_def bk_bind_def)
  show thesis
  proof (rule that [of ?t])
    show "book_serve bindable in_net (sync_request md (h, c, ip)) t =
        (Some (reply (sync_request md (h, c, ip)) ip True), ?t)"
      using av r by (simp add: book_serve_def book_create_def book_bind_def bk_take_def)
    show "a_records ?t = a_records t @ [(ip, h)]" by simp
    fix en assume "fst (entry_record en) \<noteq> ip" "entry_available bindable in_net t en"
    then show "entry_available bindable in_net ?t en"
      using available_other_ip [OF book_okD(1) [OF ok], of r] rD
      by (cases en) (simp add: frame)
  qed
qed

lemma sync_restores:
  assumes "book_ok t" and "distinct (map (\<lambda>en. fst (entry_record en)) sts)"
    and "list_all (entry_available bindable in_net t) sts"
  shows "fst (book_run bindable in_net (map (sync_request md) sts) t) =
       map (\<lambda>en. reply (sync_request md en) (fst (entry_record en)) True) sts"
    and "a_records (snd (book_run bindable in_net (map (sync_request md) sts) t)) =
       a_records t @ map entry_record sts"
  unfolding atomize_conj
  using assms
proof (induction sts arbitrary: t)
  case Nil
  then show ?case by simp
next
  case (Cons en sts)
  obtain h c ip where en: "en = (h, c, ip)" by (cases en)
  obtain t' where one: "book_serve bindable in_net (sync_request md (h, c, ip)) t =
      (Some (reply (sync_request md (h, c, ip)) ip True), t')"
    "a_records t' = a_records t @ [(ip, h)]"
    and keep: "\<And>en. fst (entry_record en) \<noteq> ip \<Longrightarrow> entry_available bindable in_net t en \<Longrightarrow>
        entry_available bindable in_net t' en"
    using sync_step [of t bindable in_net h c ip md] Cons.prems(1,3) unfolding en by auto
  have other: "fst (entry_record x) \<noteq> ip" if "x \<in> set sts" for x
    using Cons.prems(2) that by (force simp: en)
  have av: "list_all (entry_available bindable in_net t') sts"
    using Cons.prems(3) keep other by (simp add: list_all_iff)
  have ok: "book_ok t'"
    using book_ok_serve [OF Cons.prems(1), of bindable in_net "sync_request md (h, c, ip)"] one(1)
    by (simp only: snd_conv)
  have "distinct (map (\<lambda>en. fst (entry_record en)) sts)" using Cons.prems(2) by simp
  note IH = Cons.IH [OF ok this av]
  show ?case
    unfolding list.map en book_run_Cons one(1) fst_conv snd_conv option.case IH [THEN conjunct1]
      IH [THEN conjunct2] one(2)
    by simp
qed

section \<open>From the start of the program\<close>

abbreviation "f5_params es \<equiv> \<lparr>Provider = F5IPAMProvider, Range = range_text es\<rparr>"

abbreviation "serve \<equiv> book_serve isIPV4Addr addr_in_net"

abbreviation "serve_all \<equiv> book_run isIPV4Addr addr_in_net"

abbreviation "first_book es \<equiv> entries_tables es empty_tables"

lemma isIPV4Addr_text [simp]: "isIPV4Addr (v4_text n)"
  by (simp add: isIPV4Addr_def ParseIP_text)

lemma all_ips_v4: "ip \<in> set (all_ips es) \<Longrightarrow> \<exists>n. ip = v4_text n"
  by (fastforce simp: all_ips_def)

lemma first_book_no_leak:
  assumes "distinct (all_ips es)"
  shows "no_leak isIPV4Addr (first_book es)"
proof -
  have st: "list_all (\<lambda>r. row_status r = AVAILABLE) (ranges (first_book es))"
    by (rule entries_tables_rows) (simp add: empty_tables_def)
  then have "alloc_ips (first_book es) = {}" by (auto simp: alloc_ips_def list_all_iff)
  moreover have "statuses_ok (first_book es)" using st by (simp add: statuses_ok_def list_all_iff)
  moreover have "list_all isIPV4Addr (all_ips es)"
    using all_ips_v4 [of _ es] by (force simp: list_all_iff)
  ultimately show ?thesis
    using entries_book_ok [OF assms] by (simp add: no_leak_def entries_row_ips)
qed

lemma run_row_ips [simp]:
  "map row_ip (ranges (snd (book_run bindable in_net reqs t))) = map row_ip (ranges t)"
  by (rule book_run_induct [where I = "\<lambda>u. map row_ip (ranges u) = map row_ip (ranges t)"]) simp_all

lemma run_pool: "row_ip ` set (ranges (snd (serve_all reqs (first_book es)))) = set (all_ips es)"
  using run_row_ips [of isIPV4Addr addr_in_net reqs "first_book es"]
  by (metis entries_row_ips set_map)

context reliable_sqlite
begin

lemmas request_book = mgr.handle_request_book
  and requests_book = mgr.runController_book

lemma take_by_name:
  assumes "mgr_wf tbl m"
  shows "\<exists>m'. mg_AllocateIPAddress (ipam_manager drv) m c ip =
     Inr (addr_in_net c ip \<and> fst (bk_take c ip (mgr_book tbl m)), m')"
  using mgr.take_address [OF assms] by blast

lemma serve_from_start:
  assumes "es \<noteq> []" and "list_all valid_entry es"
    and "list_all (\<lambda>req. sql_literal (HostName req)) reqs"
  shows "\<exists>m m'. NewManager drv (f5_params es) = Inr (Some m)
    \<and> runController (ipam_manager drv) (NewController (Some m)) reqs =
        Inr \<lparr>Manager = Some m', pending = fst (serve_all reqs (first_book es))\<rparr>
    \<and> mgr_book tbl m' = snd (serve_all reqs (first_book es)) \<and> mgr_wf tbl m'"
proof -
  obtain m where m: "NewManager drv (f5_params es) = Inr (Some m)" "mgr_wf tbl m"
    "mgr_book tbl m = first_book es" using NewManager_book [OF assms(1,2)] by blast
  from requests_book [OF m(2) assms(3), of "[]"] m show ?thesis by (auto simp: NewController_def)
qed

text \<open>The host name that is a column of the table: its lookup finds the least address of all.\<close>

lemma hostname_lookup:
  assumes wf: "mgr_wf tbl m" and any: "tb_any_ip (mgr_book tbl m) = Some ip" and v4: "isIPV4Addr ip"
    and none: "(ip, ''hostname'') \<notin> set (a_records (mgr_book tbl m))"
  shows "\<exists>m1. handle_request (ipam_manager drv) m (create_request md ''hostname'' c []) =
        Inr (Some (reply (create_request md ''hostname'' c []) ip True), m1)
        \<and> mgr_book tbl m1 = mgr_book tbl m"
    and "\<exists>m2. handle_request (ipam_manager drv) m (delete_request md ''hostname'' c []) =
        Inr (Some (reply (delete_request md ''hostname'' c []) [] True), m2)
        \<and> mgr_book tbl m2 = bk_release ip (mgr_book tbl m)"
proof -
  from wf obtain db cs where m: "m = Some \<lparr>provider = \<lparr>store = db, cidrs = cs\<rparr>\<rparr>"
    and nets: "nets_ok cs (tbl db)" by (rule mgr_cases)
  obtain db1 where get: "GetIPAddress drv db ''hostname'' = (ip, db1)" "tbl db1 = tbl db"
    using GetIPAddress_column [of db] any by (auto simp: m)
  let ?m1 = "Some \<lparr>provider = \<lparr>store = db1, cidrs = cs\<rparr>\<rparr>"
  have look: "mg_GetIPAddress (ipam_manager drv) m ''hostname'' = Inr (ip, ?m1)"
    by (simp add: m ipam_manager_def ipmgr_GetIPAddress_def with_provider_def prov_GetIPAddress_def get(1))
  have m1: "mgr_wf tbl ?m1" "mgr_book tbl ?m1 = mgr_book tbl m"
    using nets get(2) by (simp_all add: m)
  have ip: "ip \<noteq> []" using v4 by (auto simp: isIPV4Addr_def ParseIP_def split: if_splits)
  from look ip m1 show "\<exists>m1. handle_request (ipam_manager drv) m (create_request md ''hostname'' c []) =
        Inr (Some (reply (create_request md ''hostname'' c []) ip True), m1)
        \<and> mgr_book tbl m1 = mgr_book tbl m"
    by (simp add: handle_request_def handle_create_def)
  obtain m2 where rel: "mg_ReleaseIPAddress (ipam_manager drv) ?m1 ip = Inr m2" "mgr_wf tbl m2"
    "mgr_book tbl m2 = bk_release ip (mgr_book tbl m)"
    using mgr.release [OF m1(1), of ip] v4 m1(2) by auto
  obtain m3 where del: "mg_DeleteARecord (ipam_manager drv) m2 ''hostname'' ip = Inr m3"
    "mgr_book tbl m3 = bk_unbind ''hostname'' ip (mgr_book tbl m2)"
    using mgr.unbind [OF rel(2), of "''hostname''" ip] v4 by auto
  have "filter (\<lambda>r. r \<noteq> (ip, ''hostname'')) (a_records (mgr_book tbl m)) = a_records (mgr_book tbl m)"
    unfolding filter_id_conv using none by blast
  then have "mgr_book tbl m3 = bk_release ip (mgr_book tbl m)"
    by (simp add: del(2) rel(3) bk_unbind_def bk_release_def tb_delete_record_def tb_status_by_ip_def)
  with look ip rel(1) del(1) show "\<exists>m2. handle_request (ipam_manager drv) m (delete_request md ''hostname'' c []) =
        Inr (Some (reply (delete_request md ''hostname'' c []) [] True), m2)
        \<and> mgr_book tbl m2 = bk_release ip (mgr_book tbl m)"
    by (simp add: handle_request_def handle_delete_def)
qed

end

end
