(* ===== verification/Answers.thy ===== *)
theory Answers
  imports Requests "HOL-Library.Sublist"
begin

text \<open>
  The controller with its answer goroutines, as a step relation. Each answer is sent by a
  goroutine of its own on an unbuffered channel, so at any moment the orchestrator may
  receive any of the pending answers, and the controller may receive the next request.
  Whatever the interleaving, the address book only depends on the order of the requests,
  and each answer is delivered at most once; the order of the answers is free.
\<close>

datatype ctlr_event = Received IPAMRequest | Sent IPAMResponse

inductive ctlr_step ::
    "'m manager_iface \<Rightarrow> 'm Controller \<Rightarrow> ctlr_event \<Rightarrow> 'm Controller \<Rightarrow> bool" for M where
  receive: "controller_round M ctlr req = Inr ctlr' \<Longrightarrow> ctlr_step M ctlr (Received req) ctlr'"
| send: "pending ctlr = us @ resp # vs \<Longrightarrow>
     ctlr_step M ctlr (Sent resp) (ctlr\<lparr>pending := us @ vs\<rparr>)"

inductive ctlr_run ::
    "'m manager_iface \<Rightarrow> 'm Controller \<Rightarrow> ctlr_event list \<Rightarrow> 'm Controller \<Rightarrow> bool" for M where
  start: "ctlr_run M ctlr [] ctlr"
| step: "ctlr_run M ctlr evs ctlr1 \<Longrightarrow> ctlr_step M ctlr1 ev ctlr2 \<Longrightarrow> ctlr_run M ctlr (evs @ [ev]) ctlr2"

inductive_cases receiveE: "ctlr_step M ctlr (Received req) ctlr'"
inductive_cases sendE: "ctlr_step M ctlr (Sent resp) ctlr'"

inductive_simps run_start: "ctlr_run M ctlr [] ctlr'"

definition received :: "ctlr_event list \<Rightarrow> IPAMRequest list" where
  "received evs = concat (map (\<lambda>ev. case ev of Received req \<Rightarrow> [req] | Sent _ \<Rightarrow> []) evs)"

definition sent :: "ctlr_event list \<Rightarrow> IPAMResponse list" where
  "sent evs = concat (map (\<lambda>ev. case ev of Received _ \<Rightarrow> [] | Sent resp \<Rightarrow> [resp]) evs)"

lemma received_simps [simp]:
  "received [] = []" "received (evs @ [Received req]) = received evs @ [req]"
  "received (evs @ [Sent resp]) = received evs"
  "sent [] = []" "sent (evs @ [Received req]) = sent evs" "sent (evs @ [Sent resp]) = sent evs @ [resp]"
  by (simp_all add: received_def sent_def)

lemma book_run_snoc:
  "book_run bindable in_net (reqs @ [req]) t =
     (let t1 = snd (book_run bindable in_net reqs t); out = book_serve bindable in_net req t1 in
      (fst (book_run bindable in_net reqs t) @ (case fst out of None \<Rightarrow> [] | Some r \<Rightarrow> [r]), snd out))"
  by (induction reqs arbitrary: t) (simp_all add: book_run_Cons Let_def split: prod.splits)

lemma book_serve_request:
  "fst (book_serve bindable in_net req t) = Some r \<Longrightarrow> Request r = req"
  by (auto simp: book_serve_def book_create_def book_delete_def reply_def split: if_splits)

text \<open>Each answer is the answer to one request, in the order of the requests.\<close>

lemma book_run_requests:
  "subseq (map Request (fst (book_run bindable in_net reqs t))) reqs"
proof (induction reqs arbitrary: t)
  case (Cons req reqs)
  show ?case
    using Cons.IH [of "snd (book_serve bindable in_net req t)"]
      book_serve_request [of bindable in_net req t]
    by (auto simp: book_run_Cons simp del: book_run.simps split: option.split)
qed simp

lemma book_run_from: "Request ` set (fst (book_run bindable in_net reqs t)) \<subseteq> set reqs"
proof -
  have "set xs \<subseteq> set ys" if "subseq xs ys" for xs ys :: "IPAMRequest list"
    using that by (induction rule: list_emb.induct) auto
  from this [OF book_run_requests] show ?thesis by (simp only: set_map)
qed

context ip_manager
begin

lemma run_book:
  assumes "ctlr_run M ctlr evs ctlr'" and "Manager ctlr = Some m" "wf m"
    and "list_all (\<lambda>req. host_ok (HostName req)) (received evs)"
  shows "\<exists>m'. Manager ctlr' = Some m' \<and> wf m'
    \<and> book m' = snd (book_run bindable in_net (received evs) (book m))
    \<and> mset (sent evs) + mset (pending ctlr') =
        mset (pending ctlr) + mset (fst (book_run bindable in_net (received evs) (book m)))"
  using assms
proof (induction rule: ctlr_run.induct)
  case (start ctlr)
  then show ?case by simp
next
  case (step ctlr evs ctlr1 ev ctlr2)
  show ?case
  proof (cases ev)
    case (Received req)
    with step.IH [OF step.prems(1,2)] step.prems(3) obtain m1 where
      m1: "Manager ctlr1 = Some m1" "wf m1"
      "book m1 = snd (book_run bindable in_net (received evs) (book m))"
      "mset (sent evs) + mset (pending ctlr1) =
         mset (pending ctlr) + mset (fst (book_run bindable in_net (received evs) (book m)))"
      and ok: "host_ok (HostName req)" by auto
    have c1: "ctlr1 = \<lparr>Manager = Some m1, pending = pending ctlr1\<rparr>" using m1(1) by (cases ctlr1) simp
    have round: "controller_round M ctlr1 req = Inr ctlr2"
      using step.hyps(2) Received by (auto elim: receiveE)
    from controller_round_book [OF m1(2) ok, of "pending ctlr1"] round c1 m1 Received show ?thesis
      by (auto simp: book_run_snoc Let_def)
  next
    case (Sent resp)
    with step.IH [OF step.prems(1,2)] step.prems(3) step.hyps(2) show ?thesis
      by (auto elim!: sendE)
  qed
qed

text \<open>The controller never gets stuck on a request.\<close>

lemma run_continues:
  assumes "ctlr_run M ctlr evs ctlr'" and "Manager ctlr = Some m" "wf m"
    and "list_all (\<lambda>req. host_ok (HostName req)) (received evs)" and "host_ok (HostName req)"
  shows "\<exists>ctlr''. ctlr_step M ctlr' (Received req) ctlr''"
proof -
  obtain m' where m': "Manager ctlr' = Some m'" "wf m'" using run_book [OF assms(1-4)] by blast
  then have "ctlr' = \<lparr>Manager = Some m', pending = pending ctlr'\<rparr>" by (cases ctlr') simp
  with controller_round_book [OF m'(2) assms(5), of "pending ctlr'"] show ?thesis
    by (metis ctlr_step.receive)
qed

end

context reliable_sqlite
begin

lemmas interleaved_book = mgr.run_book

end

text \<open>Any pending answer may come first.\<close>

lemma run_sends:
  assumes "ctlr_run M ctlr evs ctlr1" and "pending ctlr1 = us @ resp # vs"
  shows "ctlr_run M ctlr (evs @ [Sent resp]) (ctlr1\<lparr>pending := us @ vs\<rparr>)"
  using assms by (blast intro: ctlr_run.step ctlr_step.send)

lemma run_receives:
  assumes "ctlr_run M ctlr evs ctlr1" and "controller_round M ctlr1 req = Inr ctlr2"
  shows "ctlr_run M ctlr (evs @ [Received req]) ctlr2"
  using assms by (blast intro: ctlr_run.step ctlr_step.receive)

end
