(* ===== verification/Fic.thy ===== *)
theory Fic
  imports Prelude
begin

text \<open>
  The custom resource (\<open>pkg/ipamapis/apis/fic/v1/types.go\<close>). The lists hold pointers, so an
  entry may be nil (\<open>None\<close>). Of the object metadata the fields the controller reads are
  kept, and the resource version, which an update sends back.
\<close>

record HostSpec =
  hs_Host :: string
  hs_Cidr :: string

record IPSpec =
  ips_Host :: string
  ips_Cidr :: string
  ips_IP :: string

record F5IPAMSpec =
  HostSpecs :: "HostSpec option list"

record F5IPAMStatus =
  IPStatus :: "IPSpec option list"

record F5IPAM =
  Name :: string
  Namespace :: string
  ResourceVersion :: string
  Spec :: F5IPAMSpec
  RscStatus :: F5IPAMStatus

text \<open>\<open>&F5IPAM{}\<close>\<close>

definition zero_F5IPAM :: F5IPAM where
  "zero_F5IPAM = \<lparr>Name = [], Namespace = [], ResourceVersion = [],
     Spec = \<lparr>HostSpecs = []\<rparr>, RscStatus = \<lparr>IPStatus = []\<rparr>\<rparr>"

abbreviation status_of :: "F5IPAM \<Rightarrow> IPSpec option list" where
  "status_of rsc \<equiv> IPStatus (RscStatus rsc)"

abbreviation hosts_of :: "F5IPAM \<Rightarrow> HostSpec option list" where
  "hosts_of rsc \<equiv> HostSpecs (Spec rsc)"

definition set_status :: "IPSpec option list \<Rightarrow> F5IPAM \<Rightarrow> F5IPAM" where
  "set_status sts rsc = rsc\<lparr>RscStatus := (RscStatus rsc)\<lparr>IPStatus := sts\<rparr>\<rparr>"

lemma set_status_simps [simp]:
  "Name (set_status sts rsc) = Name rsc" "Namespace (set_status sts rsc) = Namespace rsc"
  "ResourceVersion (set_status sts rsc) = ResourceVersion rsc"
  "Spec (set_status sts rsc) = Spec rsc" "status_of (set_status sts rsc) = sts"
  by (simp_all add: set_status_def)

end
