(* ===== verification/Workqueue.thy ===== *)
theory Workqueue
  imports Prelude
begin

text \<open>
  The work queue between the informer's event handlers and the orchestrator's worker
  (\<open>vendor/k8s.io/client-go/util/workqueue/queue.go\<close>; the rate limiting queue the
  orchestrator creates embeds it and adds nothing to \<open>Add\<close>, \<open>Get\<close> and \<open>Done\<close>). Each
  operation runs under the queue's lock, so it is one atomic step. Metrics and the clock
  are left out: they do not influence which items are handed out.
\<close>

section \<open>State and operations\<close>

record 'a workqueue =
  wq_queue :: "'a list"
  wq_dirty :: "'a list"       \<comment> \<open>\<open>map[t]empty\<close>, its keys\<close>
  wq_processing :: "'a list"  \<comment> \<open>\<open>map[t]empty\<close>, its keys\<close>
  wq_shuttingDown :: bool

definition wq_new :: "'a workqueue" where
  "wq_new = \<lparr>wq_queue = [], wq_dirty = [], wq_processing = [], wq_shuttingDown = False\<rparr>"

definition wq_Add :: "'a workqueue \<Rightarrow> 'a \<Rightarrow> 'a workqueue" where
  "wq_Add q item =
     (if wq_shuttingDown q then q
      else if item \<in> set (wq_dirty q) then q
      else
        (let q1 = q\<lparr>wq_dirty := List.insert item (wq_dirty q)\<rparr> in
         if item \<in> set (wq_processing q1) then q1
         else q1\<lparr>wq_queue := wq_queue q1 @ [item]\<rparr>))"

definition wq_Len :: "'a workqueue \<Rightarrow> nat" where
  "wq_Len q = length (wq_queue q)"

text \<open>
  \<open>Get\<close>: \<open>None\<close> while it waits on the condition variable; otherwise the item, or no item
  when the queue is shutting down and drained.
\<close>

definition wq_Get :: "'a workqueue \<Rightarrow> ('a option \<times> 'a workqueue) option" where
  "wq_Get q =
     (if wq_queue q = [] \<and> \<not> wq_shuttingDown q then None
      else (case wq_queue q of
              [] \<Rightarrow> Some (None, q)
            | item # rest \<Rightarrow>
                Some (Some item,
                  q\<lparr>wq_queue := rest,
                    wq_processing := List.insert item (wq_processing q),
                    wq_dirty := removeAll item (wq_dirty q)\<rparr>)))"

definition wq_Done :: "'a workqueue \<Rightarrow> 'a \<Rightarrow> 'a workqueue" where
  "wq_Done q item =
     (let q1 = q\<lparr>wq_processing := removeAll item (wq_processing q)\<rparr> in
      if item \<in> set (wq_dirty q1) then q1\<lparr>wq_queue := wq_queue q1 @ [item]\<rparr> else q1)"

definition wq_ShutDown :: "'a workqueue \<Rightarrow> 'a workqueue" where
  "wq_ShutDown q = q\<lparr>wq_shuttingDown := True\<rparr>"

lemmas wq_defs = wq_Add_def wq_Get_def wq_Done_def wq_ShutDown_def wq_new_def

section \<open>The invariant\<close>

text \<open>
  The comment of the code: every element of the queue is in the dirty set and not in
  the processing set. The converse holds too, so no marked item is forgotten, and an item
  is queued once.
\<close>

definition wq_ok :: "'a workqueue \<Rightarrow> bool" where
  "wq_ok q \<longleftrightarrow> distinct (wq_queue q) \<and> set (wq_queue q) = set (wq_dirty q) - set (wq_processing q)"

lemma wq_ok_new: "wq_ok wq_new"
  by (simp add: wq_ok_def wq_new_def)

lemma wq_ok_Add [inv_keep]: "wq_ok q \<Longrightarrow> wq_ok (wq_Add q item)"
  by (auto simp: wq_ok_def wq_Add_def Let_def)

lemma wq_ok_Get [inv_keep]: "wq_ok q \<Longrightarrow> wq_Get q = Some (r, q') \<Longrightarrow> wq_ok q'"
  by (auto simp: wq_ok_def wq_Get_def split: list.splits if_splits)

lemma wq_ok_Done [inv_keep]:
  "wq_ok q \<Longrightarrow> item \<in> set (wq_processing q) \<Longrightarrow> wq_ok (wq_Done q item)"
  by (auto simp: wq_ok_def wq_Done_def Let_def)

lemma wq_ok_ShutDown [inv_keep]: "wq_ok q \<Longrightarrow> wq_ok (wq_ShutDown q)"
  by (simp add: wq_ok_def wq_ShutDown_def)

text \<open>\<open>Done\<close> of an item that is not being processed can queue an item twice.\<close>

lemma wq_Done_misuse:
  "\<not> wq_ok (wq_Done (wq_Add wq_new item) item)"
  by (simp add: wq_ok_def wq_defs Let_def)

section \<open>The contract\<close>

text \<open>
  What the orchestrator relies on: items that are new to the queue are handed out in the
  order they were added, each once. \<open>waiting q\<close> are the items to be handed out,
  \<open>taken q\<close> those being worked on.
\<close>

locale event_queue =
  fixes add :: "'q \<Rightarrow> 'a \<Rightarrow> 'q"
    and get :: "'q \<Rightarrow> ('a option \<times> 'q) option"
    and finish :: "'q \<Rightarrow> 'a \<Rightarrow> 'q"
    and q_ok :: "'q \<Rightarrow> bool"
    and waiting :: "'q \<Rightarrow> 'a list"
    and taken :: "'q \<Rightarrow> 'a set"
    and closed :: "'q \<Rightarrow> bool"
  assumes add_new: "q_ok q \<Longrightarrow> x \<notin> set (waiting q) \<union> taken q \<Longrightarrow> \<not> closed q \<Longrightarrow>
        q_ok (add q x) \<and> waiting (add q x) = waiting q @ [x] \<and> taken (add q x) = taken q
        \<and> \<not> closed (add q x)"
    and add_closed: "closed q \<Longrightarrow> add q x = q"
    and get_next: "q_ok q \<Longrightarrow> waiting q = x # xs \<Longrightarrow>
        \<exists>q'. get q = Some (Some x, q') \<and> q_ok q' \<and> waiting q' = xs \<and> taken q' = insert x (taken q)
        \<and> closed q' = closed q"
    and get_none: "waiting q = [] \<Longrightarrow> get q = (if closed q then Some (None, q) else None)"
    and finish_taken: "q_ok q \<Longrightarrow> x \<in> taken q \<Longrightarrow> x \<notin> set (waiting q) \<Longrightarrow>
        q_ok (finish q x) \<and> waiting (finish q x) = waiting q \<and> taken (finish q x) = taken q - {x}
        \<and> closed (finish q x) = closed q"
begin

text \<open>Adding several new items; taking one and finishing it.\<close>

lemma add_all:
  assumes "q_ok q" "\<not> closed q" "distinct xs" "set xs \<inter> (set (waiting q) \<union> taken q) = {}"
  shows "q_ok (foldl add q xs) \<and> waiting (foldl add q xs) = waiting q @ xs
    \<and> taken (foldl add q xs) = taken q \<and> \<not> closed (foldl add q xs)"
  using assms
proof (induction xs arbitrary: q)
  case (Cons x xs)
  have "q_ok (add q x) \<and> waiting (add q x) = waiting q @ [x] \<and> taken (add q x) = taken q
      \<and> \<not> closed (add q x)"
    using Cons.prems by (intro add_new) auto
  then show ?case using Cons.IH [of "add q x"] Cons.prems by auto
qed simp

lemma take_and_finish:
  assumes "q_ok q" "waiting q = x # xs" "x \<notin> set xs" "taken q = {}"
  shows "\<exists>q'. get q = Some (Some x, q') \<and> q_ok (finish q' x) \<and> waiting (finish q' x) = xs
    \<and> taken (finish q' x) = {} \<and> closed (finish q' x) = closed q"
proof -
  obtain q' where q': "get q = Some (Some x, q')" "q_ok q'" "waiting q' = xs" "taken q' = {x}"
    "closed q' = closed q" using get_next [OF assms(1,2)] assms(4) by auto
  with finish_taken [of q' x] assms(3) show ?thesis by auto
qed

end

text \<open>
  The code's queue fulfils it, with the state in which no item in work has been marked again:
  then the dirty set is the queue.
\<close>

definition wq_plain :: "'a workqueue \<Rightarrow> bool" where
  "wq_plain q \<longleftrightarrow> wq_ok q \<and> set (wq_dirty q) \<inter> set (wq_processing q) = {}"

interpretation wq: event_queue wq_Add wq_Get wq_Done wq_plain wq_queue
  "\<lambda>q. set (wq_processing q)" wq_shuttingDown
proof (unfold_locales, goal_cases)
  case (1 q x)
  then show ?case by (auto simp: wq_plain_def wq_ok_def wq_Add_def Let_def)
next
  case (2 q x)
  then show ?case by (simp add: wq_Add_def)
next
  case (3 q x xs)
  then show ?case by (auto simp: wq_plain_def wq_ok_def wq_Get_def)
next
  case (4 q)
  then show ?case by (simp add: wq_Get_def)
next
  case (5 q x)
  then show ?case by (auto simp: wq_plain_def wq_ok_def wq_Done_def Let_def)
qed

end
