(* ===== verification/Orchestration.thy ===== *)
theory Orchestration
  imports Ipamspec Fic Workqueue
begin

text \<open>
  \<open>pkg/orchestration/kuberntes.go\<close>: the orchestrator. The informer's event handlers put a
  key on the work queue; \<open>processResource\<close> takes one and sends requests to the controller;
  \<open>processResponse\<close> writes the answers to the status of the custom resource.

  A key is a pointer to a new \<open>rqKey\<close>: here an index into the list of all keys made so far.
  The Kubernetes API is a parameter. A worker's call yields the requests it has sent and,
  if it panics, where; sending blocks until the controller receives, so what was sent
  before a panic has been received.
\<close>

section \<open>State\<close>

definition UPDATE :: string where
  "UPDATE = ''Update''"

definition DefaultNamespace :: string where
  "DefaultNamespace = ''kube-system''"

lemma update_distinct [simp]:
  "UPDATE \<noteq> OP_CREATE" "OP_CREATE \<noteq> UPDATE" "UPDATE \<noteq> OP_DELETE" "OP_DELETE \<noteq> UPDATE"
  by (simp_all add: UPDATE_def OP_CREATE_def OP_DELETE_def)

record rqKey =
  rsc :: "F5IPAM option"
  oldRsc :: "F5IPAM option"
  rq_Operation :: string

record K8sIPAMClient =
  rscQueue :: "nat workqueue"
  rq_keys :: "rqKey list"  \<comment> \<open>the keys by address\<close>

definition new_client :: K8sIPAMClient where
  "new_client = \<lparr>rscQueue = wq_new, rq_keys = []\<rparr>"

section \<open>Events\<close>

text \<open>
  What the informer passes to a handler: a pointer to a resource, or a value of another
  type (for a missed deletion, \<open>cache.DeletedFinalStateUnknown\<close>).
\<close>

datatype informer_obj = Resource "F5IPAM option" | Tombstone string

fun as_resource :: "informer_obj \<Rightarrow> F5IPAM option go" where
  "as_resource (Resource r) = Inr r"
| "as_resource (Tombstone k) = Inl TypeAssertion"

definition add_key :: "K8sIPAMClient \<Rightarrow> rqKey \<Rightarrow> K8sIPAMClient" where
  "add_key k8sc key =
     k8sc\<lparr>rscQueue := wq_Add (rscQueue k8sc) (length (rq_keys k8sc)),
          rq_keys := rq_keys k8sc @ [key]\<rparr>"

text \<open>The first two handlers log the name of the resource, which dereferences it.\<close>

definition enqueueIPAM :: "K8sIPAMClient \<Rightarrow> informer_obj \<Rightarrow> K8sIPAMClient go" where
  "enqueueIPAM k8sc obj =
     go_bind (as_resource obj) (\<lambda>r.
       if r = None then Inl NilDeref
       else Inr (add_key k8sc \<lparr>rsc = r, oldRsc = None, rq_Operation = OP_CREATE\<rparr>))"

definition enqueueUpdatedIPAM ::
    "K8sIPAMClient \<Rightarrow> informer_obj \<Rightarrow> informer_obj \<Rightarrow> K8sIPAMClient go" where
  "enqueueUpdatedIPAM k8sc old cur =
     go_bind (as_resource cur) (\<lambda>r.
     go_bind (as_resource old) (\<lambda>r_old.
       if r = None then Inl NilDeref
       else Inr (add_key k8sc \<lparr>rsc = r, oldRsc = r_old, rq_Operation = UPDATE\<rparr>)))"

definition enqueueDeletedIPAM :: "K8sIPAMClient \<Rightarrow> informer_obj \<Rightarrow> K8sIPAMClient go" where
  "enqueueDeletedIPAM k8sc obj =
     go_bind (as_resource obj) (\<lambda>r.
       Inr (add_key k8sc \<lparr>rsc = r, oldRsc = None, rq_Operation = OP_DELETE\<rparr>))"

section \<open>From a key to requests\<close>

definition rsc_meta :: "F5IPAM \<Rightarrow> metadata" where
  "rsc_meta r = Meta \<lparr>meta_name = Name r, meta_namespace = Namespace r\<rparr>"

definition status_request :: "string \<Rightarrow> F5IPAM \<Rightarrow> IPSpec \<Rightarrow> IPAMRequest" where
  "status_request op r ipSpec =
     \<lparr>Metadata = rsc_meta r, HostName = ips_Host ipSpec, CIDR = ips_Cidr ipSpec,
      IPAddr = ips_IP ipSpec, Operation = op\<rparr>"

definition spec_request :: "string \<Rightarrow> F5IPAM \<Rightarrow> HostSpec \<Rightarrow> IPAMRequest" where
  "spec_request op r spec =
     \<lparr>Metadata = rsc_meta r, HostName = hs_Host spec, CIDR = hs_Cidr spec,
      IPAddr = [], Operation = op\<rparr>"

text \<open>What was sent, and the panic that ended it.\<close>

type_synonym sends = "IPAMRequest list \<times> go_stop option"

text \<open>One request for every entry of a list of pointers, up to the first nil.\<close>

fun send_each :: "('x \<Rightarrow> IPAMRequest) \<Rightarrow> 'x option list \<Rightarrow> sends" where
  "send_each f [] = ([], None)"
| "send_each f (None # xs) = ([], Some NilDeref)"
| "send_each f (Some x # xs) = (case send_each f xs of (rs, p) \<Rightarrow> (f x # rs, p))"

definition then_send :: "sends \<Rightarrow> sends \<Rightarrow> sends" where
  "then_send a b = (case snd a of Some p \<Rightarrow> a | None \<Rightarrow> (fst a @ fst b, snd b))"

text \<open>\<open>for _, hostSpec := range ... { set[*hostSpec] = true }\<close>: the keys of the map.\<close>

definition spec_set :: "HostSpec option list \<Rightarrow> HostSpec list go" where
  "spec_set specs =
     (if None \<in> set specs then Inl NilDeref else Inr (remdups (map the specs)))"

text \<open>
  The order in which \<open>range\<close> visits the entries of a map is not specified; \<open>o_old\<close> and
  \<open>o_new\<close> give it for the two loops of the update.
\<close>

definition update_requests ::
    "(HostSpec list \<Rightarrow> HostSpec list) \<Rightarrow> (HostSpec list \<Rightarrow> HostSpec list) \<Rightarrow> F5IPAM \<Rightarrow> F5IPAM \<Rightarrow> sends" where
  "update_requests o_old o_new old r =
     (case spec_set (hosts_of old) of
        Inl p \<Rightarrow> ([], Some p)
      | Inr oldSpecSet \<Rightarrow>
          (case spec_set (hosts_of r) of
             Inl p \<Rightarrow> ([], Some p)
           | Inr newSpecSet \<Rightarrow>
               (map (spec_request OP_DELETE r)
                  (filter (\<lambda>spec. spec \<notin> set newSpecSet) (o_old oldSpecSet))
                @ map (spec_request OP_CREATE r)
                  (filter (\<lambda>spec. spec \<notin> set oldSpecSet) (o_new newSpecSet)), None)))"

definition key_requests ::
    "(HostSpec list \<Rightarrow> HostSpec list) \<Rightarrow> (HostSpec list \<Rightarrow> HostSpec list) \<Rightarrow> rqKey \<Rightarrow> sends" where
  "key_requests o_old o_new rKey =
     (if rq_Operation rKey = OP_CREATE then
        (case rsc rKey of
           None \<Rightarrow> ([], Some NilDeref)
         | Some r \<Rightarrow> then_send (send_each (status_request OP_CREATE r) (status_of r))
                              (send_each (spec_request OP_CREATE r) (hosts_of r)))
      else if rq_Operation rKey = OP_DELETE then
        (case rsc rKey of
           None \<Rightarrow> ([], Some NilDeref)
         | Some r \<Rightarrow> send_each (status_request OP_DELETE r) (status_of r))
      else if rq_Operation rKey = UPDATE then
        (case oldRsc rKey of
           None \<Rightarrow> ([], Some NilDeref)
         | Some old \<Rightarrow>
             (case rsc rKey of
                None \<Rightarrow> ([], Some NilDeref)
              | Some r \<Rightarrow> update_requests o_old o_new old r))
      else ([], None))"

text \<open>
  \<open>processResource\<close>: \<open>None\<close> while the queue has nothing; else the requests sent and the
  result, \<open>False\<close> when the queue is shut down. \<open>Done\<close> is deferred.
\<close>

definition processResource ::
    "(HostSpec list \<Rightarrow> HostSpec list) \<Rightarrow> (HostSpec list \<Rightarrow> HostSpec list) \<Rightarrow> K8sIPAMClient
      \<Rightarrow> (IPAMRequest list \<times> (bool \<times> K8sIPAMClient) go) option" where
  "processResource o_old o_new k8sc =
     (case wq_Get (rscQueue k8sc) of
        None \<Rightarrow> None
      | Some (None, q) \<Rightarrow> Some ([], Inr (False, k8sc\<lparr>rscQueue := q\<rparr>))
      | Some (Some key, q) \<Rightarrow>
          (case key_requests o_old o_new (rq_keys k8sc ! key) of
             (reqs, Some p) \<Rightarrow> Some (reqs, Inl p)
           | (reqs, None) \<Rightarrow> Some (reqs, Inr (True, k8sc\<lparr>rscQueue := wq_Done q key\<rparr>))))"

text \<open>
  \<open>customResourceWorker\<close>: rounds of \<open>processResource\<close> until it returns false or panics, or
  until it waits for the next event (\<open>True\<close>); \<open>None\<close> if the rounds never end.
\<close>

partial_function (option) customResourceWorker ::
    "(HostSpec list \<Rightarrow> HostSpec list) \<Rightarrow> (HostSpec list \<Rightarrow> HostSpec list) \<Rightarrow> K8sIPAMClient
      \<Rightarrow> (IPAMRequest list \<times> (bool \<times> K8sIPAMClient) go) option" where
  "customResourceWorker o_old o_new k8sc =
     (case processResource o_old o_new k8sc of
        None \<Rightarrow> Some ([], Inr (True, k8sc))
      | Some (reqs, Inl p) \<Rightarrow> Some (reqs, Inl p)
      | Some (reqs, Inr (again, k)) \<Rightarrow>
          if \<not> again then Some (reqs, Inr (False, k))
          else Option.bind (customResourceWorker o_old o_new k) (\<lambda>(reqs1, r). Some (reqs @ reqs1, r)))"

declare customResourceWorker.simps [code]

section \<open>From an answer to the status\<close>

text \<open>
  The API: \<open>Get\<close> yields an object and whether there was an error (the object is not nil
  then either), \<open>Update\<close> whether there was an error.
\<close>

record 'api kube_api =
  api_Get :: "'api \<Rightarrow> string \<Rightarrow> string \<Rightarrow> (F5IPAM \<times> bool) \<times> 'api"
  api_Update :: "'api \<Rightarrow> string \<Rightarrow> F5IPAM \<Rightarrow> bool \<times> 'api"

definition entry_of :: "IPAMResponse \<Rightarrow> IPSpec \<Rightarrow> bool" where
  "entry_of resp ipSpec \<longleftrightarrow>
     ips_Host ipSpec = HostName (Request resp) \<and> ips_Cidr ipSpec = CIDR (Request resp)"

text \<open>The loop that writes the address into the entries that match.\<close>

fun write_ip :: "IPAMResponse \<Rightarrow> IPSpec option list \<Rightarrow> (bool \<times> IPSpec option list) go" where
  "write_ip resp [] = Inr (False, [])"
| "write_ip resp (None # xs) = Inl NilDeref"
| "write_ip resp (Some s # xs) =
     go_bind (write_ip resp xs) (\<lambda>(found, ys).
       if entry_of resp s then Inr (True, Some (s\<lparr>ips_IP := RespIPAddr resp\<rparr>) # ys)
       else Inr (found, Some s # ys))"

text \<open>The loop that looks for the index: the last one that matches.\<close>

fun last_index :: "IPAMResponse \<Rightarrow> nat \<Rightarrow> nat option \<Rightarrow> IPSpec option list \<Rightarrow> nat option go" where
  "last_index resp i index [] = Inr index"
| "last_index resp i index (None # xs) = Inl NilDeref"
| "last_index resp i index (Some s # xs) =
     last_index resp (Suc i) (if entry_of resp s then Some i else index) xs"

definition add_status :: "'api kube_api \<Rightarrow> 'api \<Rightarrow> IPAMResponse \<Rightarrow> 'api go" where
  "add_status K api resp =
     (case Metadata (Request resp) of
        NoMetadata \<Rightarrow> Inl TypeAssertion
      | Meta md \<Rightarrow>
          (case api_Get K api (meta_namespace md) (meta_name md) of ((ipamRsc, err), api1) \<Rightarrow>
             if err then Inr api1
             else go_bind (write_ip resp (status_of ipamRsc)) (\<lambda>(found, sts).
               let sts1 = (if found then sts
                           else sts @ [Some \<lparr>ips_Host = HostName (Request resp),
                                             ips_Cidr = CIDR (Request resp),
                                             ips_IP = RespIPAddr resp\<rparr>])
               in Inr (snd (api_Update K api1 (Namespace ipamRsc) (set_status sts1 ipamRsc))))))"

text \<open>Here an error of \<open>Get\<close> is logged and the object used nevertheless.\<close>

definition remove_status :: "'api kube_api \<Rightarrow> 'api \<Rightarrow> IPAMResponse \<Rightarrow> 'api go" where
  "remove_status K api resp =
     (case Metadata (Request resp) of
        NoMetadata \<Rightarrow> Inl TypeAssertion
      | Meta md \<Rightarrow>
          (case api_Get K api (meta_namespace md) (meta_name md) of ((ipamRsc, err), api1) \<Rightarrow>
             go_bind (last_index resp 0 None (status_of ipamRsc)) (\<lambda>index.
               case index of
                 None \<Rightarrow> Inr api1
               | Some i \<Rightarrow>
                   Inr (snd (api_Update K api1 (Namespace ipamRsc)
                     (set_status (take i (status_of ipamRsc) @ drop (Suc i) (status_of ipamRsc)) ipamRsc))))))"

definition handle_response :: "'api kube_api \<Rightarrow> 'api \<Rightarrow> IPAMResponse \<Rightarrow> 'api go" where
  "handle_response K api resp =
     (if Operation (Request resp) = OP_CREATE then
        (if Status resp then add_status K api resp else remove_status K api resp)
      else if Operation (Request resp) = OP_DELETE then
        (if Status resp then remove_status K api resp else Inr api)
      else Inr api)"

text \<open>The loop over the answers received, in order.\<close>

fun processResponse :: "'api kube_api \<Rightarrow> 'api \<Rightarrow> IPAMResponse list \<Rightarrow> 'api go" where
  "processResponse K api [] = Inr api"
| "processResponse K api (resp # resps) =
     go_bind (handle_response K api resp) (\<lambda>api1. processResponse K api1 resps)"

end
