(* ===== verification/Events.thy ===== *)
theory Events
  imports Orchestration
begin

text \<open>
  What the orchestrator sends. Events are handled one at a time in the order the informer
  reports them, none is dropped or merged; an update sends exactly the difference between
  the old and the new list of hosts, the deletions first.
\<close>

section \<open>Events are handled in order\<close>

definition waiting_keys :: "K8sIPAMClient \<Rightarrow> rqKey list" where
  "waiting_keys k8sc = map ((!) (rq_keys k8sc)) (wq_queue (rscQueue k8sc))"

definition client_ok :: "K8sIPAMClient \<Rightarrow> bool" where
  "client_ok k8sc \<longleftrightarrow> wq_plain (rscQueue k8sc) \<and> wq_processing (rscQueue k8sc) = []
     \<and> list_all (\<lambda>i. i < length (rq_keys k8sc)) (wq_queue (rscQueue k8sc))"

lemma client_ok_new: "client_ok new_client"
  by (simp add: client_ok_def new_client_def wq_plain_def wq_ok_new) (simp add: wq_new_def)

lemma add_key_waiting:
  assumes ok: "client_ok k8sc" and "open": "\<not> wq_shuttingDown (rscQueue k8sc)"
  shows "client_ok (add_key k8sc key)" and "waiting_keys (add_key k8sc key) = waiting_keys k8sc @ [key]"
    and "\<not> wq_shuttingDown (rscQueue (add_key k8sc key))"
proof -
  let ?n = "length (rq_keys k8sc)" and ?q = "rscQueue k8sc"
  have less: "list_all (\<lambda>i. i < ?n) (wq_queue ?q)" and pr: "wq_processing ?q = []"
    using ok by (simp_all add: client_ok_def)
  then have "?n \<notin> set (wq_queue ?q) \<union> set (wq_processing ?q)" by (auto simp: list_all_iff)
  with wq.add_new [of ?q ?n] ok "open"
  have q: "wq_plain (wq_Add ?q ?n)" "wq_queue (wq_Add ?q ?n) = wq_queue ?q @ [?n]"
    "set (wq_processing (wq_Add ?q ?n)) = {}" "\<not> wq_shuttingDown (wq_Add ?q ?n)"
    by (auto simp: client_ok_def pr)
  then show "client_ok (add_key k8sc key)" "\<not> wq_shuttingDown (rscQueue (add_key k8sc key))"
    using less by (auto simp: client_ok_def add_key_def list_all_iff)
  have "map ((!) (rq_keys k8sc @ [key])) (wq_queue ?q) = map ((!) (rq_keys k8sc)) (wq_queue ?q)"
    using less by (auto simp: list_all_iff nth_append)
  then show "waiting_keys (add_key k8sc key) = waiting_keys k8sc @ [key]"
    using q(2) by (simp add: waiting_keys_def add_key_def)
qed

lemma add_key_closed:
  "wq_shuttingDown (rscQueue k8sc) \<Longrightarrow> rscQueue (add_key k8sc key) = rscQueue k8sc"
  by (simp add: add_key_def wq.add_closed)

lemma processResource_next:
  assumes ok: "client_ok k8sc" and keys: "waiting_keys k8sc = key # keys"
  shows "case key_requests o1 o2 key of
      (reqs, Some p) \<Rightarrow> processResource o1 o2 k8sc = Some (reqs, Inl p)
    | (reqs, None) \<Rightarrow> \<exists>k. processResource o1 o2 k8sc = Some (reqs, Inr (True, k))
        \<and> client_ok k \<and> waiting_keys k = keys
        \<and> wq_shuttingDown (rscQueue k) = wq_shuttingDown (rscQueue k8sc)"
proof -
  let ?q = "rscQueue k8sc"
  obtain i js where i: "wq_queue ?q = i # js" and key: "key = rq_keys k8sc ! i"
    "keys = map ((!) (rq_keys k8sc)) js"
    using keys by (auto simp: waiting_keys_def)
  have plain: "wq_plain ?q" "set (wq_processing ?q) = {}"
    and less: "list_all (\<lambda>i. i < length (rq_keys k8sc)) (wq_queue ?q)"
    using ok by (simp_all add: client_ok_def)
  have "i \<notin> set js" using plain(1) i by (simp add: wq_plain_def wq_ok_def)
  with wq.take_and_finish [OF plain(1) i _ plain(2)] obtain q' where
    q': "wq_Get ?q = Some (Some i, q')" "wq_plain (wq_Done q' i)" "wq_queue (wq_Done q' i) = js"
    "set (wq_processing (wq_Done q' i)) = {}" "wq_shuttingDown (wq_Done q' i) = wq_shuttingDown ?q"
    by blast
  have "client_ok (k8sc\<lparr>rscQueue := wq_Done q' i\<rparr>)"
    "waiting_keys (k8sc\<lparr>rscQueue := wq_Done q' i\<rparr>) = keys"
    using q' less i key(2) by (simp_all add: client_ok_def waiting_keys_def)
  with q' key(1) show ?thesis
    by (auto simp: processResource_def split: prod.splits option.splits)
qed

text \<open>The worker empties the queue: it sends the requests of all waiting events, in order.\<close>

lemma processResource_waits:
  assumes "client_ok k8sc" and "waiting_keys k8sc = []" and "\<not> wq_shuttingDown (rscQueue k8sc)"
  shows "processResource o1 o2 k8sc = None"
proof -
  have "wq_queue (rscQueue k8sc) = []" using assms(2) by (simp add: waiting_keys_def)
  from wq.get_none [OF this] assms(3) show ?thesis by (simp add: processResource_def)
qed

lemma worker_drains:
  assumes "client_ok k8sc" and "waiting_keys k8sc = keys" and "\<not> wq_shuttingDown (rscQueue k8sc)"
    and "list_all (\<lambda>key. snd (key_requests o1 o2 key) = None) keys"
  shows "\<exists>k. customResourceWorker o1 o2 k8sc =
       Some (concat (map (\<lambda>key. fst (key_requests o1 o2 key)) keys), Inr (True, k))
    \<and> client_ok k \<and> waiting_keys k = []"
  using assms
proof (induction keys arbitrary: k8sc)
  case Nil
  then show ?case
    using processResource_waits [of k8sc o1 o2] by (simp add: customResourceWorker.simps [of o1 o2 k8sc])
next
  case (Cons key keys)
  obtain reqs where reqs: "key_requests o1 o2 key = (reqs, None)"
    using Cons.prems(4) by (cases "key_requests o1 o2 key") auto
  obtain k where k: "processResource o1 o2 k8sc = Some (reqs, Inr (True, k))" "client_ok k"
    "waiting_keys k = keys" "\<not> wq_shuttingDown (rscQueue k)"
    using processResource_next [OF Cons.prems(1,2), of o1 o2] reqs Cons.prems(3) by auto
  from Cons.IH [OF k(2-4)] Cons.prems(4) k(1) reqs show ?case
    by (auto simp: customResourceWorker.simps [of o1 o2 k8sc])
qed

section \<open>What an event sends\<close>

lemma send_each_plain:
  "None \<notin> set xs \<Longrightarrow> send_each f xs = (map (f \<circ> the) xs, None)"
  by (induction f xs rule: send_each.induct) auto

lemma send_each_nil:
  "None \<in> set xs \<Longrightarrow> \<exists>ys. send_each f xs = (map (f \<circ> the) ys, Some NilDeref) \<and> (\<exists>zs. xs = ys @ None # zs)"
proof (induction f xs rule: send_each.induct)
  case (3 f x xs)
  then have "None \<in> set xs" by simp
  from "3.IH" [OF this] obtain ys zs where
    "send_each f xs = (map (f \<circ> the) ys, Some NilDeref)" "xs = ys @ None # zs" by blast
  then have "send_each f (Some x # xs) = (map (f \<circ> the) (Some x # ys), Some NilDeref)"
    "Some x # xs = (Some x # ys) @ None # zs" by simp_all
  then show ?case by blast
qed (simp, force)

lemma create_sends:
  assumes "None \<notin> set (status_of r)" and "None \<notin> set (hosts_of r)"
  shows "key_requests o1 o2 \<lparr>rsc = Some r, oldRsc = old, rq_Operation = OP_CREATE\<rparr> =
     (map (status_request OP_CREATE r \<circ> the) (status_of r)
      @ map (spec_request OP_CREATE r \<circ> the) (hosts_of r), None)"
  using assms by (simp add: key_requests_def send_each_plain then_send_def)

text \<open>A range over a map visits every entry once.\<close>

definition map_order :: "(HostSpec list \<Rightarrow> HostSpec list) \<Rightarrow> bool" where
  "map_order ord \<longleftrightarrow> (\<forall>xs. mset (ord xs) = mset xs)"

definition spec_diff :: "F5IPAM \<Rightarrow> F5IPAM \<Rightarrow> HostSpec set" where
  "spec_diff a b = {s. Some s \<in> set (hosts_of a) \<and> Some s \<notin> set (hosts_of b)}"

lemma spec_set_plain:
  "None \<notin> set specs \<Longrightarrow> \<exists>xs. spec_set specs = Inr xs \<and> distinct xs \<and> (\<forall>s. s \<in> set xs \<longleftrightarrow> Some s \<in> set specs)"
proof -
  assume none: "None \<notin> set specs"
  then have "x \<in> the ` set specs \<longleftrightarrow> Some x \<in> set specs" for x
    by (metis (no_types, opaque_lifting) image_iff option.collapse option.sel)
  with none show ?thesis by (simp add: spec_set_def)
qed

lemma update_sends:
  assumes "map_order o1" "map_order o2"
    and "None \<notin> set (hosts_of old)" "None \<notin> set (hosts_of r)"
  shows "\<exists>ds cs. update_requests o1 o2 old r =
      (map (spec_request OP_DELETE r) ds @ map (spec_request OP_CREATE r) cs, None)
    \<and> distinct ds \<and> set ds = spec_diff old r \<and> distinct cs \<and> set cs = spec_diff r old"
proof -
  obtain xs where xs: "spec_set (hosts_of old) = Inr xs" "distinct xs"
    "\<forall>s. s \<in> set xs \<longleftrightarrow> Some s \<in> set (hosts_of old)" using spec_set_plain [OF assms(3)] by blast
  obtain ys where ys: "spec_set (hosts_of r) = Inr ys" "distinct ys"
    "\<forall>s. s \<in> set ys \<longleftrightarrow> Some s \<in> set (hosts_of r)" using spec_set_plain [OF assms(4)] by blast
  have o: "distinct (o1 xs)" "set (o1 xs) = set xs" "distinct (o2 ys)" "set (o2 ys) = set ys"
    using assms(1,2) xs(2) ys(2) by (auto simp: map_order_def dest: mset_eq_setD mset_eq_imp_distinct_iff)
  show ?thesis
    by (rule exI [of _ "filter (\<lambda>s. s \<notin> set ys) (o1 xs)"],
        rule exI [of _ "filter (\<lambda>s. s \<notin> set xs) (o2 ys)"])
      (use xs ys o in \<open>auto simp: update_requests_def spec_diff_def\<close>)
qed

end
