(* ===== verification/StatusWriter.thy ===== *)
theory StatusWriter
  imports Orchestration
begin

text \<open>
  What the orchestrator's answers do to the status list of a custom resource. The
  Kubernetes API is the contract \<open>kube_server\<close>: \<open>Get\<close> returns the stored object, an
  \<open>Update\<close> of that object replaces it. \<open>kube_ref\<close> is an API that fulfils it; it keeps
  a list of objects and refuses an update whose resource version is not current.
\<close>

section \<open>The status list\<close>

definition same_entry :: "string \<Rightarrow> string \<Rightarrow> IPSpec \<Rightarrow> bool" where
  "same_entry h c s \<longleftrightarrow> ips_Host s = h \<and> ips_Cidr s = c"

definition status_put :: "string \<Rightarrow> string \<Rightarrow> string \<Rightarrow> IPSpec list \<Rightarrow> IPSpec list" where
  "status_put h c ip sts =
     (if list_ex (same_entry h c) sts
      then map (\<lambda>s. if same_entry h c s then s\<lparr>ips_IP := ip\<rparr> else s) sts
      else sts @ [\<lparr>ips_Host = h, ips_Cidr = c, ips_IP = ip\<rparr>])"

text \<open>The last matching entry is dropped.\<close>

fun status_drop :: "string \<Rightarrow> string \<Rightarrow> IPSpec list \<Rightarrow> IPSpec list" where
  "status_drop h c [] = []"
| "status_drop h c (s # ss) =
     (if list_ex (same_entry h c) ss then s # status_drop h c ss
      else if same_entry h c s then ss else s # ss)"

definition status_after :: "IPAMResponse \<Rightarrow> IPSpec list \<Rightarrow> IPSpec list" where
  "status_after resp sts =
     (let h = HostName (Request resp); c = CIDR (Request resp) in
      if Operation (Request resp) = OP_CREATE then
        (if Status resp then status_put h c (RespIPAddr resp) sts else status_drop h c sts)
      else if Operation (Request resp) = OP_DELETE \<and> Status resp then status_drop h c sts
      else sts)"

definition status_key :: "IPSpec \<Rightarrow> string \<times> string" where
  "status_key s = (ips_Host s, ips_Cidr s)"

lemma same_entry_key: "same_entry h c s \<longleftrightarrow> status_key s = (h, c)"
  by (auto simp: same_entry_def status_key_def)

lemma status_drop_none: "\<not> list_ex (same_entry h c) sts \<Longrightarrow> status_drop h c sts = sts"
  by (induction sts) auto

text \<open>With one entry for a host and network, dropping it leaves none; the keys stay distinct.\<close>

lemma status_drop_filter:
  "distinct (map status_key sts) \<Longrightarrow> status_drop h c sts = filter (\<lambda>s. \<not> same_entry h c s) sts"
proof (induction sts)
  case (Cons s ss)
  show ?case
  proof (cases "list_ex (same_entry h c) ss")
    case True
    then have "\<not> same_entry h c s"
      using Cons.prems by (force simp: list_ex_iff same_entry_key)
    then show ?thesis using Cons True by simp
  next
    case False
    then have "filter (\<lambda>s. \<not> same_entry h c s) ss = ss" by (simp add: list_ex_iff filter_id_conv)
    then show ?thesis using False by simp
  qed
qed simp

lemma status_put_keys:
  "map status_key (status_put h c ip sts) =
     (if list_ex (same_entry h c) sts then map status_key sts else map status_key sts @ [(h, c)])"
proof -
  have "status_key (s\<lparr>ips_IP := ip\<rparr>) = status_key s" for s by (simp add: status_key_def)
  then show ?thesis by (simp add: status_put_def o_def if_distrib cong: if_cong) (simp add: status_key_def)
qed

lemma status_keys_distinct [inv_keep]:
  assumes "distinct (map status_key sts)"
  shows "distinct (map status_key (status_after resp sts))"
proof -
  have "distinct (map status_key (status_put h c ip sts))" for h c ip
    using assms by (auto simp: status_put_keys list_ex_iff same_entry_key)
  moreover have "distinct (map status_key (status_drop h c sts))" for h c
    using assms by (simp add: status_drop_filter distinct_map_filter)
  ultimately show ?thesis using assms by (simp add: status_after_def Let_def)
qed

lemma fold_keys_distinct:
  "distinct (map status_key sts) \<Longrightarrow> distinct (map status_key (fold status_after resps sts))"
  by (induction resps arbitrary: sts) (simp_all add: status_keys_distinct)

text \<open>After a positive DELETE as the last answer no entry of its key is left.\<close>

lemma fold_last_delete:
  assumes "distinct (map status_key sts)" and "resps \<noteq> []"
    and "Operation (Request (last resps)) = OP_DELETE" and "Status (last resps)"
  shows "(HostName (Request (last resps)), CIDR (Request (last resps))) \<notin>
     status_key ` set (fold status_after resps sts)"
proof -
  have "fold status_after (butlast resps @ [last resps]) sts =
      status_after (last resps) (fold status_after (butlast resps) sts)" by simp
  then have "fold status_after resps sts =
      status_after (last resps) (fold status_after (butlast resps) sts)"
    by (simp only: append_butlast_last_id [OF assms(2)])
  then show ?thesis
    using assms(3,4) status_drop_filter [OF fold_keys_distinct [OF assms(1), of "butlast resps"]]
    by (auto simp: status_after_def Let_def same_entry_key)
qed

lemma status_put_lookup:
  "s \<in> set (status_put h c ip sts) \<and> same_entry h c s \<Longrightarrow> ips_IP s = ip"
  "\<exists>s\<in>set (status_put h c ip sts). same_entry h c s"
  "filter (\<lambda>s. \<not> same_entry h c s) (status_put h c ip sts) = filter (\<lambda>s. \<not> same_entry h c s) sts"
proof -
  have same: "same_entry h c (s\<lparr>ips_IP := ip\<rparr>) = same_entry h c s" for s
    by (simp add: same_entry_def)
  show "s \<in> set (status_put h c ip sts) \<and> same_entry h c s \<Longrightarrow> ips_IP s = ip"
    by (auto simp: status_put_def list_ex_iff split: if_splits)
  show "\<exists>s\<in>set (status_put h c ip sts). same_entry h c s"
  proof (cases "list_ex (same_entry h c) sts")
    case True
    then obtain s where "s \<in> set sts" "same_entry h c s" by (auto simp: list_ex_iff)
    with True have "s\<lparr>ips_IP := ip\<rparr> \<in> set (status_put h c ip sts)" by (force simp: status_put_def)
    with \<open>same_entry h c s\<close> same show ?thesis by blast
  next
    case False
    then show ?thesis by (simp add: status_put_def) (simp add: same_entry_def)
  qed
  have "filter (\<lambda>s. \<not> same_entry h c s) (map (\<lambda>s. if same_entry h c s then s\<lparr>ips_IP := ip\<rparr> else s) sts) =
      filter (\<lambda>s. \<not> same_entry h c s) sts"
    by (induction sts) (simp_all add: same)
  moreover have "same_entry h c \<lparr>ips_Host = h, ips_Cidr = c, ips_IP = ip\<rparr>"
    by (simp add: same_entry_def)
  ultimately show "filter (\<lambda>s. \<not> same_entry h c s) (status_put h c ip sts) =
      filter (\<lambda>s. \<not> same_entry h c s) sts" by (simp add: status_put_def)
qed

section \<open>The loops of processResponse\<close>

lemma entry_of_same: "entry_of resp = same_entry (HostName (Request resp)) (CIDR (Request resp))"
  by (rule ext) (simp add: entry_of_def same_entry_def)

lemma write_ip_plain:
  "write_ip resp (map Some sts) = Inr (list_ex (entry_of resp) sts,
     map (\<lambda>s. Some (if entry_of resp s then s\<lparr>ips_IP := RespIPAddr resp\<rparr> else s)) sts)"
  by (induction sts) simp_all

lemma written_status:
  "(let ys = map (\<lambda>s. Some (if entry_of resp s then s\<lparr>ips_IP := RespIPAddr resp\<rparr> else s)) sts in
      if list_ex (entry_of resp) sts then ys
      else ys @ [Some \<lparr>ips_Host = HostName (Request resp), ips_Cidr = CIDR (Request resp),
                       ips_IP = RespIPAddr resp\<rparr>]) =
   map Some (status_put (HostName (Request resp)) (CIDR (Request resp)) (RespIPAddr resp) sts)"
proof (cases "list_ex (entry_of resp) sts")
  case False
  then have "map (\<lambda>s. Some (if entry_of resp s then s\<lparr>ips_IP := RespIPAddr resp\<rparr> else s)) sts = map Some sts"
    by (auto simp: list_ex_iff)
  with False show ?thesis by (simp add: status_put_def entry_of_same)
qed (simp add: status_put_def entry_of_same)

lemma last_index_plain:
  "(\<not> list_ex (entry_of resp) sts \<longrightarrow> last_index resp i idx (map Some sts) = Inr idx) \<and>
   (list_ex (entry_of resp) sts \<longrightarrow> (\<exists>k. last_index resp i idx (map Some sts) = Inr (Some (i + k))
      \<and> status_drop (HostName (Request resp)) (CIDR (Request resp)) sts = take k sts @ drop (Suc k) sts))"
proof (induction sts arbitrary: i idx)
  case (Cons s ss)
  show ?case
  proof (cases "list_ex (entry_of resp) ss")
    case True
    with Cons.IH [of "Suc i"] obtain k where
      "last_index resp (Suc i) (if entry_of resp s then Some i else idx) (map Some ss) = Inr (Some (Suc i + k))"
      "status_drop (HostName (Request resp)) (CIDR (Request resp)) ss = take k ss @ drop (Suc k) ss"
      by blast
    with True show ?thesis by (auto simp: entry_of_same intro!: exI [of _ "Suc k"])
  next
    case False
    with Cons.IH [of "Suc i"] show ?thesis
      by (auto simp: entry_of_same intro!: exI [of _ 0])
  qed
qed simp

text \<open>One answer, given the object that \<open>Get\<close> returned: nothing is to be changed, or one update.\<close>

lemma handle_response_found:
  assumes md: "Metadata (Request resp) = Meta \<lparr>meta_name = nm, meta_namespace = ns\<rparr>"
    and get: "api_Get K api ns nm = ((r, False), api1)"
    and sts: "status_of r = map Some sts" and named: "Namespace r = ns"
  shows "(\<exists>x\<in>{api, api1}. handle_response K api resp = Inr x \<and> status_after resp sts = sts)
    \<or> handle_response K api resp = Inr (snd (api_Update K api1 ns (set_status (map Some (status_after resp sts)) r)))"
proof -
  let ?h = "HostName (Request resp)" and ?c = "CIDR (Request resp)"
  have add: "add_status K api resp = Inr (snd (api_Update K api1 ns
      (set_status (map Some (status_put ?h ?c (RespIPAddr resp) sts)) r)))"
    unfolding written_status [of resp sts, symmetric]
    by (simp add: add_status_def md get sts write_ip_plain named Let_def)
  have remove: "remove_status K api resp = Inr api1 \<and> status_drop ?h ?c sts = sts
    \<or> remove_status K api resp = Inr (snd (api_Update K api1 ns (set_status (map Some (status_drop ?h ?c sts)) r)))"
  proof (cases "list_ex (entry_of resp) sts")
    case True
    with last_index_plain [of resp sts 0 None] obtain k where
      "last_index resp 0 None (map Some sts) = Inr (Some k)"
      "status_drop ?h ?c sts = take k sts @ drop (Suc k) sts" by auto
    then show ?thesis by (auto simp: remove_status_def md get sts named take_map drop_map)
  next
    case False
    with last_index_plain [of resp sts 0 None] show ?thesis
      by (simp add: remove_status_def md get sts status_drop_none entry_of_same)
  qed
  show ?thesis using add remove by (auto simp: handle_response_def status_after_def Let_def)
qed

text \<open>No object: an error of \<open>Get\<close> ends the answer, or the empty object has no entry.\<close>

lemma handle_response_none:
  assumes "Metadata (Request resp) = Meta \<lparr>meta_name = nm, meta_namespace = ns\<rparr>"
    and "api_Get K api ns nm = ((zero_F5IPAM, True), api1)"
  shows "\<exists>x\<in>{api, api1}. handle_response K api resp = Inr x"
  using assms by (auto simp: handle_response_def add_status_def remove_status_def zero_F5IPAM_def)

section \<open>The API\<close>

definition with_version :: "string \<Rightarrow> F5IPAM \<Rightarrow> F5IPAM" where
  "with_version v r = r\<lparr>ResourceVersion := v\<rparr>"

definition api_status :: "('api \<Rightarrow> string \<times> string \<Rightarrow> F5IPAM option) \<Rightarrow> 'api \<Rightarrow> string \<times> string \<Rightarrow> IPSpec option list option" where
  "api_status stored api k = map_option status_of (stored api k)"

lemma api_status_cong: "stored api' = stored api \<Longrightarrow> api_status stored api' = api_status stored api"
  by (simp add: api_status_def fun_eq_iff)

text \<open>
  What an API server promises when calls may fail: \<open>Get\<close> returns the stored object or fails
  with the empty one, \<open>Update\<close> of a stored object replaces it or changes nothing.
\<close>

locale kube_faulty =
  fixes K :: "'api kube_api"
    and stored :: "'api \<Rightarrow> string \<times> string \<Rightarrow> F5IPAM option"
  assumes stored_named: "stored api (ns, nm) = Some r \<Longrightarrow> Namespace r = ns \<and> Name r = nm"
    and get_any: "\<exists>api'. stored api' = stored api \<and>
       (api_Get K api ns nm = ((zero_F5IPAM, True), api')
        \<or> (\<exists>r. stored api (ns, nm) = Some r \<and> api_Get K api ns nm = ((r, False), api')))"
    and update_any: "stored api (ns, nm) = Some r \<Longrightarrow>
       \<exists>e v api'. api_Update K api ns (set_status sts r) = (e, api')
         \<and> stored api' = (if e then stored api else (stored api)((ns, nm) \<mapsto> with_version v (set_status sts r)))"
begin

text \<open>An answer is written or lost; it never panics and changes no other status.\<close>

lemma handle_any:
  assumes md: "Metadata (Request resp) = Meta \<lparr>meta_name = nm, meta_namespace = ns\<rparr>"
    and some: "api_status stored api (ns, nm) = Some (map Some sts)"
  shows "\<exists>api'. handle_response K api resp = Inr api' \<and>
     (api_status stored api' = api_status stored api
      \<or> api_status stored api' = (api_status stored api)((ns, nm) \<mapsto> map Some (status_after resp sts)))"
proof -
  obtain api1 where same: "stored api1 = stored api" and get: "api_Get K api ns nm = ((zero_F5IPAM, True), api1)
        \<or> (\<exists>r. stored api (ns, nm) = Some r \<and> api_Get K api ns nm = ((r, False), api1))"
    using get_any by blast
  from get show ?thesis
  proof (elim disjE exE conjE)
    assume "api_Get K api ns nm = ((zero_F5IPAM, True), api1)"
    from handle_response_none [where K = K, OF md this] same show ?thesis by (auto intro: api_status_cong)
  next
    fix r assume r: "stored api (ns, nm) = Some r" "api_Get K api ns nm = ((r, False), api1)"
    then have sts: "status_of r = map Some sts" and named: "Namespace r = ns"
      using some stored_named [OF r(1)] by (simp_all add: api_status_def)
    from handle_response_found [where K = K, OF md r(2) sts named] show ?thesis
    proof (elim disjE bexE conjE)
      fix x assume "x \<in> {api, api1}" "handle_response K api resp = Inr x"
      with same show ?thesis by (auto intro: api_status_cong)
    next
      assume upd: "handle_response K api resp =
          Inr (snd (api_Update K api1 ns (set_status (map Some (status_after resp sts)) r)))"
      have "stored api1 (ns, nm) = Some r" using r(1) same by simp
      from update_any [OF this, of "map Some (status_after resp sts)"] obtain e v api' where
        "api_Update K api1 ns (set_status (map Some (status_after resp sts)) r) = (e, api')"
        "stored api' = (if e then stored api1 else (stored api1)((ns, nm) \<mapsto> with_version v (set_status (map Some (status_after resp sts)) r)))"
        by blast
      with upd same show ?thesis
        by (cases e) (auto simp: api_status_def with_version_def fun_eq_iff)
    qed
  qed
qed

end

text \<open>A server whose calls succeed.\<close>

locale kube_server =
  fixes K :: "'api kube_api"
    and stored :: "'api \<Rightarrow> string \<times> string \<Rightarrow> F5IPAM option"
  assumes stored_named: "stored api (ns, nm) = Some r \<Longrightarrow> Namespace r = ns \<and> Name r = nm"
    and get_found: "stored api (ns, nm) = Some r \<Longrightarrow>
       \<exists>api'. api_Get K api ns nm = ((r, False), api') \<and> stored api' = stored api"
    and get_missing: "stored api (ns, nm) = None \<Longrightarrow>
       \<exists>api'. api_Get K api ns nm = ((zero_F5IPAM, True), api') \<and> stored api' = stored api"
    and update_current: "stored api (ns, nm) = Some r \<Longrightarrow>
       \<exists>v api'. api_Update K api ns (set_status sts r) = (False, api')
         \<and> stored api' = (stored api)((ns, nm) \<mapsto> with_version v (set_status sts r))"

sublocale kube_server \<subseteq> faulty: kube_faulty K stored
proof (unfold_locales, goal_cases)
  case (1 api ns nm r)
  then show ?case by (rule stored_named)
next
  case (2 api ns nm)
  show ?case
  proof (cases "stored api (ns, nm)")
    case None
    then show ?thesis using get_missing [OF None] by blast
  next
    case (Some r)
    then show ?thesis using get_found [OF Some] by blast
  qed
next
  case (3 api ns nm r sts)
  from update_current [OF this, of sts] show ?case by fastforce
qed

context kube_server
begin

lemma is_faulty: "kube_faulty K stored"
  by (rule faulty.kube_faulty_axioms)

lemma update_status:
  assumes "stored api (ns, nm) = Some r"
  shows "\<exists>e api'. api_Update K api ns (set_status sts r) = (e, api')
     \<and> api_status stored api' = (api_status stored api)((ns, nm) \<mapsto> sts)"
  using update_current [OF assms, of sts] by (fastforce simp: api_status_def with_version_def)

text \<open>An answer for a resource that is gone changes nothing.\<close>

lemma handle_missing:
  assumes md: "Metadata (Request resp) = Meta \<lparr>meta_name = nm, meta_namespace = ns\<rparr>"
    and none: "api_status stored api (ns, nm) = None"
  shows "\<exists>api'. handle_response K api resp = Inr api' \<and> api_status stored api' = api_status stored api"
proof -
  have "stored api (ns, nm) = None" using none by (simp add: api_status_def)
  then obtain api1 where "api_Get K api ns nm = ((zero_F5IPAM, True), api1)" "stored api1 = stored api"
    using get_missing by blast
  with handle_response_none [where K = K, OF md this(1)] show ?thesis
    by (auto simp: api_status_def fun_eq_iff)
qed

text \<open>An answer for a stored resource.\<close>

lemma handle_found:
  assumes md: "Metadata (Request resp) = Meta \<lparr>meta_name = nm, meta_namespace = ns\<rparr>"
    and some: "api_status stored api (ns, nm) = Some (map Some sts)"
  shows "\<exists>api'. handle_response K api resp = Inr api' \<and>
     api_status stored api' = (api_status stored api)((ns, nm) \<mapsto> map Some (status_after resp sts))"
proof -
  obtain r where r: "stored api (ns, nm) = Some r" "status_of r = map Some sts"
    using some by (auto simp: api_status_def)
  have named: "Namespace r = ns" using stored_named [OF r(1)] by simp
  obtain api1 where get: "api_Get K api ns nm = ((r, False), api1)" "stored api1 = stored api"
    using get_found [OF r(1)] by blast
  then have r1: "stored api1 (ns, nm) = Some r" and at: "api_status stored api1 = api_status stored api"
    using r(1) by (simp_all add: api_status_def fun_eq_iff)
  have keep: "(api_status stored api)((ns, nm) \<mapsto> map Some sts) = api_status stored api"
    using some by (simp add: fun_upd_idem)
  from handle_response_found [where K = K, OF md get(1) r(2) named] show ?thesis
  proof (elim disjE bexE conjE)
    fix x assume "x \<in> {api, api1}" "handle_response K api resp = Inr x" "status_after resp sts = sts"
    with at keep show ?thesis by auto
  next
    assume "handle_response K api resp =
        Inr (snd (api_Update K api1 ns (set_status (map Some (status_after resp sts)) r)))"
    with update_status [OF r1, of "map Some (status_after resp sts)"] at show ?thesis by auto
  qed
qed

text \<open>Answers for several resources: each changes its own status.\<close>

definition resp_key :: "IPAMResponse \<Rightarrow> string \<times> string" where
  "resp_key resp = (case Metadata (Request resp) of
     Meta md \<Rightarrow> (meta_namespace md, meta_name md) | NoMetadata \<Rightarrow> ([], []))"

lemma processResponse_found:
  assumes "list_all (\<lambda>resp. Metadata (Request resp) = Meta \<lparr>meta_name = nm, meta_namespace = ns\<rparr>) resps"
    and "api_status stored api (ns, nm) = Some (map Some sts)"
  shows "\<exists>api'. processResponse K api resps = Inr api' \<and>
     api_status stored api' = (api_status stored api)((ns, nm) \<mapsto> map Some (fold status_after resps sts))"
  using assms
proof (induction resps arbitrary: api sts)
  case Nil
  then show ?case by (simp add: fun_upd_idem)
next
  case (Cons resp resps)
  obtain api1 where one: "handle_response K api resp = Inr api1"
    "api_status stored api1 = (api_status stored api)((ns, nm) \<mapsto> map Some (status_after resp sts))"
    using handle_found [of resp nm ns api sts] Cons.prems by auto
  have "api_status stored api1 (ns, nm) = Some (map Some (status_after resp sts))" using one(2) by simp
  with Cons.IH [of api1 "status_after resp sts"] Cons.prems(1) obtain api2 where
    "processResponse K api1 resps = Inr api2"
    "api_status stored api2 = (api_status stored api1)((ns, nm) \<mapsto> map Some (fold status_after resps (status_after resp sts)))"
    by (auto simp del: fun_upd_apply)
  with one show ?case by (intro exI [of _ api2]) (simp only: processResponse.simps go_bind_Inr
        fold_simps fun_upd_upd simp_thms)
qed

lemma responses_written:
  assumes "list_all (\<lambda>resp. Metadata (Request resp) = Meta \<lparr>meta_name = nm, meta_namespace = ns\<rparr>) resps"
    and "map_option status_of (stored api (ns, nm)) = Some (map Some sts)"
  shows "\<exists>api'. processResponse K api resps = Inr api'
    \<and> (\<forall>k. map_option status_of (stored api' k) =
        (if k = (ns, nm) then Some (map Some (fold status_after resps sts))
         else map_option status_of (stored api k)))"
proof -
  have "api_status stored api (ns, nm) = Some (map Some sts)" using assms(2) by (simp only: api_status_def)
  from processResponse_found [OF assms(1) this] obtain api' where
    "processResponse K api resps = Inr api'"
    "api_status stored api' = (api_status stored api)((ns, nm) \<mapsto> map Some (fold status_after resps sts))" by blast
  then show ?thesis unfolding api_status_def fun_eq_iff fun_upd_apply by blast
qed

lemma responses_written_at:
  assumes "list_all (\<lambda>resp. Metadata (Request resp) = Meta \<lparr>meta_name = nm, meta_namespace = ns\<rparr>) resps"
    and "map_option status_of (stored api (ns, nm)) = Some (map Some sts)"
  shows "\<exists>api'. processResponse K api resps = Inr api'
    \<and> map_option status_of (stored api' (ns, nm)) = Some (map Some (fold status_after resps sts))"
proof -
  from responses_written [OF assms] obtain api' where run: "processResponse K api resps = Inr api'"
    and st: "\<forall>k. map_option status_of (stored api' k) =
        (if k = (ns, nm) then Some (map Some (fold status_after resps sts))
         else map_option status_of (stored api k))" by blast
  have "map_option status_of (stored api' (ns, nm)) = Some (map Some (fold status_after resps sts))"
    using st by (simp only: if_P simp_thms)
  with run show ?thesis by blast
qed

text \<open>Answers for a resource that is gone change nothing.\<close>

lemma responses_missing:
  assumes "list_all (\<lambda>resp. Metadata (Request resp) = Meta \<lparr>meta_name = nm, meta_namespace = ns\<rparr>) resps"
    and "stored api (ns, nm) = None"
  shows "\<exists>api'. processResponse K api resps = Inr api'
    \<and> (\<forall>k. map_option status_of (stored api' k) = map_option status_of (stored api k))"
proof -
  have "\<exists>api'. processResponse K api resps = Inr api' \<and> api_status stored api' = api_status stored api"
    if "api_status stored api (ns, nm) = None" for api
    using assms(1) that
  proof (induction resps arbitrary: api)
    case (Cons resp resps)
    obtain api1 where one: "handle_response K api resp = Inr api1" "api_status stored api1 = api_status stored api"
      using handle_missing [of resp nm ns api] Cons.prems by auto
    with Cons.IH [of api1] Cons.prems show ?case by auto
  qed simp
  from this [of api] assms(2) show ?thesis unfolding api_status_def fun_eq_iff by auto
qed

end

section \<open>A reference API\<close>

definition ref_find :: "F5IPAM list \<Rightarrow> string \<times> string \<Rightarrow> F5IPAM option" where
  "ref_find rs k = List.find (\<lambda>r. (Namespace r, Name r) = k) rs"

definition kube_ref :: "F5IPAM list kube_api" where
  "kube_ref =
     \<lparr>api_Get = (\<lambda>rs ns nm. ((case ref_find rs (ns, nm) of None \<Rightarrow> (zero_F5IPAM, True) | Some r \<Rightarrow> (r, False)), rs)),
      api_Update = (\<lambda>rs ns r.
        (case ref_find rs (ns, Name r) of
           None \<Rightarrow> (True, rs)
         | Some old \<Rightarrow>
             if ResourceVersion old \<noteq> ResourceVersion r then (True, rs)
             else (False, map (\<lambda>x. if (Namespace x, Name x) = (ns, Name r)
                              then with_version (CHR ''v'' # ResourceVersion r) r\<lparr>Namespace := ns\<rparr> else x) rs)))\<rparr>"

lemma ref_find_named: "ref_find rs (ns, nm) = Some r \<Longrightarrow> Namespace r = ns \<and> Name r = nm"
  by (auto simp: ref_find_def dest: find_SomeD)

lemma ref_find_map:
  assumes "(Namespace y, Name y) = k" and "ref_find rs k \<noteq> None"
  shows "ref_find (map (\<lambda>x. if (Namespace x, Name x) = k then y else x) rs) = (ref_find rs)(k \<mapsto> y)"
proof
  fix j
  show "ref_find (map (\<lambda>x. if (Namespace x, Name x) = k then y else x) rs) j = ((ref_find rs)(k \<mapsto> y)) j"
  proof (cases "j = k")
    case True
    then show ?thesis using assms unfolding ref_find_def by (induction rs) (auto split: if_splits)
  next
    case False
    have "find (\<lambda>r. (Namespace r, Name r) = j) (map (\<lambda>x. if (Namespace x, Name x) = k then y else x) rs) =
        find (\<lambda>r. (Namespace r, Name r) = j) rs"
      using False assms(1) by (induction rs) auto
    with False show ?thesis by (simp add: ref_find_def)
  qed
qed

interpretation kube: kube_server kube_ref ref_find
proof (unfold_locales, goal_cases)
  case (4 rs ns nm r sts)
  note n = ref_find_named [OF 4]
  let ?y = "with_version (CHR ''v'' # ResourceVersion r) (set_status sts r)"
  have y: "?y\<lparr>Namespace := ns\<rparr> = ?y" "(Namespace ?y, Name ?y) = (ns, nm)"
    using n by (simp_all add: with_version_def set_status_def)
  have "api_Update kube_ref rs ns (set_status sts r) =
      (False, map (\<lambda>x. if (Namespace x, Name x) = (ns, nm) then ?y else x) rs)"
    using 4 n y(1) by (simp add: kube_ref_def)
  moreover have "ref_find (map (\<lambda>x. if (Namespace x, Name x) = (ns, nm) then ?y else x) rs) =
      (ref_find rs)((ns, nm) \<mapsto> ?y)"
    using 4 by (intro ref_find_map [OF y(2)]) simp
  ultimately show ?case by blast
qed (auto simp: kube_ref_def dest: ref_find_named)

end
