(* ===== verification/Examples.thy ===== *)
theory Examples
  imports Answers Events StatusWriter
begin

text \<open>
  Concrete states on the reference database and the reference API, on which the properties
  are evaluated: the pool \<open>192.168.1.1\<close> to \<open>192.168.1.3\<close>, and a few custom resources.
\<close>

definition ex_entries :: "v4_entry list" where
  "ex_entries = [(3232235777, 3232235779, 24)]"

definition ex_cidr :: string where
  "ex_cidr = ''192.168.1.0/24''"

definition manager_of :: "'db ipam_ptr option go \<Rightarrow> 'db ipam_ptr" where
  "manager_of r = (case r of Inr (Some m) \<Rightarrow> m | _ \<Rightarrow> None)"

definition controller_of :: "'m Controller go \<Rightarrow> 'm Controller" where
  "controller_of r = (case r of Inr c \<Rightarrow> c | Inl _ \<Rightarrow> \<lparr>Manager = None, pending = []\<rparr>)"

definition ex_rows :: "int list \<Rightarrow> range_row list" where
  "ex_rows sts = map (\<lambda>(i, ip, st). \<lparr>row_id = i, row_ip = ip, row_status = st, row_cidr = ex_cidr\<rparr>)
     (zip [1, 2, 3] (zip [''192.168.1.1'', ''192.168.1.2'', ''192.168.1.3''] sts))"

definition ex_state :: "int list \<Rightarrow> (string \<times> string) list \<Rightarrow> ref_db ipam_ptr" where
  "ex_state sts recs =
     Some \<lparr>provider = \<lparr>store = (\<lparr>ranges = ex_rows sts, a_records = recs, next_id = 4\<rparr>,
                                 [''a_records'', ''ipaddress_range'']),
                     cidrs = [(ex_cidr, True)]\<rparr>\<rparr>"

text \<open>The manager after its construction, and after \<open>a.com\<close> and \<open>b.com\<close> got addresses.\<close>

definition ex_mgr :: "ref_db ipam_ptr" where
  "ex_mgr = ex_state [1, 1, 1] []"

definition ex_mgr2 :: "ref_db ipam_ptr" where
  "ex_mgr2 = ex_state [0, 0, 1] [(''192.168.1.1'', ''a.com''), (''192.168.1.2'', ''b.com'')]"

definition ex_db :: "ref_db ipam_ptr \<Rightarrow> ref_db" where
  "ex_db m = store (provider (the m))"

lemma ex_db_book:
  "ref_tables (ex_db ex_mgr) = mgr_book ref_tables ex_mgr"
  "ref_tables (ex_db ex_mgr2) = mgr_book ref_tables ex_mgr2"
  by (simp_all add: ex_db_def ex_mgr_def ex_mgr2_def ex_state_def)

definition ex_reqs :: "IPAMRequest list" where
  "ex_reqs = [create_request NoMetadata ''a.com'' ex_cidr [], create_request NoMetadata ''b.com'' ex_cidr []]"

lemma ex_entries_ok:
  "ex_entries \<noteq> []" "list_all valid_entry ex_entries" "distinct (all_ips ex_entries)"
  by code_simp+

lemma ex_mgr_start:
  "NewManager ref_driver \<lparr>Provider = F5IPAMProvider, Range = range_text ex_entries\<rparr> = Inr (Some ex_mgr)"
  by code_simp

lemma ex_mgr2_run:
  "runController (ipam_manager ref_driver) (NewController (Some ex_mgr)) ex_reqs =
     Inr \<lparr>Manager = Some ex_mgr2, pending =
       [reply (create_request NoMetadata ''a.com'' ex_cidr []) ''192.168.1.1'' True,
        reply (create_request NoMetadata ''b.com'' ex_cidr []) ''192.168.1.2'' True]\<rparr>"
  by code_simp

lemma ex_mgr_ok:
  "mgr_wf ref_tables ex_mgr" "mgr_wf ref_tables ex_mgr2"
  "book_ok (mgr_book ref_tables ex_mgr)" "book_ok (mgr_book ref_tables ex_mgr2)"
  unfolding book_ok_def by code_simp+

lemma ex_literals:
  "sql_literal ''a.com''" "sql_literal ''b.com''" "sql_literal ''c.com''" "sql_literal ex_cidr"
  "sql_literal ''192.168.1.2''"
  by code_simp+

lemma ex_pool:
  "concat (map (\<lambda>(s, e, p). map (\<lambda>n. (v4_text n, v4_cidr e p)) (pool_addresses s e p)) ex_entries) =
     [(''192.168.1.1'', ex_cidr), (''192.168.1.2'', ex_cidr), (''192.168.1.3'', ex_cidr)]"
proof -
  have "pool_addresses 3232235777 3232235779 24 = [3232235777, 3232235778, 3232235779]"
    "v4_cidr 3232235779 24 = ex_cidr" "v4_text 3232235777 = ''192.168.1.1''"
    "v4_text 3232235778 = ''192.168.1.2''" "v4_text 3232235779 = ''192.168.1.3''"
    by code_simp+
  then show ?thesis by (simp add: ex_entries_def)
qed

text \<open>A custom resource.\<close>

definition ex_rsc :: "HostSpec option list \<Rightarrow> IPSpec option list \<Rightarrow> F5IPAM" where
  "ex_rsc hs sts = \<lparr>Name = ''ipam'', Namespace = ''kube-system'', ResourceVersion = [],
     Spec = \<lparr>HostSpecs = hs\<rparr>, RscStatus = \<lparr>IPStatus = sts\<rparr>\<rparr>"

abbreviation "ex_meta \<equiv> Meta \<lparr>meta_name = ''ipam'', meta_namespace = ''kube-system''\<rparr>"

lemma ex_rsc_stored:
  "map_option status_of (ref_find [ex_rsc hs sts] (''kube-system'', ''ipam'')) = Some sts"
  by (simp add: ref_find_def ex_rsc_def)

end
