(* ===== verification/Agreement.thy ===== *)
theory Agreement
  imports Answers StatusWriter
begin

text \<open>
  The status list of a resource and the records of the address book, when the answers are
  written in the order of the requests: the entries of the list are the records. Each host
  is asked for in one network only, as an entry is found by host and network and a record
  by host.
\<close>

section \<open>Entries and records\<close>

definition shown :: "IPSpec list \<Rightarrow> (string \<times> string) set" where
  "shown sts = (\<lambda>s. (ips_IP s, ips_Host s)) ` set sts"

definition agrees :: "(string \<Rightarrow> string) \<Rightarrow> IPSpec list \<Rightarrow> tables \<Rightarrow> bool" where
  "agrees net sts t \<longleftrightarrow> distinct (map ips_Host sts) \<and> list_all (\<lambda>s. ips_Cidr s = net (ips_Host s)) sts
     \<and> shown sts = set (a_records t)"

definition one_net :: "(string \<Rightarrow> string) \<Rightarrow> IPAMRequest \<Rightarrow> bool" where
  "one_net net req \<longleftrightarrow> CIDR req = net (HostName req) \<and>
     (Operation req = OP_CREATE \<and> IPAddr req = [] \<or> Operation req = OP_DELETE)"

lemma agrees_same:
  "agrees net sts t \<Longrightarrow> s \<in> set sts \<Longrightarrow> same_entry h (net h) s \<longleftrightarrow> ips_Host s = h"
  by (auto simp: agrees_def same_entry_def list_all_iff)

lemma agrees_keys: "agrees net sts t \<Longrightarrow> distinct (map status_key sts)"
  by (auto simp: agrees_def distinct_map inj_on_def status_key_def)

lemma shown_hosts: "snd ` shown sts = ips_Host ` set sts"
  by (simp add: shown_def image_image)

lemma agrees_records: "agrees net sts t \<Longrightarrow> set (a_records t) = shown sts"
  by (simp add: agrees_def)

lemma agrees_hosts: "agrees net sts t \<Longrightarrow> ips_Host ` set sts = snd ` set (a_records t)"
  by (simp add: agrees_records shown_hosts)

lemma agrees_drop:
  assumes "agrees net sts t"
  shows "status_drop h (net h) sts = filter (\<lambda>s. ips_Host s \<noteq> h) sts"
  using agrees_same [OF assms] by (auto simp: status_drop_filter [OF agrees_keys [OF assms]] intro: filter_cong)

lemma agrees_put:
  assumes ag: "agrees net sts t"
  shows "status_put h (net h) ip sts =
     (if h \<in> snd ` set (a_records t) then map (\<lambda>s. if ips_Host s = h then s\<lparr>ips_IP := ip\<rparr> else s) sts
      else sts @ [\<lparr>ips_Host = h, ips_Cidr = net h, ips_IP = ip\<rparr>])"
proof -
  have "list_ex (same_entry h (net h)) sts \<longleftrightarrow> h \<in> snd ` set (a_records t)"
    using agrees_same [OF ag] by (auto simp: list_ex_iff simp flip: agrees_hosts [OF ag])
  then show ?thesis using agrees_same [OF ag] by (auto simp: status_put_def)
qed

text \<open>An entry that already has the address.\<close>

lemma agrees_put_again:
  assumes ag: "agrees net sts t" and rec: "(ip, h) \<in> set (a_records t)"
  shows "status_put h (net h) ip sts = sts"
proof -
  obtain s where s: "s \<in> set sts" "ips_Host s = h" "ips_IP s = ip"
    using rec unfolding agrees_records [OF ag] by (auto simp: shown_def)
  have "s' = s" if "s' \<in> set sts" "ips_Host s' = h" for s'
    using ag that s by (auto simp: agrees_def distinct_map inj_on_def)
  moreover have "s\<lparr>ips_IP := ip\<rparr> = s" using s(3) by (cases s) simp
  ultimately have "(if ips_Host s' = h then s'\<lparr>ips_IP := ip\<rparr> else s') = s'" if "s' \<in> set sts" for s'
    using that by metis
  then have "map (\<lambda>s. if ips_Host s = h then s\<lparr>ips_IP := ip\<rparr> else s) sts = sts"
    by (rule map_idI)
  moreover have "h \<in> snd ` set (a_records t)" using rec by force
  ultimately show ?thesis by (simp add: agrees_put [OF ag])
qed

lemma agrees_append:
  assumes "agrees net sts t" and "h \<notin> snd ` set (a_records t)"
    and "a_records t' = a_records t @ [(ip, h)]"
  shows "agrees net (sts @ [\<lparr>ips_Host = h, ips_Cidr = net h, ips_IP = ip\<rparr>]) t'"
  using assms(1,2) unfolding agrees_hosts [OF assms(1), symmetric]
  by (auto simp: agrees_def assms(3) shown_def)

lemma agrees_filter:
  assumes ag: "agrees net sts t" and rec: "(ip, h) \<in> set (a_records t)"
    and t': "a_records t' = filter (\<lambda>r. r \<noteq> (ip, h)) (a_records t)"
  shows "agrees net (filter (\<lambda>s. ips_Host s \<noteq> h) sts) t'"
proof -
  have only: "ips_IP s = ip" if "s \<in> set sts" "ips_Host s = h" for s
  proof -
    obtain s' where "s' \<in> set sts" "ips_Host s' = h" "ips_IP s' = ip"
      using rec unfolding agrees_records [OF ag] by (auto simp: shown_def)
    then show ?thesis using ag that by (auto simp: agrees_def distinct_map inj_on_def)
  qed
  then have "shown (filter (\<lambda>s. ips_Host s \<noteq> h) sts) = {x \<in> shown sts. x \<noteq> (ip, h)}"
    by (auto simp: shown_def)
  then show ?thesis
    using ag unfolding agrees_def t' by (auto simp: distinct_map_filter list_all_iff)
qed

definition after_answer :: "IPAMResponse option \<Rightarrow> IPSpec list \<Rightarrow> IPSpec list" where
  "after_answer resp sts = (case resp of None \<Rightarrow> sts | Some r \<Rightarrow> status_after r sts)"

lemma agrees_serve:
  assumes ag: "agrees net sts t" and nl: "no_leak bindable t" and req: "one_net net req"
  shows "agrees net (after_answer (fst (book_serve bindable in_net req t)) sts)
     (snd (book_serve bindable in_net req t))"
proof -
  let ?h = "HostName req" and ?ip = "bk_lookup (HostName req) t"
  have ok: "book_ok t" and all: "list_all bindable (map row_ip (ranges t))" using nl by (simp_all add: no_leak_def)
  have b: "bindable ip" if "(ip, h) \<in> set (a_records t)" for ip h
    by (rule alloc_bindable [OF all bound_in_pool [OF ok that]])
  have bound: "(?ip, ?h) \<in> set (a_records t)" if "?ip \<noteq> []" using bk_lookup_bound [OF refl that] .
  have net: "CIDR req = net ?h" using req by (simp add: one_net_def)
  consider (create) "Operation req = OP_CREATE" "IPAddr req = []" | (delete) "Operation req = OP_DELETE"
    using req by (auto simp: one_net_def)
  then show ?thesis
  proof cases
    case create
    show ?thesis
    proof (cases "?ip = []")
      case False
      then show ?thesis
        using create ag agrees_put_again [OF ag bound]
        by (simp add: after_answer_def book_serve_def book_create_def reply_def status_after_def net)
    next
      case none: True
      then have h: "?h \<notin> snd ` set (a_records t)" using bk_lookup_unbound [OF ok] by simp
      let ?nx = "fst (bk_next (net ?h) t)" and ?t = "snd (bk_next (net ?h) t)"
      show ?thesis
      proof (cases "?nx = []")
        case True
        then show ?thesis
          using create none ag by (simp add: after_answer_def book_serve_def book_create_def net agrees_def)
      next
        case False
        then obtain r where r: "tb_available (net ?h) t = Some r" "row_ip r = ?nx"
          by (auto simp: bk_next_def split: option.splits)
        then have "?nx \<in> row_ip ` set (ranges t)" using tb_available_SomeD [OF r(1)] by force
        then have "bindable ?nx" by (rule alloc_bindable [OF all])
        then have "snd (book_serve bindable in_net req t) = bk_bind ?h ?nx ?t"
          and "after_answer (fst (book_serve bindable in_net req t)) sts =
            sts @ [\<lparr>ips_Host = ?h, ips_Cidr = net ?h, ips_IP = ?nx\<rparr>]"
          using create none False h
          by (simp_all add: after_answer_def book_serve_def book_create_def reply_def status_after_def net
              book_bind_def agrees_put [OF ag])
        then show ?thesis using agrees_append [OF ag h] by simp
      qed
    qed
  next
    case delete
    show ?thesis
    proof (cases "?ip = []")
      case True
      then have "?h \<notin> ips_Host ` set sts"
        using bk_lookup_unbound [OF ok] by (simp add: agrees_hosts [OF ag])
      then have "filter (\<lambda>s. ips_Host s \<noteq> ?h) sts = sts"
        unfolding filter_id_conv by (metis image_eqI)
      then show ?thesis
        using delete True ag
        by (simp add: after_answer_def book_serve_def book_delete_def reply_def status_after_def net
            agrees_drop [OF ag])
    next
      case False
      then show ?thesis
        using delete agrees_filter [OF ag bound [OF False]] b [OF bound [OF False]]
        by (simp add: after_answer_def book_serve_def book_delete_def reply_def status_after_def net
            agrees_drop [OF ag] Let_def)
    qed
  qed
qed

section \<open>Records in their network\<close>

text \<open>The address of a host is a row of the network the host is asked for in.\<close>

definition filed :: "(string \<Rightarrow> string) \<Rightarrow> tables \<Rightarrow> bool" where
  "filed net t \<longleftrightarrow> (\<forall>(ip, h)\<in>set (a_records t). (ip, net h) \<in> set (zip (map row_ip (ranges t)) (map row_cidr (ranges t))))"

lemma filed_row:
  "filed net t \<longleftrightarrow> (\<forall>(ip, h)\<in>set (a_records t). \<exists>r\<in>set (ranges t). row_ip r = ip \<and> row_cidr r = net h)"
  by (fastforce simp: filed_def zip_map_map zip_same_conv_map)

lemma filed_serve:
  assumes fl: "filed net t" and req: "one_net net req"
  shows "filed net (snd (book_serve bindable in_net req t))"
proof -
  let ?t = "snd (book_serve bindable in_net req t)" and ?h = "HostName req"
  have "set (a_records ?t) \<subseteq> set (a_records t) \<union> {(row_ip r, ?h) | r. r \<in> set (ranges t) \<and> row_cidr r = net ?h}"
    using req tb_available_SomeD
    by (auto simp: book_serve_def book_create_def book_delete_def book_bind_def one_net_def bk_next_def Let_def
        split: option.splits if_splits)
  then have "(ip, net h) \<in> set (zip (map row_ip (ranges t)) (map row_cidr (ranges t)))"
    if "(ip, h) \<in> set (a_records ?t)" for ip h
    using that fl by (fastforce simp: filed_def zip_map_map zip_same_conv_map)
  then show ?thesis by (auto simp: filed_def)
qed

definition settled :: "(string \<Rightarrow> bool) \<Rightarrow> (string \<Rightarrow> string) \<Rightarrow> IPSpec list \<Rightarrow> tables \<Rightarrow> bool" where
  "settled bindable net sts t \<longleftrightarrow> agrees net sts t \<and> no_leak bindable t \<and> filed net t"

lemma settled_shown:
  assumes "settled bindable net sts t"
  shows "distinct (map ips_Host sts)" and "distinct (map ips_IP sts)"
    and "list_all (\<lambda>s. ips_Cidr s = net (ips_Host s)) sts"
    and "(\<lambda>s. (ips_IP s, ips_Host s)) ` set sts = set (a_records t)"
    and "ips_IP ` set sts \<subseteq> row_ip ` set (ranges t)"
proof -
  have ag: "agrees net sts t" and ok: "book_ok t" using assms by (simp_all add: settled_def no_leak_def)
  show hosts: "distinct (map ips_Host sts)" and "list_all (\<lambda>s. ips_Cidr s = net (ips_Host s)) sts"
    and eq: "(\<lambda>s. (ips_IP s, ips_Host s)) ` set sts = set (a_records t)"
    using ag by (simp_all add: agrees_def shown_def)
  have rec: "(ips_IP s, ips_Host s) \<in> set (a_records t)" if "s \<in> set sts" for s
    unfolding eq [symmetric] using that by blast
  have "inj_on ips_IP (set sts)"
  proof (rule inj_onI)
    fix a b assume ab: "a \<in> set sts" "b \<in> set sts" "ips_IP a = ips_IP b"
    then have "ips_Host a = ips_Host b" using book_exclusive [OF ok] rec by metis
    then show "a = b" using ab hosts by (auto simp: distinct_map inj_on_def)
  qed
  then show "distinct (map ips_IP sts)" using hosts by (simp add: distinct_map)
  show "ips_IP ` set sts \<subseteq> row_ip ` set (ranges t)" using rec bound_in_pool [OF ok] by fastforce
qed

lemma settled_serve [inv_keep]:
  assumes "settled bindable net sts t" and "one_net net req"
  shows "settled bindable net (after_answer (fst (book_serve bindable in_net req t)) sts)
     (snd (book_serve bindable in_net req t))"
  using assms agrees_serve no_leak_serve filed_serve by (metis settled_def)

lemma book_run_answers:
  assumes "\<And>req t sts. req \<in> set reqs \<Longrightarrow> I sts t \<Longrightarrow>
       I (after_answer (fst (book_serve bindable in_net req t)) sts) (snd (book_serve bindable in_net req t))"
    and "I sts t"
  shows "I (fold status_after (fst (book_run bindable in_net reqs t)) sts) (snd (book_run bindable in_net reqs t))"
  using assms
proof (induction reqs arbitrary: sts t)
  case (Cons req reqs)
  let ?out = "book_serve bindable in_net req t"
  have "I (after_answer (fst ?out) sts) (snd ?out)" using Cons.prems by simp
  with Cons.IH [of "after_answer (fst ?out) sts" "snd ?out"] Cons.prems(1) show ?case
    by (auto simp: book_run_Cons after_answer_def simp del: book_run.simps split: option.splits)
qed simp

lemma settled_run:
  assumes "settled bindable net sts t" and "list_all (one_net net) reqs"
  shows "settled bindable net (fold status_after (fst (book_run bindable in_net reqs t)) sts)
     (snd (book_run bindable in_net reqs t))"
  using assms(2)
  by (intro book_run_answers [where I = "settled bindable net"] assms(1)) (simp add: settled_serve list_all_iff)

end
