(* ===== verification/Convergence.thy ===== *)
theory Convergence
  imports Agreement
begin

text \<open>
  When the pool is large enough the hosts with an address are the hosts asked for. A network
  with fewer hosts than rows has an available row, so a CREATE gives its host an address and
  a DELETE takes it away; runs of both then lead to the hosts of the last version of a
  resource.
\<close>

section \<open>Room in a network\<close>

definition net_size :: "string \<Rightarrow> tables \<Rightarrow> nat" where
  "net_size c t = count_list (map row_cidr (ranges t)) c"

definition in_hosts :: "(string \<Rightarrow> string) \<Rightarrow> string \<Rightarrow> string set \<Rightarrow> string set" where
  "in_hosts net c H = {h \<in> H. net h = c}"

lemma net_size_serve [simp]: "net_size c (snd (book_serve bindable in_net req t)) = net_size c t"
  by (simp add: net_size_def)

lemma net_size_card:
  assumes "pool_ok t"
  shows "net_size c t = card {r \<in> set (ranges t). row_cidr r = c}"
proof -
  have d: "distinct (ranges t)" using assms by (simp add: pool_ok_def distinct_map)
  have "count_list (map row_cidr rs) c = length (filter (\<lambda>r. row_cidr r = c) rs)" for rs
    by (induction rs) auto
  then show ?thesis using distinct_card [OF distinct_filter [OF d]] by (simp add: net_size_def)
qed

lemma full_network:
  assumes st: "settled bindable net sts t" and none: "tb_available c t = None"
  shows "net_size c t \<le> card (in_hosts net c (ips_Host ` set sts))"
proof -
  have ag: "agrees net sts t" and nl: "no_leak bindable t" and fl: "filed net t"
    using st by (simp_all add: settled_def)
  have pool: "pool_ok t" using nl by (simp add: no_leak_def book_ok_def)
  let ?R = "{r \<in> set (ranges t). row_cidr r = c}"
  have "\<exists>s\<in>set sts. ips_IP s = row_ip r \<and> net (ips_Host s) = c" if r: "r \<in> ?R" for r
  proof -
    have "row_status r = ALLOCATED"
      using r none nl by (auto simp: tb_available_None no_leak_def statuses_ok_def list_all_iff)
    then have "row_ip r \<in> fst ` set (a_records t)"
      using r nl by (auto simp: no_leak_def alloc_ips_def)
    then obtain h where h: "(row_ip r, h) \<in> set (a_records t)" by auto
    then obtain r' where r': "r' \<in> set (ranges t)" "row_ip r' = row_ip r" "row_cidr r' = net h"
      using fl by (auto simp: filed_row)
    have "r' = r" using pool r r' by (auto simp: pool_ok_def distinct_map inj_on_def)
    with r r' h show ?thesis unfolding agrees_records [OF ag] by (auto simp: shown_def)
  qed
  then obtain f where f: "\<And>r. r \<in> ?R \<Longrightarrow> f r \<in> set sts \<and> ips_IP (f r) = row_ip r \<and> net (ips_Host (f r)) = c"
    by metis
  have inj: "inj_on (ips_Host \<circ> f) ?R"
  proof (rule inj_onI)
    fix a b assume ab: "a \<in> ?R" "b \<in> ?R" "(ips_Host \<circ> f) a = (ips_Host \<circ> f) b"
    then have "f a = f b" using f ag by (auto simp: agrees_def distinct_map inj_on_def)
    then have "row_ip a = row_ip b" using f ab by metis
    then show "a = b" using ab pool by (auto simp: pool_ok_def distinct_map inj_on_def)
  qed
  have "(ips_Host \<circ> f) ` ?R \<subseteq> in_hosts net c (ips_Host ` set sts)"
    using f by (auto simp: in_hosts_def)
  from card_inj_on_le [OF inj this] show ?thesis
    by (simp add: net_size_card [OF pool] in_hosts_def)
qed

section \<open>Which hosts have an address\<close>

definition hosts_after :: "IPAMRequest list \<Rightarrow> string set \<Rightarrow> string set" where
  "hosts_after reqs H = fold (\<lambda>req H. if Operation req = OP_CREATE then insert (HostName req) H
     else H - {HostName req}) reqs H"

lemma hosts_after_simps [simp]:
  "hosts_after [] H = H"
  "hosts_after (req # reqs) H = hosts_after reqs (if Operation req = OP_CREATE
     then insert (HostName req) H else H - {HostName req})"
  "hosts_after (reqs @ reqs') H = hosts_after reqs' (hosts_after reqs H)"
  by (simp_all add: hosts_after_def)

text \<open>All prefixes keep the networks within their size.\<close>

fun room :: "(string \<Rightarrow> string) \<Rightarrow> tables \<Rightarrow> IPAMRequest list \<Rightarrow> string set \<Rightarrow> bool" where
  "room net t [] H = True"
| "room net t (req # reqs) H \<longleftrightarrow>
     (let H1 = hosts_after [req] H in
      card (in_hosts net (CIDR req) H1) \<le> net_size (CIDR req) t \<and> room net t reqs H1)"

lemma room_cong: "(\<And>c. net_size c t = net_size c t') \<Longrightarrow> room net t reqs H = room net t' reqs H"
  by (induction reqs arbitrary: H) (simp_all add: Let_def)

lemma room_append [simp]: "room net t (reqs @ reqs') H \<longleftrightarrow> room net t reqs H \<and> room net t reqs' (hosts_after reqs H)"
  by (induction reqs arbitrary: H) (simp_all add: Let_def)

lemma serve_hosts:
  assumes st: "settled bindable net sts t" and req: "one_net net req"
    and rm: "room net t [req] (ips_Host ` set sts)"
  shows "ips_Host ` set (after_answer (fst (book_serve bindable in_net req t)) sts) =
     hosts_after [req] (ips_Host ` set sts)"
proof -
  have ag: "agrees net sts t" and ok: "book_ok t" using st by (simp_all add: settled_def no_leak_def)
  let ?h = "HostName req" and ?sts = "after_answer (fst (book_serve bindable in_net req t)) sts"
  note hosts = agrees_hosts [OF ag] and net = req [unfolded one_net_def]
  show ?thesis
  proof (cases "Operation req = OP_CREATE")
    case True
    then have ip: "IPAddr req = []" using net by auto
    show ?thesis
    proof (cases "?h \<in> ips_Host ` set sts")
      case True
      then have "bk_lookup ?h t \<noteq> []" using bk_lookup_unbound [OF ok] by (simp add: hosts)
      then have "?sts = sts"
        using \<open>Operation req = OP_CREATE\<close> ip net agrees_put_again [OF ag bk_lookup_bound [OF refl]]
        by (simp add: after_answer_def book_serve_def book_create_def reply_def status_after_def)
      then show ?thesis using True \<open>Operation req = OP_CREATE\<close> by auto
    next
      case False
      have fresh: "?h \<notin> snd ` set (a_records t)" using False by (simp add: hosts)
      have "in_hosts net (CIDR req) (insert ?h (ips_Host ` set sts)) =
          insert ?h (in_hosts net (CIDR req) (ips_Host ` set sts))"
        using net by (auto simp: in_hosts_def)
      moreover have "?h \<notin> in_hosts net (CIDR req) (ips_Host ` set sts)" "finite (in_hosts net (CIDR req) (ips_Host ` set sts))"
        using False by (simp_all add: in_hosts_def)
      ultimately have "card (in_hosts net (CIDR req) (ips_Host ` set sts)) < net_size (CIDR req) t"
        using rm True by simp
      then have "tb_available (CIDR req) t \<noteq> None" using full_network [OF st, of "CIDR req"] by fastforce
      then obtain r where r: "tb_available (CIDR req) t = Some r" by blast
      then have "fst (bk_next (CIDR req) t) \<noteq> []"
        using tb_available_SomeD [OF r] ok by (force simp: bk_next_def book_ok_def pool_ok_def)
      moreover have "bk_lookup ?h t = []" using bk_lookup_unbound [OF ok] fresh by simp
      ultimately show ?thesis
        using True ip net agrees_put [OF ag, of ?h] fresh
        by (simp add: after_answer_def book_serve_def book_create_def reply_def status_after_def)
    qed
  next
    case False
    then have "Operation req = OP_DELETE" using net by auto
    then show ?thesis
      using net by (auto simp: after_answer_def book_serve_def book_delete_def reply_def status_after_def
          agrees_drop [OF ag])
  qed
qed

lemma run_hosts:
  assumes "settled bindable net sts t" and "list_all (one_net net) reqs"
    and "room net t reqs (ips_Host ` set sts)"
  shows "ips_Host ` set (fold status_after (fst (book_run bindable in_net reqs t)) sts) =
     hosts_after reqs (ips_Host ` set sts)"
  using assms
proof (induction reqs arbitrary: sts t)
  case (Cons req reqs)
  let ?out = "book_serve bindable in_net req t"
  let ?sts = "after_answer (fst ?out) sts" and ?t = "snd ?out"
  have st: "settled bindable net ?sts ?t" using Cons.prems by (intro settled_serve) simp_all
  have hs: "ips_Host ` set ?sts = hosts_after [req] (ips_Host ` set sts)"
    using serve_hosts [OF Cons.prems(1), of req in_net] Cons.prems(2,3) by (simp add: Let_def)
  have "room net t reqs (ips_Host ` set ?sts)" using Cons.prems(3) by (simp only: room.simps hs Let_def)
  then have "room net ?t reqs (ips_Host ` set ?sts)" using room_cong [of ?t t] by simp
  from Cons.IH [OF st _ this] Cons.prems(2)
  have "ips_Host ` set (fold status_after (fst (book_run bindable in_net reqs ?t)) ?sts) =
      hosts_after (req # reqs) (ips_Host ` set sts)" by (simp add: hs)
  then show ?case by (simp add: book_run_Cons after_answer_def del: book_run.simps hosts_after_simps split: option.splits)
qed simp

end
