(* ===== verification/Lifecycle.thy ===== *)
theory Lifecycle
  imports Convergence Events
begin

text \<open>
  One resource from its first version to its last: the events the informer reports, the
  requests the worker sends for them, and the hosts they lead to.
\<close>

section \<open>The synchronisation with the status\<close>

definition status_entries :: "IPSpec list \<Rightarrow> status_entry list" where
  "status_entries sts = map (\<lambda>s. (ips_Host s, ips_Cidr s, ips_IP s)) sts"

lemma status_put_id:
  assumes "distinct (map ips_Host sts)" and "s \<in> set sts"
  shows "status_put (ips_Host s) (ips_Cidr s) (ips_IP s) sts = sts"
proof -
  have only: "x = s" if "x \<in> set sts" "same_entry (ips_Host s) (ips_Cidr s) x" for x
    using assms that by (auto simp: same_entry_def distinct_map inj_on_def)
  have "s\<lparr>ips_IP := ips_IP s\<rparr> = s" by (cases s) simp
  then have "(if same_entry (ips_Host s) (ips_Cidr s) x then x\<lparr>ips_IP := ips_IP s\<rparr> else x) = x" if "x \<in> set sts" for x
    using only [OF that] by auto
  moreover have "list_ex (same_entry (ips_Host s) (ips_Cidr s)) sts"
    using assms(2) by (auto simp: list_ex_iff same_entry_def)
  ultimately show ?thesis by (simp add: status_put_def map_idI)
qed

lemma sync_answers_id:
  assumes "distinct (map ips_Host sts)" and "set xs \<subseteq> set sts"
  shows "fold status_after (map (\<lambda>en. reply (sync_request md en) (fst (entry_record en)) True) (status_entries xs)) sts = sts"
  using assms(2)
  by (induction xs) (simp_all add: status_entries_def status_after_def reply_def status_put_id [OF assms(1)])

lemma sync_settled:
  assumes nl: "no_leak bindable t" and recs: "a_records t = []"
    and d: "distinct (map ips_Host sts)" "distinct (map ips_IP sts)"
    and net: "list_all (\<lambda>s. ips_Cidr s = net (ips_Host s)) sts"
    and av: "list_all (entry_available bindable in_net t) (status_entries sts)"
    and reqs: "reqs = map (sync_request md) (status_entries sts)"
  shows "settled bindable net (fold status_after (fst (book_run bindable in_net reqs t)) sts)
       (snd (book_run bindable in_net reqs t))"
    and "fold status_after (fst (book_run bindable in_net reqs t)) sts = sts"
proof -
  have ok: "book_ok t" using nl by (simp add: no_leak_def)
  have "distinct (map (\<lambda>en. fst (entry_record en)) (status_entries sts))"
    using d(2) by (simp add: status_entries_def o_def)
  note synced = sync_restores [OF ok this av, of md, folded reqs]
  show id: "fold status_after (fst (book_run bindable in_net reqs t)) sts = sts"
    unfolding synced(1) by (rule sync_answers_id [OF d(1)]) simp
  let ?t = "snd (book_run bindable in_net reqs t)"
  have rec: "a_records ?t = map (\<lambda>s. (ips_IP s, ips_Host s)) sts"
    using synced(2) recs by (simp add: status_entries_def o_def)
  then have "agrees net sts ?t" using d(1) net by (simp add: agrees_def shown_def)
  moreover have "filed net ?t"
  proof -
    have frame: "map row_cidr (ranges ?t) = map row_cidr (ranges t)"
      by (rule book_run_induct [where I = "\<lambda>u. map row_cidr (ranges u) = map row_cidr (ranges t)"]) simp_all
    have "\<exists>r\<in>set (ranges t). row_ip r = ips_IP s \<and> row_cidr r = net (ips_Host s)" if "s \<in> set sts" for s
      using that av net
      by (fastforce simp: list_all_iff status_entries_def dest!: tb_available_ip_SomeD)
    then have "filed net (t\<lparr>a_records := a_records ?t\<rparr>)"
      unfolding filed_row rec by auto
    then show ?thesis using run_row_ips [of bindable in_net reqs t] frame by (simp add: filed_def)
  qed
  ultimately show "settled bindable net (fold status_after (fst (book_run bindable in_net reqs t)) sts) ?t"
    unfolding id settled_def using no_leak_run [OF nl] by blast
qed

section \<open>The events of a resource\<close>

fun watch_updates :: "K8sIPAMClient \<Rightarrow> F5IPAM \<Rightarrow> F5IPAM list \<Rightarrow> K8sIPAMClient go" where
  "watch_updates k8sc r [] = Inr k8sc"
| "watch_updates k8sc r (r1 # rs) =
     go_bind (enqueueUpdatedIPAM k8sc (Resource (Some r)) (Resource (Some r1)))
       (\<lambda>k. watch_updates k r1 rs)"

definition watch_resource :: "K8sIPAMClient \<Rightarrow> F5IPAM \<Rightarrow> F5IPAM list \<Rightarrow> K8sIPAMClient go" where
  "watch_resource k8sc r rs =
     go_bind (enqueueIPAM k8sc (Resource (Some r))) (\<lambda>k. watch_updates k r rs)"

fun update_keys :: "F5IPAM \<Rightarrow> F5IPAM list \<Rightarrow> rqKey list" where
  "update_keys r [] = []"
| "update_keys r (r1 # rs) =
     \<lparr>rsc = Some r1, oldRsc = Some r, rq_Operation = UPDATE\<rparr> # update_keys r1 rs"

definition create_key :: "F5IPAM \<Rightarrow> rqKey" where
  "create_key r = \<lparr>rsc = Some r, oldRsc = None, rq_Operation = OP_CREATE\<rparr>"

lemma watch_updates_keys:
  assumes "client_ok k8sc" and "\<not> wq_shuttingDown (rscQueue k8sc)"
  shows "\<exists>k. watch_updates k8sc r rs = Inr k \<and> client_ok k \<and> \<not> wq_shuttingDown (rscQueue k)
     \<and> waiting_keys k = waiting_keys k8sc @ update_keys r rs"
  using assms
proof (induction rs arbitrary: k8sc r)
  case (Cons r1 rs)
  let ?k = "add_key k8sc \<lparr>rsc = Some r1, oldRsc = Some r, rq_Operation = UPDATE\<rparr>"
  note add = add_key_waiting [OF Cons.prems, of "\<lparr>rsc = Some r1, oldRsc = Some r, rq_Operation = UPDATE\<rparr>"]
  from Cons.IH [OF add(1,3), of r1] add(2) show ?case by (auto simp: enqueueUpdatedIPAM_def)
qed simp

lemma watch_keys:
  "\<exists>k. watch_resource new_client r rs = Inr k \<and> client_ok k \<and> \<not> wq_shuttingDown (rscQueue k)
     \<and> waiting_keys k = create_key r # update_keys r rs"
proof -
  have "\<not> wq_shuttingDown (rscQueue new_client)" "waiting_keys new_client = []"
    by (simp_all add: new_client_def wq_new_def waiting_keys_def)
  note add = add_key_waiting [OF client_ok_new this(1), of "create_key r"] and start = this(2)
  from watch_updates_keys [OF add(1,3), of r rs] add(2) start show ?thesis
    by (auto simp: watch_resource_def enqueueIPAM_def create_key_def)
qed

section \<open>The hosts of a version\<close>

definition spec_hosts :: "F5IPAM \<Rightarrow> string set" where
  "spec_hosts r = hs_Host ` {s. Some s \<in> set (hosts_of r)}"

text \<open>A version: no nil host, each host in its network, a name that is plain SQL text.\<close>

definition version_ok :: "(string \<Rightarrow> string) \<Rightarrow> string \<Rightarrow> string \<Rightarrow> F5IPAM \<Rightarrow> bool" where
  "version_ok net ns nm r \<longleftrightarrow> Name r = nm \<and> Namespace r = ns \<and>
     list_all (\<lambda>e. case e of None \<Rightarrow> False
       | Some s \<Rightarrow> hs_Cidr s = net (hs_Host s) \<and> sql_literal (hs_Host s)) (hosts_of r)"

definition fits :: "(string \<Rightarrow> string) \<Rightarrow> tables \<Rightarrow> string set \<Rightarrow> bool" where
  "fits net t H \<longleftrightarrow> finite H \<and> (\<forall>c. card (in_hosts net c H) \<le> net_size c t)"

lemma fits_subset:
  assumes "fits net t B" and "A \<subseteq> B"
  shows "fits net t A"
  unfolding fits_def
proof (intro conjI allI)
  show "finite A" using assms by (auto simp: fits_def intro: finite_subset)
  fix c
  have "card (in_hosts net c A) \<le> card (in_hosts net c B)"
    using assms by (intro card_mono) (auto simp: in_hosts_def fits_def)
  also have "\<dots> \<le> net_size c t" using assms(1) by (simp add: fits_def)
  finally show "card (in_hosts net c A) \<le> net_size c t" .
qed

lemma finite_spec_hosts: "finite (spec_hosts r)"
proof -
  have "{s. Some s \<in> set (hosts_of r)} \<subseteq> the ` set (hosts_of r)" by force
  then show ?thesis by (simp add: spec_hosts_def finite_subset)
qed

lemma version_host:
  "version_ok net ns nm r \<Longrightarrow> Some s \<in> set (hosts_of r) \<Longrightarrow> hs_Cidr s = net (hs_Host s) \<and> sql_literal (hs_Host s)"
  by (fastforce simp: version_ok_def list_all_iff)

lemma version_no_nil: "version_ok net ns nm r \<Longrightarrow> None \<notin> set (hosts_of r)"
  by (fastforce simp: version_ok_def list_all_iff)

lemma room_within:
  assumes "fits net t B" and "H \<subseteq> B"
    and "HostName ` {req \<in> set reqs. Operation req = OP_CREATE} \<subseteq> B"
  shows "room net t reqs H \<and> hosts_after reqs H \<subseteq> B"
  using assms(2,3)
proof (induction reqs arbitrary: H)
  case (Cons req reqs)
  let ?H = "hosts_after [req] H"
  have sub: "?H \<subseteq> B" using Cons.prems by auto
  have "card (in_hosts net (CIDR req) ?H) \<le> card (in_hosts net (CIDR req) B)"
    using sub assms(1) by (intro card_mono) (auto simp: in_hosts_def fits_def)
  also have "\<dots> \<le> net_size (CIDR req) t" using assms(1) by (simp add: fits_def)
  finally have "card (in_hosts net (CIDR req) ?H) \<le> net_size (CIDR req) t" .
  moreover have "room net t reqs ?H \<and> hosts_after reqs ?H \<subseteq> B"
    using Cons.prems(2) by (intro Cons.IH [OF sub]) auto
  ultimately show ?case by (simp add: Let_def)
qed simp

lemma spec_request_simps [simp]:
  "HostName (spec_request op r s) = hs_Host s" "CIDR (spec_request op r s) = hs_Cidr s"
  "IPAddr (spec_request op r s) = []" "Operation (spec_request op r s) = op"
  "Metadata (spec_request op r s) = rsc_meta r"
  by (simp_all add: spec_request_def)

lemma hosts_after_creates [simp]: "hosts_after (map (spec_request OP_CREATE r) cs) H = H \<union> hs_Host ` set cs"
  by (induction cs arbitrary: H) auto

lemma hosts_after_deletes [simp]: "hosts_after (map (spec_request OP_DELETE r) ds) H = H - hs_Host ` set ds"
  by (induction ds arbitrary: H) auto

lemma diff_hosts:
  assumes "version_ok net ns nm a" and "version_ok net ns nm b"
  shows "hs_Host ` spec_diff a b = spec_hosts a - spec_hosts b"
proof
  have "s = s'" if "Some s \<in> set (hosts_of a)" "Some s' \<in> set (hosts_of b)" "hs_Host s = hs_Host s'" for s s'
    using version_host [OF assms(1) that(1)] version_host [OF assms(2) that(2)] that(3) by (cases s; cases s') auto
  then show "hs_Host ` spec_diff a b \<subseteq> spec_hosts a - spec_hosts b"
    by (auto simp: spec_diff_def spec_hosts_def)
qed (auto simp: spec_diff_def spec_hosts_def)

text \<open>What the requests of the updates are, and where they lead.\<close>

definition keys_requests where
  "keys_requests o1 o2 keys = concat (map (\<lambda>key. fst (key_requests o1 o2 key)) keys)"

lemma update_step:
  assumes ord: "map_order o1" "map_order o2" and r: "version_ok net ns nm r" and x: "version_ok net ns nm x"
  obtains ds cs where "key_requests o1 o2 \<lparr>rsc = Some x, oldRsc = Some r, rq_Operation = UPDATE\<rparr> =
      (map (spec_request OP_DELETE x) ds @ map (spec_request OP_CREATE x) cs, None)"
    and "hs_Host ` set ds = spec_hosts r - spec_hosts x" and "hs_Host ` set cs = spec_hosts x - spec_hosts r"
    and "\<forall>req\<in>set (map (spec_request OP_DELETE x) ds @ map (spec_request OP_CREATE x) cs).
      one_net net req \<and> sql_literal (HostName req) \<and> Metadata req = Meta \<lparr>meta_name = nm, meta_namespace = ns\<rparr>"
proof -
  obtain ds cs where u: "key_requests o1 o2 \<lparr>rsc = Some x, oldRsc = Some r, rq_Operation = UPDATE\<rparr> =
      (map (spec_request OP_DELETE x) ds @ map (spec_request OP_CREATE x) cs, None)"
    and ds: "set ds = spec_diff r x" and cs: "set cs = spec_diff x r"
    using update_sends [OF ord version_no_nil [OF r] version_no_nil [OF x]] by (auto simp: key_requests_def)
  show thesis
  proof (rule that [OF u])
    show "hs_Host ` set ds = spec_hosts r - spec_hosts x" "hs_Host ` set cs = spec_hosts x - spec_hosts r"
      using diff_hosts [OF r x] diff_hosts [OF x r] by (simp_all add: ds cs)
    show "\<forall>req\<in>set (map (spec_request OP_DELETE x) ds @ map (spec_request OP_CREATE x) cs).
        one_net net req \<and> sql_literal (HostName req) \<and> Metadata req = Meta \<lparr>meta_name = nm, meta_namespace = ns\<rparr>"
      using version_host [OF r] version_host [OF x] x
      by (auto simp: ds cs spec_diff_def one_net_def rsc_meta_def version_ok_def)
  qed
qed

text \<open>Deletes, then creates: the networks have room if they have it for the hosts before and after.\<close>

lemma step_room:
  assumes H: "fits net t H" and H': "fits net t H'" and keep: "H - hs_Host ` set ds \<subseteq> H'" and new: "hs_Host ` set cs \<subseteq> H'"
  shows "room net t (map (spec_request OP_DELETE x) ds @ map (spec_request OP_CREATE x) cs) H"
proof -
  have creates: "HostName ` {req \<in> set (map (spec_request OP_CREATE x) cs). Operation req = OP_CREATE} =
      hs_Host ` set cs" by force
  have none: "{req \<in> set (map (spec_request OP_DELETE x) ds). Operation req = OP_CREATE} = {}" by auto
  have "room net t (map (spec_request OP_DELETE x) ds) H"
    using room_within [OF H, of H "map (spec_request OP_DELETE x) ds", unfolded none] by simp
  moreover have "room net t (map (spec_request OP_CREATE x) cs) (H - hs_Host ` set ds)"
    using room_within [OF H' keep, of "map (spec_request OP_CREATE x) cs", unfolded creates] new by simp
  ultimately show ?thesis by simp
qed

lemma update_run:
  assumes ord: "map_order o1" "map_order o2"
    and vs: "list_all (version_ok net ns nm) (r # rs)" and ft: "list_all (\<lambda>x. fits net t (spec_hosts x)) (r # rs)"
  shows "list_all (\<lambda>key. snd (key_requests o1 o2 key) = None) (update_keys r rs)
    \<and> (\<forall>req\<in>set (keys_requests o1 o2 (update_keys r rs)).
         one_net net req \<and> sql_literal (HostName req) \<and> Metadata req = Meta \<lparr>meta_name = nm, meta_namespace = ns\<rparr>)
    \<and> room net t (keys_requests o1 o2 (update_keys r rs)) (spec_hosts r)
    \<and> hosts_after (keys_requests o1 o2 (update_keys r rs)) (spec_hosts r) = spec_hosts (last (r # rs))"
  using vs ft
proof (induction rs arbitrary: r)
  case Nil
  then show ?case by (simp add: keys_requests_def)
next
  case (Cons x xs)
  let ?key = "\<lparr>rsc = Some x, oldRsc = Some r, rq_Operation = UPDATE\<rparr>"
  have r: "version_ok net ns nm r" and x: "version_ok net ns nm x" using Cons.prems(1) by simp_all
  obtain ds cs where u: "key_requests o1 o2 ?key = (map (spec_request OP_DELETE x) ds @ map (spec_request OP_CREATE x) cs, None)"
    and hosts: "hs_Host ` set ds = spec_hosts r - spec_hosts x" "hs_Host ` set cs = spec_hosts x - spec_hosts r"
    and each: "\<forall>req\<in>set (map (spec_request OP_DELETE x) ds @ map (spec_request OP_CREATE x) cs).
      one_net net req \<and> sql_literal (HostName req) \<and> Metadata req = Meta \<lparr>meta_name = nm, meta_namespace = ns\<rparr>"
    by (rule update_step [OF ord r x])
  let ?reqs = "map (spec_request OP_DELETE x) ds @ map (spec_request OP_CREATE x) cs"
  have room: "room net t ?reqs (spec_hosts r)"
    by (rule step_room [where H' = "spec_hosts x"]) (use Cons.prems(2) hosts in auto)
  have after: "hosts_after ?reqs (spec_hosts r) = spec_hosts x" using hosts by auto
  have split: "keys_requests o1 o2 (update_keys r (x # xs)) = ?reqs @ keys_requests o1 o2 (update_keys x xs)"
    by (simp add: keys_requests_def u)
  have rest: "list_all (version_ok net ns nm) (x # xs)" "list_all (\<lambda>y. fits net t (spec_hosts y)) (x # xs)"
    using Cons.prems by simp_all
  note IH = Cons.IH [OF rest]
  show ?case
  proof (intro conjI)
    show "list_all (\<lambda>key. snd (key_requests o1 o2 key) = None) (update_keys r (x # xs))"
      using IH by (simp add: u)
    show "\<forall>req\<in>set (keys_requests o1 o2 (update_keys r (x # xs))).
         one_net net req \<and> sql_literal (HostName req) \<and> Metadata req = Meta \<lparr>meta_name = nm, meta_namespace = ns\<rparr>"
      unfolding split set_append [of ?reqs] using IH each by blast
    show "room net t (keys_requests o1 o2 (update_keys r (x # xs))) (spec_hosts r)"
      unfolding split room_append [of net t ?reqs] after using IH room by blast
    show "hosts_after (keys_requests o1 o2 (update_keys r (x # xs))) (spec_hosts r) = spec_hosts (last (r # x # xs))"
      unfolding split hosts_after_simps(3) [of ?reqs] after using IH by simp
  qed
qed

lemma book_run_append:
  "book_run bindable in_net (xs @ ys) t =
     (let t1 = snd (book_run bindable in_net xs t) in
      (fst (book_run bindable in_net xs t) @ fst (book_run bindable in_net ys t1),
       snd (book_run bindable in_net ys t1)))"
  by (induction xs arbitrary: t) (simp_all add: Let_def split: prod.splits)

lemma status_sync:
  "map (status_request OP_CREATE r \<circ> the) (map Some sts) = map (sync_request (rsc_meta r)) (status_entries sts)"
  by (simp add: status_entries_def status_request_def create_request_def)

lemma create_run:
  assumes r: "version_ok net ns nm r" and sts: "status_of r = map Some sts" "ips_Host ` set sts \<subseteq> spec_hosts r"
    and ft: "fits net t (spec_hosts r)"
  obtains cs where "key_requests o1 o2 (create_key r) =
      (map (sync_request (rsc_meta r)) (status_entries sts) @ map (spec_request OP_CREATE r) cs, None)"
    and "\<forall>req\<in>set (map (spec_request OP_CREATE r) cs). one_net net req \<and> sql_literal (HostName req)
         \<and> Metadata req = Meta \<lparr>meta_name = nm, meta_namespace = ns\<rparr>"
    and "room net t (map (spec_request OP_CREATE r) cs) (ips_Host ` set sts)"
    and "hosts_after (map (spec_request OP_CREATE r) cs) (ips_Host ` set sts) = spec_hosts r"
proof -
  obtain cs where csd: "cs = map the (hosts_of r)" by blast
  have nil: "None \<notin> set (hosts_of r)" by (rule version_no_nil [OF r])
  then have cs: "s \<in> set cs \<longleftrightarrow> Some s \<in> set (hosts_of r)" for s
    unfolding csd by (metis (no_types, lifting) image_iff list.set_map option.collapse option.sel)
  then have hosts: "hs_Host ` set cs = spec_hosts r" by (auto simp: spec_hosts_def)
  have creates: "HostName ` {req \<in> set (map (spec_request OP_CREATE r) cs). Operation req = OP_CREATE} =
      hs_Host ` set cs" by force
  show thesis
  proof (rule that [of cs])
    show "key_requests o1 o2 (create_key r) =
        (map (sync_request (rsc_meta r)) (status_entries sts) @ map (spec_request OP_CREATE r) cs, None)"
      using create_sends [of r o1 o2 None] nil unfolding create_key_def sts(1) status_sync csd by auto
    show "\<forall>req\<in>set (map (spec_request OP_CREATE r) cs). one_net net req \<and> sql_literal (HostName req)
         \<and> Metadata req = Meta \<lparr>meta_name = nm, meta_namespace = ns\<rparr>"
      using version_host [OF r] cs r by (auto simp: one_net_def rsc_meta_def version_ok_def)
    show "room net t (map (spec_request OP_CREATE r) cs) (ips_Host ` set sts)"
      using room_within [of net t "spec_hosts r" "ips_Host ` set sts" "map (spec_request OP_CREATE r) cs",
          unfolded creates hosts] ft sts(2) by blast
    show "hosts_after (map (spec_request OP_CREATE r) cs) (ips_Host ` set sts) = spec_hosts r"
      using hosts sts(2) by auto
  qed
qed

text \<open>From the first version to the last.\<close>

lemma lifecycle_run:
  assumes ord: "map_order o1" "map_order o2"
    and vs: "list_all (version_ok net ns nm) (r # rs)" and ft: "list_all (\<lambda>x. fits net t (spec_hosts x)) (r # rs)"
    and sts: "status_of r = map Some sts" "ips_Host ` set sts \<subseteq> spec_hosts r"
      "distinct (map ips_Host sts)" "distinct (map ips_IP sts)"
      "list_all (\<lambda>s. ips_Cidr s = net (ips_Host s)) sts"
      "list_all (entry_available bindable in_net t) (status_entries sts)"
    and nl: "no_leak bindable t" and recs: "a_records t = []"
    and reqs: "reqs = keys_requests o1 o2 (create_key r # update_keys r rs)"
  shows "list_all (\<lambda>key. snd (key_requests o1 o2 key) = None) (create_key r # update_keys r rs)"
    and "\<forall>req\<in>set reqs. sql_literal (HostName req) \<and> Metadata req = Meta \<lparr>meta_name = nm, meta_namespace = ns\<rparr>"
    and "settled bindable net (fold status_after (fst (book_run bindable in_net reqs t)) sts)
       (snd (book_run bindable in_net reqs t))"
    and "ips_Host ` set (fold status_after (fst (book_run bindable in_net reqs t)) sts) = spec_hosts (last (r # rs))"
proof -
  have r: "version_ok net ns nm r" and fr: "fits net t (spec_hosts r)" using vs ft by simp_all
  obtain cs where key: "key_requests o1 o2 (create_key r) =
      (map (sync_request (rsc_meta r)) (status_entries sts) @ map (spec_request OP_CREATE r) cs, None)"
    and cs: "\<forall>req\<in>set (map (spec_request OP_CREATE r) cs). one_net net req \<and> sql_literal (HostName req)
         \<and> Metadata req = Meta \<lparr>meta_name = nm, meta_namespace = ns\<rparr>"
      "room net t (map (spec_request OP_CREATE r) cs) (ips_Host ` set sts)"
      "hosts_after (map (spec_request OP_CREATE r) cs) (ips_Host ` set sts) = spec_hosts r"
    by (rule create_run [OF r sts(1,2) fr, of o1 o2])
  note up = update_run [OF ord vs ft]
  let ?sync = "map (sync_request (rsc_meta r)) (status_entries sts)"
    and ?rest = "map (spec_request OP_CREATE r) cs @ keys_requests o1 o2 (update_keys r rs)"
  have split: "reqs = ?sync @ ?rest" by (simp add: reqs keys_requests_def key)
  show "list_all (\<lambda>key. snd (key_requests o1 o2 key) = None) (create_key r # update_keys r rs)"
    using up key by simp
  have "sql_literal (ips_Host s)" if "s \<in> set sts" for s
  proof -
    have "ips_Host s \<in> spec_hosts r" using sts(2) that by blast
    then obtain h where "Some h \<in> set (hosts_of r)" "ips_Host s = hs_Host h" by (auto simp: spec_hosts_def)
    with version_host [OF r] show ?thesis by simp
  qed
  moreover have "rsc_meta r = Meta \<lparr>meta_name = nm, meta_namespace = ns\<rparr>"
    using r by (simp add: rsc_meta_def version_ok_def)
  ultimately have "\<forall>req\<in>set ?sync. sql_literal (HostName req) \<and> Metadata req = Meta \<lparr>meta_name = nm, meta_namespace = ns\<rparr>"
    by (auto simp: status_entries_def)
  then show "\<forall>req\<in>set reqs. sql_literal (HostName req) \<and> Metadata req = Meta \<lparr>meta_name = nm, meta_namespace = ns\<rparr>"
    unfolding split set_append using cs(1) up by blast
  note sync = sync_settled [OF nl recs sts(3-6) refl, of "rsc_meta r"]
  let ?t = "snd (book_run bindable in_net ?sync t)"
  have st: "settled bindable net sts ?t" using sync by simp
  have ones: "list_all (one_net net) ?rest" using cs(1) up by (auto simp: list_all_iff)
  have size: "net_size c ?t = net_size c t" for c
    by (rule book_run_induct [where I = "\<lambda>u. net_size c u = net_size c t"]) simp_all
  have "room net ?t ?rest (ips_Host ` set sts)" using cs(2,3) up room_cong [of ?t t, OF size] by simp
  from run_hosts [OF st ones this] settled_run [OF st ones]
  show "settled bindable net (fold status_after (fst (book_run bindable in_net reqs t)) sts)
       (snd (book_run bindable in_net reqs t))"
    and "ips_Host ` set (fold status_after (fst (book_run bindable in_net reqs t)) sts) = spec_hosts (last (r # rs))"
    unfolding split book_run_append using sync(2) cs(3) up by (simp_all add: Let_def)
qed

section \<open>The end of a resource\<close>

text \<open>A DELETE for every entry of a status whose hosts have one address each.\<close>

definition entry_records :: "tables \<Rightarrow> IPSpec \<Rightarrow> bool" where
  "entry_records t s \<longleftrightarrow> filter (\<lambda>r. snd r = ips_Host s) (a_records t) = [(ips_IP s, ips_Host s)]"

lemma delete_entries:
  assumes "no_leak bindable t" and "distinct (map ips_Host sts)" and "list_all (entry_records t) sts"
    and "reqs = map (status_request OP_DELETE r) sts"
  shows "fst (book_run bindable in_net reqs t) = map (\<lambda>req. reply req [] True) reqs
    \<and> a_records (snd (book_run bindable in_net reqs t)) =
        filter (\<lambda>rec. snd rec \<notin> ips_Host ` set sts) (a_records t)
    \<and> avail_ips (snd (book_run bindable in_net reqs t)) = ips_IP ` set sts \<union> avail_ips t"
  using assms
proof (induction sts arbitrary: t reqs)
  case Nil
  then show ?case by simp
next
  case (Cons s sts)
  let ?req = "status_request OP_DELETE r s"
  obtain resp t' where run: "book_serve bindable in_net ?req t = (resp, t')" by (cases "book_serve bindable in_net ?req t")
  have req: "?req = delete_request (rsc_meta r) (ips_Host s) (ips_Cidr s) (ips_IP s)"
    by (simp add: status_request_def delete_request_def)
  have resp: "resp = Some (reply ?req [] True)" using run by (auto simp: req book_serve_def book_delete_def)
  have ok: "book_ok t" and all: "list_all bindable (map row_ip (ranges t))"
    using Cons.prems(1) by (simp_all add: no_leak_def)
  have rec: "filter (\<lambda>r. snd r = ips_Host s) (a_records t) = [(ips_IP s, ips_Host s)]"
    using Cons.prems(3) by (simp add: entry_records_def)
  have "(ips_IP s, ips_Host s) \<in> set (a_records t)" using arg_cong [OF rec, of set] by auto
  then have b: "bindable (ips_IP s)" by (rule alloc_bindable [OF all bound_in_pool [OF ok]])
  note d = delete_frees [OF ok rec b run [unfolded req]]
  have nl: "no_leak bindable t'" using no_leak_serve [OF Cons.prems(1), of in_net ?req] run by (simp only: snd_conv)
  have "entry_records t' x" if "x \<in> set sts" for x
  proof -
    have "ips_Host s \<notin> ips_Host ` set sts" using Cons.prems(2) by simp
    then have "ips_Host x \<noteq> ips_Host s" using that by (metis image_eqI)
    then have "filter (\<lambda>r. snd r = ips_Host x) (a_records t') = filter (\<lambda>r. snd r = ips_Host x) (a_records t)"
      by (auto simp: d(3) intro: filter_cong)
    with Cons.prems(3) that show ?thesis by (auto simp: entry_records_def list_all_iff)
  qed
  then have ents: "list_all (entry_records t') sts" by (simp add: list_all_iff)
  have "distinct (map ips_Host sts)" using Cons.prems(2) by simp
  note IH = Cons.IH [OF nl this ents refl]
  have "filter (\<lambda>rec. snd rec \<notin> ips_Host ` set sts) (a_records t') =
      filter (\<lambda>rec. snd rec \<notin> ips_Host ` set (s # sts)) (a_records t)"
    by (auto simp: d(3) intro: filter_cong)
  with IH d(2) show ?case unfolding Cons.prems(4) list.map book_run_Cons run by (auto simp: resp)
qed

end
