(* ===== verification/AnswerOrder.thy ===== *)
theory AnswerOrder
  imports Agreement
begin

text \<open>
  The order in which answers are written. An answer changes only the entries of its host and
  network, so the status depends, up to the order of its entries, only on the order of the
  answers for each of them.
\<close>

definition entries_at :: "string \<times> string \<Rightarrow> IPSpec list \<Rightarrow> IPSpec list" where
  "entries_at k sts = filter (\<lambda>s. status_key s = k) sts"

definition resp_entry :: "IPAMResponse \<Rightarrow> string \<times> string" where
  "resp_entry resp = (HostName (Request resp), CIDR (Request resp))"

definition answers_at :: "string \<times> string \<Rightarrow> IPAMResponse list \<Rightarrow> IPAMResponse list" where
  "answers_at k resps = filter (\<lambda>resp. resp_entry resp = k) resps"

text \<open>The answers for each entry were written in the order in which they were made.\<close>

definition same_entry_order :: "IPAMResponse list \<Rightarrow> IPAMResponse list \<Rightarrow> bool" where
  "same_entry_order wrote made \<longleftrightarrow> (\<forall>k. answers_at k wrote = answers_at k made)"

lemma entries_at_simps [simp]:
  "entries_at k [] = []"
  "entries_at k (s # ss) = (if status_key s = k then s # entries_at k ss else entries_at k ss)"
  "entries_at k (ss @ ss') = entries_at k ss @ entries_at k ss'"
  "list_ex (same_entry h c) (entries_at (h, c) ss) = list_ex (same_entry h c) ss"
  by (simp_all add: entries_at_def list_ex_iff same_entry_key) blast

lemma entries_at_put:
  "entries_at k (status_put h c ip sts) =
     (if k = (h, c) then status_put h c ip (entries_at k sts) else entries_at k sts)"
proof -
  have upd: "status_key (s\<lparr>ips_IP := ip\<rparr>) = status_key s" for s by (simp add: status_key_def)
  have "status_key \<lparr>ips_Host = h, ips_Cidr = c, ips_IP = ip\<rparr> = (h, c)" by (simp add: status_key_def)
  moreover have "entries_at k (map (\<lambda>s. if same_entry h c s then s\<lparr>ips_IP := ip\<rparr> else s) sts) =
      (if k = (h, c) then map (\<lambda>s. if same_entry h c s then s\<lparr>ips_IP := ip\<rparr> else s) (entries_at k sts)
       else entries_at k sts)"
    by (induction sts) (auto simp: upd same_entry_key)
  ultimately show ?thesis by (auto simp: status_put_def)
qed

lemma entries_at_drop:
  "entries_at k (status_drop h c sts) =
     (if k = (h, c) then status_drop h c (entries_at k sts) else entries_at k sts)"
  by (induction sts) (auto simp: same_entry_key status_drop_none)

lemma entries_at_after:
  "entries_at k (status_after resp sts) =
     (if k = resp_entry resp then status_after resp (entries_at k sts) else entries_at k sts)"
  by (simp add: status_after_def Let_def resp_entry_def entries_at_put entries_at_drop)

lemma entries_at_fold:
  "entries_at k (fold status_after resps sts) = fold status_after (answers_at k resps) (entries_at k sts)"
  by (induction resps arbitrary: sts) (auto simp: answers_at_def entries_at_after)

text \<open>The entries of each key determine the list up to its order.\<close>

lemma mset_entries_at:
  assumes "\<And>k. entries_at k xs = entries_at k ys"
  shows "mset xs = mset ys"
proof (rule multiset_eqI)
  fix s
  have part: "count (mset zs) s = count (mset (entries_at (status_key s) zs)) s" for zs
    by (simp add: entries_at_def mset_filter)
  show "count (mset xs) s = count (mset ys) s" unfolding part [of xs] part [of ys] assms ..
qed

lemma same_entry_order_status:
  assumes "same_entry_order wrote made"
  shows "mset (fold status_after wrote sts) = mset (fold status_after made sts)"
  using assms unfolding same_entry_order_def by (intro mset_entries_at) (simp only: entries_at_fold)

text \<open>A permutation in which every entry has at most one answer has this order.\<close>

lemma same_entry_order_refl [simp]: "same_entry_order resps resps"
  by (simp add: same_entry_order_def)

lemma same_entry_order_distinct:
  assumes "mset wrote = mset made" and "distinct (map resp_entry made)"
  shows "same_entry_order wrote made"
proof -
  have "answers_at k wrote = answers_at k made" for k
  proof -
    have "distinct (map resp_entry (answers_at k made))"
      using assms(2) by (simp add: answers_at_def distinct_map_filter)
    moreover have "\<forall>resp\<in>set (answers_at k made). resp_entry resp = k" by (simp add: answers_at_def)
    ultimately have "length (answers_at k made) \<le> 1"
      by (cases "answers_at k made" rule: remdups_adj.cases) auto
    moreover have m: "mset (answers_at k wrote) = mset (answers_at k made)"
      using assms(1) by (simp add: answers_at_def mset_filter)
    ultimately show ?thesis
      by (cases "answers_at k made") auto
  qed
  then show ?thesis by (simp add: same_entry_order_def)
qed

text \<open>What a list of entries shows does not depend on its order.\<close>

lemma shown_perm:
  assumes "mset xs = mset ys"
  shows "set xs = set ys" and "distinct (map f xs) = distinct (map f ys)" and "list_all P xs = list_all P ys"
proof -
  show sets: "set xs = set ys" using assms by (rule mset_eq_setD)
  have "mset (map f xs) = mset (map f ys)" using assms by simp
  then show "distinct (map f xs) = distinct (map f ys)" by (rule mset_eq_imp_distinct_iff)
  show "list_all P xs = list_all P ys" by (simp add: list_all_iff sets)
qed

lemma set_entries_at: "f ` set (entries_at k sts) = {f s | s. s \<in> set sts \<and> status_key s = k}"
  by (auto simp: entries_at_def)

section \<open>Answers for several resources\<close>

definition answer_key :: "IPAMResponse \<Rightarrow> string \<times> string" where
  "answer_key resp = (case Metadata (Request resp) of
     Meta md \<Rightarrow> (meta_namespace md, meta_name md) | NoMetadata \<Rightarrow> ([], []))"

definition answers_for :: "string \<times> string \<Rightarrow> IPAMResponse list \<Rightarrow> IPAMResponse list" where
  "answers_for k resps = filter (\<lambda>resp. answer_key resp = k) resps"

text \<open>The statuses of all resources after answers.\<close>

type_synonym statuses = "string \<times> string \<Rightarrow> IPSpec list option"

definition statuses_after :: "IPAMResponse list \<Rightarrow> statuses \<Rightarrow> statuses" where
  "statuses_after resps stss = (\<lambda>k. map_option (fold status_after (answers_for k resps)) (stss k))"

lemma statuses_after_simps [simp]:
  "statuses_after [] stss = stss"
  "dom (statuses_after resps stss) = dom stss"
  by (auto simp: statuses_after_def answers_for_def option.map_id)

lemma statuses_after_snoc:
  assumes "stss (answer_key resp) = Some sts"
  shows "statuses_after (resps @ [resp]) stss =
     (statuses_after resps stss)(answer_key resp \<mapsto>
        status_after resp (fold status_after (answers_for (answer_key resp) resps) sts))"
  by (rule ext) (use assms in \<open>simp add: statuses_after_def answers_for_def option.map_comp o_def\<close>)

text \<open>If each host belongs to one resource, the entries of a resource are those of its hosts.\<close>

lemma resource_entries:
  assumes own: "\<forall>resp\<in>set resps. answer_key resp = owner (HostName (Request resp))"
  shows "mset (fold status_after (answers_for k resps) []) =
     mset (filter (\<lambda>s. owner (ips_Host s) = k) (fold status_after resps []))"
proof (rule mset_entries_at)
  fix hc :: "string \<times> string"
  obtain h c where hc: "hc = (h, c)" by (cases hc)
  have "answers_at (h, c) (answers_for k resps) = (if owner h = k then answers_at (h, c) resps else [])"
    using own by (induction resps) (auto simp: answers_at_def answers_for_def resp_entry_def)
  then have "entries_at (h, c) (fold status_after (answers_for k resps) []) =
      (if owner h = k then entries_at (h, c) (fold status_after resps []) else [])"
    by (simp add: entries_at_fold)
  moreover have "entries_at (h, c) (filter (\<lambda>s. owner (ips_Host s) = k) sts) =
      (if owner h = k then entries_at (h, c) sts else [])" for sts
    by (induction sts) (auto simp: status_key_def)
  ultimately show "entries_at hc (fold status_after (answers_for k resps) []) =
      entries_at hc (filter (\<lambda>s. owner (ips_Host s) = k) (fold status_after resps []))" by (simp add: hc)
qed

section \<open>What is promised of a status and an address book\<close>

text \<open>
  The hosts have records, each one address of the pool and no two the same. The status has at
  most one entry for a host and network. If the answers for that pair were written in order,
  the entry is right: it shows the address recorded for the host, under the host's network.
  If this holds for all pairs, the entries are exactly the records.
\<close>

definition hosts_served ::
    "(string \<Rightarrow> string) \<Rightarrow> string set \<Rightarrow> string set \<Rightarrow> (string \<times> string) list
      \<Rightarrow> IPAMResponse list \<Rightarrow> IPAMResponse list \<Rightarrow> IPSpec list \<Rightarrow> bool" where
  "hosts_served net pool hosts recs wrote made sts \<longleftrightarrow>
     snd ` set recs = hosts \<and> inj_on fst (set recs) \<and> inj_on snd (set recs) \<and> fst ` set recs \<subseteq> pool
   \<and> distinct (map status_key sts)
   \<and> (\<forall>h c. answers_at (h, c) wrote = answers_at (h, c) made \<longrightarrow>
        ips_IP ` set (entries_at (h, c) sts) = {ip. (ip, h) \<in> set recs \<and> c = net h})
   \<and> (same_entry_order wrote made \<longrightarrow>
        (\<lambda>s. (ips_IP s, ips_Host s)) ` set sts = set recs \<and> distinct (map ips_Host sts)
        \<and> list_all (\<lambda>s. ips_Cidr s = net (ips_Host s)) sts)"

lemma hosts_served_records:
  "hosts_served net pool hosts recs wrote made sts \<Longrightarrow>
     snd ` set recs = hosts \<and> inj_on fst (set recs) \<and> fst ` set recs \<subseteq> pool"
  by (simp add: hosts_served_def)

lemma settled_written:
  assumes st: "settled bindable net (fold status_after made sts) t" and ks: "distinct (map status_key sts)"
    and hosts: "ips_Host ` set (fold status_after made sts) = hosts" and pool: "row_ip ` set (ranges t) \<subseteq> pool"
  shows "hosts_served net pool hosts (a_records t) wrote made (fold status_after wrote sts)"
  unfolding hosts_served_def
proof (intro conjI allI impI)
  let ?x = "fold status_after made sts" and ?y = "fold status_after wrote sts"
  note sh = settled_shown [OF st]
  have inj: "inj_on ips_IP (set ?x)" "inj_on ips_Host (set ?x)" using sh(1,2) by (simp_all add: distinct_map)
  show "snd ` set (a_records t) = hosts" "fst ` set (a_records t) \<subseteq> pool"
    unfolding sh(4) [symmetric] hosts [symmetric] using sh(5) pool by (auto simp: image_image)
  show "inj_on fst (set (a_records t))" "inj_on snd (set (a_records t))"
    unfolding sh(4) [symmetric] using inj by (auto simp: inj_on_def)
  show "distinct (map status_key ?y)" using ks by (rule fold_keys_distinct)
  show "ips_IP ` set (entries_at (h, c) ?y) = {ip. (ip, h) \<in> set (a_records t) \<and> c = net h}"
    if "answers_at (h, c) wrote = answers_at (h, c) made" for h c
  proof -
    have "entries_at (h, c) ?y = entries_at (h, c) ?x" using that by (simp add: entries_at_fold)
    moreover have "ips_IP ` set (entries_at (h, c) ?x) = {ip. (ip, h) \<in> set (a_records t) \<and> c = net h}"
      unfolding set_entries_at sh(4) [symmetric] using sh(3) by (auto simp: status_key_def list_all_iff)
    ultimately show ?thesis by simp
  qed
  assume "same_entry_order wrote made"
  note perm = shown_perm [OF same_entry_order_status [OF this, of sts]]
  show "(\<lambda>s. (ips_IP s, ips_Host s)) ` set ?y = set (a_records t)" "distinct (map ips_Host ?y)"
    "list_all (\<lambda>s. ips_Cidr s = net (ips_Host s)) ?y"
    using sh by (simp_all add: perm)
qed

text \<open>The part of the promise that concerns one resource.\<close>

lemma hosts_served_part:
  assumes served: "hosts_served net pool hosts recs wrote made sts"
    and part: "mset sts' = mset (filter (\<lambda>s. owner (ips_Host s) = k) sts)"
  shows "hosts_served net pool {h \<in> hosts. owner h = k} (filter (\<lambda>rec. owner (snd rec) = k) recs) wrote made sts'"
  unfolding hosts_served_def shown_perm [OF part]
proof (intro conjI allI impI)
  let ?sts = "filter (\<lambda>s. owner (ips_Host s) = k) sts" and ?recs = "filter (\<lambda>rec. owner (snd rec) = k) recs"
  note served = served [unfolded hosts_served_def]
  have sub: "set ?recs \<subseteq> set recs" by auto
  show "snd ` set ?recs = {h \<in> hosts. owner h = k}"
    unfolding conjunct1 [OF served, symmetric] by auto
  show "inj_on fst (set ?recs)" "inj_on snd (set ?recs)" 
    using served by (simp_all add: inj_on_def)
  have "fst ` set recs \<subseteq> pool" using served by (elim conjE)
  then show "fst ` set ?recs \<subseteq> pool" using sub by blast
  show "distinct (map status_key ?sts)" using served by (simp add: distinct_map_filter)
  show "ips_IP ` set (entries_at (h, c) sts') = {ip. (ip, h) \<in> set ?recs \<and> c = net h}"
    if "answers_at (h, c) wrote = answers_at (h, c) made" for h c
  proof -
    have "set (entries_at (h, c) sts') = set (entries_at (h, c) ?sts)"
      using shown_perm(1) [OF part] by (simp add: entries_at_def)
    also have "\<dots> = (if owner h = k then set (entries_at (h, c) sts) else {})"
      by (auto simp: entries_at_def status_key_def)
    finally show ?thesis using served that by simp
  qed
  assume same: "same_entry_order wrote made"
  then have all: "(\<lambda>s. (ips_IP s, ips_Host s)) ` set sts = set recs" using served by blast
  show "(\<lambda>s. (ips_IP s, ips_Host s)) ` set ?sts = set ?recs" unfolding set_filter all [symmetric] by auto
  show "distinct (map ips_Host ?sts)" using served same by (simp add: distinct_map_filter)
  show "list_all (\<lambda>s. ips_Cidr s = net (ips_Host s)) ?sts" using served same by (simp add: list_all_iff)
qed

end
