(* ===== verification/Schedules.thy ===== *)
theory Schedules
  imports Lifecycle AnswerOrder
begin

text \<open>
  The running program as a step relation: the informer reports events, the orchestrator's
  worker takes a key and sends its requests one by one, the controller receives a request
  whenever the worker sends one, and the answer worker receives an answer and writes it.
  The channels are unbuffered, so sending and receiving are one step. The steps interleave
  freely, and the answers, each sent by a goroutine of its own, may be taken in any order. The
  answers made and the answers written are kept as a history. (The worker's \<open>Done\<close> is
  taken together with \<open>Get\<close>; keys are pointers to new objects, so no handler can see the
  difference. The orders \<open>o1\<close>, \<open>o2\<close> in which an update visits its two maps are arbitrary, but the
  same for all updates of a run.)
\<close>

section \<open>The system\<close>

datatype informer_event = Added F5IPAM | Updated F5IPAM F5IPAM | Removed F5IPAM

fun on_event :: "K8sIPAMClient \<Rightarrow> informer_event \<Rightarrow> K8sIPAMClient go" where
  "on_event k8sc (Added r) = enqueueIPAM k8sc (Resource (Some r))"
| "on_event k8sc (Updated old r) = enqueueUpdatedIPAM k8sc (Resource (Some old)) (Resource (Some r))"
| "on_event k8sc (Removed r) = enqueueDeletedIPAM k8sc (Resource (Some r))"

record ('m, 'api) sys =
  sys_todo :: "informer_event list"
  sys_orc :: K8sIPAMClient
  sys_sending :: "IPAMRequest list"
  sys_ctl :: "'m Controller"
  sys_api :: 'api
  sys_made :: "IPAMResponse list"
  sys_wrote :: "IPAMResponse list"

inductive sys_step ::
    "'m manager_iface \<Rightarrow> 'api kube_api \<Rightarrow> (HostSpec list \<Rightarrow> HostSpec list) \<Rightarrow> (HostSpec list \<Rightarrow> HostSpec list)
      \<Rightarrow> ('m, 'api) sys \<Rightarrow> ('m, 'api) sys \<Rightarrow> bool" for M K o1 o2 where
  event: "sys_todo s = ev # evs \<Longrightarrow> on_event (sys_orc s) ev = Inr k \<Longrightarrow>
     sys_step M K o1 o2 s (s\<lparr>sys_todo := evs, sys_orc := k\<rparr>)"
| take_key: "sys_sending s = [] \<Longrightarrow> processResource o1 o2 (sys_orc s) = Some (reqs, Inr (True, k)) \<Longrightarrow>
     sys_step M K o1 o2 s (s\<lparr>sys_orc := k, sys_sending := reqs\<rparr>)"
| request: "sys_sending s = req # reqs \<Longrightarrow> controller_round M (sys_ctl s) req = Inr c \<Longrightarrow>
     sys_step M K o1 o2 s (s\<lparr>sys_sending := reqs, sys_ctl := c,
       sys_made := sys_made s @ drop (length (pending (sys_ctl s))) (pending c)\<rparr>)"
| answer: "pending (sys_ctl s) = us @ resp # vs \<Longrightarrow> handle_response K (sys_api s) resp = Inr a \<Longrightarrow>
     sys_step M K o1 o2 s (s\<lparr>sys_ctl := (sys_ctl s)\<lparr>pending := us @ vs\<rparr>, sys_api := a,
       sys_wrote := sys_wrote s @ [resp]\<rparr>)"

inductive_cases sys_stepE: "sys_step M K o1 o2 s s'"

text \<open>Nothing is left but answers; nothing is left at all.\<close>

definition sys_idle :: "('m, 'api) sys \<Rightarrow> bool" where
  "sys_idle s \<longleftrightarrow> sys_todo s = [] \<and> waiting_keys (sys_orc s) = [] \<and> sys_sending s = []"

definition sys_done :: "('m, 'api) sys \<Rightarrow> bool" where
  "sys_done s \<longleftrightarrow> sys_idle s \<and> pending (sys_ctl s) = []"

text \<open>The next call of one of the goroutines panics.\<close>

definition sys_panics ::
    "'m manager_iface \<Rightarrow> 'api kube_api \<Rightarrow> (HostSpec list \<Rightarrow> HostSpec list) \<Rightarrow> (HostSpec list \<Rightarrow> HostSpec list)
      \<Rightarrow> ('m, 'api) sys \<Rightarrow> bool" where
  "sys_panics M K o1 o2 s \<longleftrightarrow>
     (\<exists>ev evs p. sys_todo s = ev # evs \<and> on_event (sys_orc s) ev = Inl p)
     \<or> (\<exists>reqs p. sys_sending s = [] \<and> processResource o1 o2 (sys_orc s) = Some (reqs, Inl p))
     \<or> (\<exists>req reqs p. sys_sending s = req # reqs \<and> controller_round M (sys_ctl s) req = Inl p)
     \<or> (\<exists>resp p. resp \<in> set (pending (sys_ctl s)) \<and> handle_response K (sys_api s) resp = Inl p)"

fun event_key :: "informer_event \<Rightarrow> rqKey" where
  "event_key (Added r) = create_key r"
| "event_key (Updated old r) = \<lparr>rsc = Some r, oldRsc = Some old, rq_Operation = UPDATE\<rparr>"
| "event_key (Removed r) = \<lparr>rsc = Some r, oldRsc = None, rq_Operation = OP_DELETE\<rparr>"

lemma on_event_key:
  assumes "client_ok k8sc" and "\<not> wq_shuttingDown (rscQueue k8sc)"
  shows "on_event k8sc ev = Inr (add_key k8sc (event_key ev))"
  by (cases ev) (simp_all add: enqueueIPAM_def enqueueUpdatedIPAM_def enqueueDeletedIPAM_def create_key_def)

section \<open>The invariant\<close>

text \<open>
  \<open>whole\<close> are all requests that the events lead to. Those received, those being sent, those
  of the waiting keys and those of the events to come are always the whole; the book is what
  the received ones made of it, the answers made are, in any order, those written and those
  pending, and the statuses \<open>stss\<close> of the resources are what the written ones made of them: all of
  them, or, when calls to the API may fail (not \<open>exact\<close>), some.
\<close>

definition statuses_stored :: "('api \<Rightarrow> string \<times> string \<Rightarrow> F5IPAM option) \<Rightarrow> 'api \<Rightarrow> statuses \<Rightarrow> bool" where
  "statuses_stored stored api stss \<longleftrightarrow>
     (\<forall>k sts. stss k = Some sts \<longrightarrow> map_option status_of (stored api k) = Some (map Some sts))"

lemma statuses_stored_at:
  assumes "statuses_stored stored api (statuses_after wrote stss)" and "stss k = Some sts"
  shows "map_option status_of (stored api k) = Some (map Some (fold status_after (answers_for k wrote) sts))"
proof -
  have "statuses_after wrote stss k = Some (fold status_after (answers_for k wrote) sts)"
    using assms(2) by (simp add: statuses_after_def)
  with assms(1) show ?thesis unfolding statuses_stored_def by blast
qed

text \<open>The writes that reached the API, each status with its own.\<close>

definition shown_writes :: "bool \<Rightarrow> ('api \<Rightarrow> string \<times> string \<Rightarrow> F5IPAM option) \<Rightarrow> 'api \<Rightarrow> IPAMResponse list \<Rightarrow> statuses \<Rightarrow> bool" where
  "shown_writes exact stored api wrote stss \<longleftrightarrow>
     (\<exists>ws. subseq ws wrote \<and> (exact \<longrightarrow> ws = wrote) \<and> statuses_stored stored api (statuses_after ws stss))"

definition api_ok :: "bool \<Rightarrow> 'api kube_api \<Rightarrow> ('api \<Rightarrow> string \<times> string \<Rightarrow> F5IPAM option) \<Rightarrow> bool" where
  "api_ok exact K stored \<longleftrightarrow> kube_faulty K stored \<and> (exact \<longrightarrow> kube_server K stored)"

lemma api_ok_server: "kube_server K stored \<Longrightarrow> api_ok exact K stored"
  using kube_server.is_faulty by (auto simp: api_ok_def)

lemma shown_writes_exact: "shown_writes True stored api wrote stss \<longleftrightarrow> statuses_stored stored api (statuses_after wrote stss)"
  by (auto simp: shown_writes_def)

definition sys_inv where
  "sys_inv exact tbl stored o1 o2 t0 stss whole s \<longleftrightarrow>
     client_ok (sys_orc s) \<and> \<not> wq_shuttingDown (rscQueue (sys_orc s))
     \<and> list_all (\<lambda>key. snd (key_requests o1 o2 key) = None) (waiting_keys (sys_orc s) @ map event_key (sys_todo s))
     \<and> (\<exists>got m.
          whole = got @ sys_sending s @ keys_requests o1 o2 (waiting_keys (sys_orc s) @ map event_key (sys_todo s))
        \<and> Manager (sys_ctl s) = Some m \<and> mgr_wf tbl m \<and> mgr_book tbl m = snd (serve_all got t0)
        \<and> sys_made s = fst (serve_all got t0)
        \<and> mset (sys_wrote s) + mset (pending (sys_ctl s)) = mset (sys_made s)
        \<and> shown_writes exact stored (sys_api s) (sys_wrote s) stss)"

lemma keys_requests_simps [simp]:
  "keys_requests o1 o2 [] = []"
  "keys_requests o1 o2 (key # keys) = fst (key_requests o1 o2 key) @ keys_requests o1 o2 keys"
  "keys_requests o1 o2 (keys @ keys') = keys_requests o1 o2 keys @ keys_requests o1 o2 keys'"
  by (simp_all add: keys_requests_def)

lemma take_key_effect:
  assumes "client_ok k8sc" and "\<not> wq_shuttingDown (rscQueue k8sc)"
    and "list_all (\<lambda>key. snd (key_requests o1 o2 key) = None) (waiting_keys k8sc)"
  shows "(waiting_keys k8sc = [] \<and> processResource o1 o2 k8sc = None)
    \<or> (\<exists>key keys k. waiting_keys k8sc = key # keys
        \<and> processResource o1 o2 k8sc = Some (fst (key_requests o1 o2 key), Inr (True, k))
        \<and> client_ok k \<and> waiting_keys k = keys \<and> \<not> wq_shuttingDown (rscQueue k))"
proof (cases "waiting_keys k8sc")
  case Nil
  then show ?thesis using processResource_waits [OF assms(1) Nil assms(2)] by simp
next
  case (Cons key keys)
  obtain reqs where "key_requests o1 o2 key = (reqs, None)"
    using assms(3) Cons by (cases "key_requests o1 o2 key") auto
  with processResource_next [OF assms(1) Cons, of o1 o2] Cons assms(2) show ?thesis by auto
qed

context reliable_sqlite
begin

lemma sys_request_effect:
  assumes "Manager c = Some m" and "mgr_wf tbl m" and "sql_literal (HostName req)"
  shows "\<exists>m'. controller_round (ipam_manager drv) c req =
       Inr \<lparr>Manager = Some m', pending = pending c @ (case fst (serve req (mgr_book tbl m)) of
          None \<Rightarrow> [] | Some r \<Rightarrow> [r])\<rparr>
     \<and> mgr_book tbl m' = snd (serve req (mgr_book tbl m)) \<and> mgr_wf tbl m'"
proof -
  have "c = \<lparr>Manager = Some m, pending = pending c\<rparr>" using assms(1) by (cases c) simp
  with mgr.controller_round_book [OF assms(2,3), of "pending c"] show ?thesis by simp
qed

end

text \<open>Every answer given is for a request of one of the resources.\<close>

definition for_resources :: "(string \<times> string) set \<Rightarrow> IPAMRequest \<Rightarrow> bool" where
  "for_resources ks req \<longleftrightarrow>
     (\<exists>ns nm. (ns, nm) \<in> ks \<and> Metadata req = Meta \<lparr>meta_name = nm, meta_namespace = ns\<rparr>)"

lemma statuses_stored_write:
  assumes st: "statuses_stored stored a (statuses_after ws stss)" and sts: "stss k0 = Some sts" and key: "answer_key resp = k0"
    and upd: "api_status stored a' = (api_status stored a)(k0 \<mapsto>
      map Some (status_after resp (fold status_after (answers_for k0 ws) sts)))"
  shows "statuses_stored stored a' (statuses_after (ws @ [resp]) stss)"
  unfolding statuses_stored_def
proof (intro allI impI)
  fix k sts'
  assume k: "statuses_after (ws @ [resp]) stss k = Some sts'"
  have at: "map_option status_of (stored a' k) = (if k = k0
      then Some (map Some (status_after resp (fold status_after (answers_for k0 ws) sts)))
      else map_option status_of (stored a k))"
    using fun_cong [OF upd, of k] by (simp add: api_status_def)
  note snoc = statuses_after_snoc [of stss resp, unfolded key, OF sts]
  show "map_option status_of (stored a' k) = Some (map Some sts')"
  proof (cases "k = k0")
    case True
    with k at snoc show ?thesis by simp
  next
    case False
    with k have "statuses_after ws stss k = Some sts'" by (simp add: snoc)
    with st have "map_option status_of (stored a k) = Some (map Some sts')" unfolding statuses_stored_def by blast
    then show ?thesis by (simp only: at False if_False)
  qed
qed

lemma answer_effect:
  assumes K: "api_ok exact K stored" and st: "shown_writes exact stored a wrote stss"
    and fr: "for_resources (dom stss) (Request resp)"
  shows "\<exists>a'. handle_response K a resp = Inr a' \<and> shown_writes exact stored a' (wrote @ [resp]) stss"
proof -
  obtain ns nm sts where md: "Metadata (Request resp) = Meta \<lparr>meta_name = nm, meta_namespace = ns\<rparr>"
    and sts: "stss (ns, nm) = Some sts" using fr by (auto simp: for_resources_def)
  obtain ws where ws: "subseq ws wrote" "exact \<longrightarrow> ws = wrote" "statuses_stored stored a (statuses_after ws stss)"
    using st by (auto simp: shown_writes_def)
  let ?now = "fold status_after (answers_for (ns, nm) ws) sts"
  have key: "answer_key resp = (ns, nm)" by (simp add: answer_key_def md)
  have at: "api_status stored a (ns, nm) = Some (map Some ?now)"
    unfolding api_status_def by (rule statuses_stored_at [OF ws(3) sts])
  let ?new = "(api_status stored a)((ns, nm) \<mapsto> map Some (status_after resp ?now))"
  obtain a' where a': "handle_response K a resp = Inr a'"
    "api_status stored a' = ?new \<or> \<not> exact \<and> api_status stored a' = api_status stored a"
  proof (cases exact)
    case True
    then have "kube_server K stored" using K by (simp add: api_ok_def)
    from kube_server.handle_found [OF this md at] that show thesis by blast
  next
    case False
    have "kube_faulty K stored" using K by (simp add: api_ok_def)
    from kube_faulty.handle_any [OF this md at] False that show thesis by blast
  qed
  have written: "shown_writes exact stored a' (wrote @ [resp]) stss" if "api_status stored a' = ?new"
    unfolding shown_writes_def
    using statuses_stored_write [OF ws(3) sts key that] ws(1,2)
    by (intro exI [of _ "ws @ [resp]"]) (auto intro: list_emb_append_mono)
  moreover have lost: "shown_writes exact stored a' (wrote @ [resp]) stss"
    if "\<not> exact" "api_status stored a' = api_status stored a"
  proof -
    have "statuses_stored stored a' (statuses_after ws stss)"
      using ws(3) fun_cong [OF that(2)] by (simp add: statuses_stored_def api_status_def)
    then show ?thesis unfolding shown_writes_def using that(1) ws(1) by (blast intro: list_emb_append2)
  qed
  ultimately show ?thesis using a' by blast
qed

section \<open>Steps keep the invariant\<close>

definition requests_ok :: "(string \<times> string) set \<Rightarrow> IPAMRequest list \<Rightarrow> bool" where
  "requests_ok ks reqs \<longleftrightarrow> (\<forall>req\<in>set reqs. sql_literal (HostName req) \<and> for_resources ks req)"

lemma requests_ok_simps [simp]:
  "requests_ok ks (req # reqs) \<longleftrightarrow> sql_literal (HostName req) \<and> for_resources ks req \<and> requests_ok ks reqs"
  "requests_ok ks (reqs @ reqs') \<longleftrightarrow> requests_ok ks reqs \<and> requests_ok ks reqs'"
  by (auto simp: requests_ok_def)

lemma answer_metadata:
  assumes "requests_ok ks got" and "mset wrote + mset ps = mset (fst (serve_all got t0))" and "resp \<in> set ps"
  shows "for_resources ks (Request resp)"
proof -
  have "resp \<in># mset wrote + mset ps" using assms(3) by simp
  then have "resp \<in> set (fst (serve_all got t0))" by (simp only: assms(2) set_mset_mset)
  then have "Request resp \<in> set got" using book_run_from [of isIPV4Addr addr_in_net got t0] by blast
  then show ?thesis using assms(1) by (simp add: requests_ok_def)
qed

lemma answers_for_one:
  assumes "requests_ok {k} reqs" and "mset wrote = mset (fst (serve_all reqs t0))"
  shows "answers_for k wrote = wrote"
proof -
  have "answer_key resp = k" if "resp \<in> set wrote" for resp
    using answer_metadata [OF assms(1), of "[]" wrote t0 resp] assms(2) that
    by (auto simp: for_resources_def answer_key_def)
  then show ?thesis by (simp add: answers_for_def)
qed

definition key_load where
  "key_load o1 o2 key = Suc (2 * length (fst (key_requests o1 o2 key)))"

definition sys_load where
  "sys_load o1 o2 s = sum_list (map (\<lambda>ev. Suc (key_load o1 o2 (event_key ev))) (sys_todo s))
     + sum_list (map (key_load o1 o2) (waiting_keys (sys_orc s)))
     + 2 * length (sys_sending s) + length (pending (sys_ctl s))"

text \<open>If runs are bounded and can go on within \<open>P\<close> until \<open>D\<close> holds, some run within \<open>P\<close> ends in \<open>D\<close>.\<close>

lemma bounded_run_ends:
  assumes start: "P s0" and bound: "\<And>n s. (R ^^ n) s0 s \<Longrightarrow> n \<le> N"
    and go: "\<And>n s. (R ^^ n) s0 s \<Longrightarrow> P s \<Longrightarrow> D s \<or> (\<exists>s'. R s s' \<and> P s')"
  shows "\<exists>n s. (R ^^ n) s0 s \<and> P s \<and> D s"
proof (rule ccontr)
  assume no: "\<not> ?thesis"
  have "\<exists>s. (R ^^ n) s0 s \<and> P s" for n
  proof (induction n)
    case (Suc n)
    then obtain s where s: "(R ^^ n) s0 s" "P s" by blast
    with no go obtain s' where "R s s'" "P s'" by blast
    with s show ?case by auto
  qed (use start in simp)
  then obtain s where "(R ^^ Suc N) s0 s" by blast
  with bound show False by fastforce
qed

context reliable_sqlite
begin

lemma sys_no_panic:
  assumes inv: "sys_inv exact tbl stored o1 o2 t0 stss whole s" and rq: "requests_ok (dom stss) whole"
    and K: "api_ok exact K stored"
  shows "\<not> sys_panics (ipam_manager drv) K o1 o2 s"
proof -
  obtain got m where q: "client_ok (sys_orc s)" "\<not> wq_shuttingDown (rscQueue (sys_orc s))"
    "list_all (\<lambda>key. snd (key_requests o1 o2 key) = None) (waiting_keys (sys_orc s) @ map event_key (sys_todo s))"
    and w: "whole = got @ sys_sending s @ keys_requests o1 o2 (waiting_keys (sys_orc s) @ map event_key (sys_todo s))"
    and m: "Manager (sys_ctl s) = Some m" "mgr_wf tbl m" "mgr_book tbl m = snd (serve_all got t0)"
    and a: "sys_made s = fst (serve_all got t0)" "mset (sys_wrote s) + mset (pending (sys_ctl s)) = mset (sys_made s)"
      "shown_writes exact stored (sys_api s) (sys_wrote s) stss"
    using inv by (auto simp: sys_inv_def)
  have "processResource o1 o2 (sys_orc s) \<noteq> Some (reqs, Inl p)" for reqs p
    using take_key_effect [OF q(1,2), of o1 o2] q(3) by auto
  moreover have "controller_round (ipam_manager drv) (sys_ctl s) req \<noteq> Inl p"
    if "sys_sending s = req # reqs" for req reqs p
    using sys_request_effect [OF m(1,2), of req] rq w that by fastforce
  moreover have "handle_response K (sys_api s) resp \<noteq> Inl p" if "resp \<in> set (pending (sys_ctl s))" for resp p
  proof -
    have "for_resources (dom stss) (Request resp)"
      using answer_metadata [of "dom stss" got "sys_wrote s" "pending (sys_ctl s)" t0 resp] rq w a(1,2) that by simp
    from answer_effect [OF K a(3) this] show ?thesis by auto
  qed
  ultimately show ?thesis using on_event_key [OF q(1,2)] by (auto simp: sys_panics_def)
qed

text \<open>Work that is not an answer can go on, and any pending answer can be written.\<close>

lemma sys_progress_request:
  assumes inv: "sys_inv exact tbl stored o1 o2 t0 stss whole s" and rq: "requests_ok (dom stss) whole"
    and K: "api_ok exact K stored" and busy: "\<not> sys_idle s"
  shows "\<exists>s'. sys_step (ipam_manager drv) K o1 o2 s s' \<and> sys_wrote s' = sys_wrote s"
proof -
  have np: "\<not> sys_panics (ipam_manager drv) K o1 o2 s" by (rule sys_no_panic [OF inv rq K])
  have q: "client_ok (sys_orc s)" "\<not> wq_shuttingDown (rscQueue (sys_orc s))"
    "list_all (\<lambda>key. snd (key_requests o1 o2 key) = None) (waiting_keys (sys_orc s))"
    using inv by (auto simp: sys_inv_def)
  consider (event) ev evs where "sys_todo s = ev # evs" | (request) req reqs where "sys_sending s = req # reqs"
    | (take_key) "sys_sending s = []" "waiting_keys (sys_orc s) \<noteq> []"
    using busy unfolding sys_idle_def by (metis list.exhaust)
  then show ?thesis
  proof cases
    case event
    from sys_step.event [OF this on_event_key [OF q(1,2)]] show ?thesis by (intro exI conjI, assumption) simp
  next
    case request
    with np obtain c where "controller_round (ipam_manager drv) (sys_ctl s) req = Inr c"
      unfolding sys_panics_def by (metis sum.exhaust)
    from sys_step.request [OF request this] show ?thesis by (intro exI conjI, assumption) simp
  next
    case take_key
    then obtain key k where "processResource o1 o2 (sys_orc s) = Some (fst (key_requests o1 o2 key), Inr (True, k))"
      using take_key_effect [OF q] by auto
    from sys_step.take_key [OF take_key(1) this] show ?thesis by (intro exI conjI, assumption) simp
  qed
qed

lemma sys_answer_any:
  assumes inv: "sys_inv exact tbl stored o1 o2 t0 stss whole s" and rq: "requests_ok (dom stss) whole"
    and K: "api_ok exact K stored" and pend: "pending (sys_ctl s) = us @ resp # vs"
  shows "\<exists>s'. sys_step (ipam_manager drv) K o1 o2 s s' \<and> (sys_idle s \<longrightarrow> sys_idle s')
     \<and> pending (sys_ctl s') = us @ vs \<and> sys_wrote s' = sys_wrote s @ [resp]"
proof -
  have "resp \<in> set (pending (sys_ctl s))" using pend by simp
  with sys_no_panic [OF inv rq K] obtain a where "handle_response K (sys_api s) resp = Inr a"
    unfolding sys_panics_def by (metis sum.exhaust)
  from sys_step.answer [OF pend this] show ?thesis by (intro exI conjI, assumption) (simp_all add: sys_idle_def)
qed

lemma sys_progress:
  assumes inv: "sys_inv exact tbl stored o1 o2 t0 stss whole s" and rq: "requests_ok (dom stss) whole"
    and K: "api_ok exact K stored" and busy: "\<not> sys_done s"
  shows "\<exists>s'. sys_step (ipam_manager drv) K o1 o2 s s'"
proof (cases "sys_idle s")
  case True
  with busy obtain resp ps where "pending (sys_ctl s) = [] @ resp # ps"
    unfolding sys_done_def by (cases "pending (sys_ctl s)") auto
  from sys_answer_any [OF inv rq K this] show ?thesis by blast
next
  case False
  from sys_progress_request [OF inv rq K this] show ?thesis by blast
qed

lemma sys_inv_step [inv_keep]:
  assumes inv: "sys_inv exact tbl stored o1 o2 t0 stss whole s" and rq: "requests_ok (dom stss) whole"
    and K: "api_ok exact K stored" and step: "sys_step (ipam_manager drv) K o1 o2 s s'"
  shows "sys_inv exact tbl stored o1 o2 t0 stss whole s'"
proof -
  obtain got m where q: "client_ok (sys_orc s)" "\<not> wq_shuttingDown (rscQueue (sys_orc s))"
    "list_all (\<lambda>key. snd (key_requests o1 o2 key) = None) (waiting_keys (sys_orc s) @ map event_key (sys_todo s))"
    and w: "whole = got @ sys_sending s @ keys_requests o1 o2 (waiting_keys (sys_orc s) @ map event_key (sys_todo s))"
    and m: "Manager (sys_ctl s) = Some m" "mgr_wf tbl m" "mgr_book tbl m = snd (serve_all got t0)"
    and a: "sys_made s = fst (serve_all got t0)" "mset (sys_wrote s) + mset (pending (sys_ctl s)) = mset (sys_made s)"
      "shown_writes exact stored (sys_api s) (sys_wrote s) stss"
    using inv by (auto simp: sys_inv_def)
  from step show ?thesis
  proof (cases rule: sys_step.cases)
    case (event ev evs k)
    have k: "k = add_key (sys_orc s) (event_key ev)" using on_event_key [OF q(1,2), of ev] event(3) by simp
    note add = add_key_waiting [OF q(1,2), of "event_key ev"]
    show ?thesis unfolding event(1) sys_inv_def k
      using add q(3) w m a event(2) by auto
  next
    case (take_key reqs k)
    then obtain key keys where key: "waiting_keys (sys_orc s) = key # keys" "reqs = fst (key_requests o1 o2 key)"
      "client_ok k" "waiting_keys k = keys" "\<not> wq_shuttingDown (rscQueue k)"
      using take_key_effect [OF q(1,2), of o1 o2] q(3) by auto
    show ?thesis unfolding take_key(1) sys_inv_def
      using key q(3) w m a take_key(2) by auto
  next
    case (request req reqs c)
    have lit: "sql_literal (HostName req)" using rq w request(2) by simp
    obtain m' where c: "c = \<lparr>Manager = Some m', pending = pending (sys_ctl s) @
        (case fst (serve req (mgr_book tbl m)) of None \<Rightarrow> [] | Some r \<Rightarrow> [r])\<rparr>"
      "mgr_book tbl m' = snd (serve req (mgr_book tbl m))" "mgr_wf tbl m'"
      using sys_request_effect [OF m(1,2) lit] request(3) by auto
    have got: "serve_all (got @ [req]) t0 = (fst (serve_all got t0) @
        (case fst (serve req (mgr_book tbl m)) of None \<Rightarrow> [] | Some r \<Rightarrow> [r]), snd (serve req (mgr_book tbl m)))"
      by (simp add: book_run_snoc Let_def m(3))
    have "whole = (got @ [req]) @ reqs @ keys_requests o1 o2 (waiting_keys (sys_orc s) @ map event_key (sys_todo s))"
      using w request(2) by simp
    moreover have made: "sys_made s @ drop (length (pending (sys_ctl s))) (pending c) = fst (serve_all (got @ [req]) t0)"
      using a(1) by (simp add: got c(1))
    moreover have "mset (sys_wrote s) + mset (pending c) = mset (fst (serve_all (got @ [req]) t0))"
      unfolding made [symmetric] using a(2) [symmetric] by (simp add: c(1))
    moreover have "mgr_book tbl m' = snd (serve_all (got @ [req]) t0)" by (simp add: got c(2))
    ultimately show ?thesis unfolding request(1) sys_inv_def
      using q a(3) c(1,3) by (auto intro!: exI [of _ "got @ [req]"])
  next
    case (answer us resp vs ap)
    have "for_resources (dom stss) (Request resp)"
      using answer_metadata [of "dom stss" got "sys_wrote s" "pending (sys_ctl s)" t0 resp] rq w a(1,2) answer(2) by simp
    from answer_effect [OF K a(3) this] answer(3)
    have "shown_writes exact stored ap (sys_wrote s @ [resp]) stss" by simp
    moreover have "mset (sys_wrote s @ [resp]) + mset (us @ vs) = mset (sys_made s)" using a(2) answer(2) by simp
    ultimately show ?thesis unfolding answer(1) sys_inv_def
      using q w m a(1) by (auto intro!: exI [of _ got])
  qed
qed

text \<open>Each step uses up some of the work that is left.\<close>

lemma sys_load_step:
  assumes inv: "sys_inv exact tbl stored o1 o2 t0 stss whole s" and rq: "requests_ok (dom stss) whole"
    and step: "sys_step (ipam_manager drv) K o1 o2 s s'"
  shows "sys_load o1 o2 s' < sys_load o1 o2 s"
proof -
  have q: "client_ok (sys_orc s)" "\<not> wq_shuttingDown (rscQueue (sys_orc s))"
    "list_all (\<lambda>key. snd (key_requests o1 o2 key) = None) (waiting_keys (sys_orc s))"
    using inv by (auto simp: sys_inv_def)
  from step show ?thesis
  proof (cases rule: sys_step.cases)
    case (event ev evs k)
    have "k = add_key (sys_orc s) (event_key ev)" using on_event_key [OF q(1,2), of ev] event(3) by simp
    then show ?thesis using add_key_waiting(2) [OF q(1,2), of "event_key ev"] event(1,2) by (simp add: sys_load_def)
  next
    case (take_key reqs k)
    then obtain key keys where "waiting_keys (sys_orc s) = key # keys" "reqs = fst (key_requests o1 o2 key)"
      "waiting_keys k = keys" using take_key_effect [OF q] by auto
    then show ?thesis using take_key(1,2) by (simp add: sys_load_def key_load_def)
  next
    case (request req reqs c)
    from inv obtain m where m: "Manager (sys_ctl s) = Some m" "mgr_wf tbl m" by (auto simp: sys_inv_def)
    have lit: "sql_literal (HostName req)" using inv rq request(2) by (auto simp: sys_inv_def)
    have "length (pending c) \<le> Suc (length (pending (sys_ctl s)))"
      using sys_request_effect [OF m lit] request(3) by (auto split: option.splits)
    then show ?thesis using request(1,2) by (simp add: sys_load_def)
  next
    case (answer us resp vs ap)
    then show ?thesis by (simp add: sys_load_def)
  qed
qed

lemma sys_runs:
  assumes inv: "sys_inv exact tbl stored o1 o2 t0 stss whole s" and rq: "requests_ok (dom stss) whole"
    and K: "api_ok exact K stored" and run: "(sys_step (ipam_manager drv) K o1 o2 ^^ n) s s'"
  shows "sys_inv exact tbl stored o1 o2 t0 stss whole s' \<and> n + sys_load o1 o2 s' \<le> sys_load o1 o2 s"
  using run
proof (induction n arbitrary: s')
  case 0
  then show ?case using inv by simp
next
  case (Suc n)
  then obtain u where u: "(sys_step (ipam_manager drv) K o1 o2 ^^ n) s u" "sys_step (ipam_manager drv) K o1 o2 u s'" by auto
  from Suc.IH [OF u(1)] sys_inv_step [OF _ rq K u(2)] sys_load_step [OF _ rq u(2)] show ?case by force
qed

lemma sys_finished:
  assumes "sys_inv exact tbl stored o1 o2 t0 stss whole s" and "sys_idle s"
  shows "\<exists>m. Manager (sys_ctl s) = Some m \<and> mgr_book tbl m = snd (serve_all whole t0)
    \<and> sys_made s = fst (serve_all whole t0)
    \<and> mset (sys_wrote s) + mset (pending (sys_ctl s)) = mset (sys_made s)
    \<and> shown_writes exact stored (sys_api s) (sys_wrote s) stss"
  using assms by (auto simp: sys_inv_def sys_idle_def)

text \<open>What holds in every state of every run, and in every final one.\<close>

lemma sys_result:
  assumes inv: "sys_inv exact tbl stored o1 o2 t0 stss whole s0" and rq: "requests_ok (dom stss) whole"
    and K: "api_ok exact K stored" and run: "(sys_step (ipam_manager drv) K o1 o2 ^^ n) s0 s"
  shows "n \<le> sys_load o1 o2 s0 \<and> \<not> sys_panics (ipam_manager drv) K o1 o2 s
      \<and> (sys_done s \<or> (\<exists>s'. sys_step (ipam_manager drv) K o1 o2 s s'))"
    and "sys_done s \<Longrightarrow> \<exists>m. Manager (sys_ctl s) = Some m \<and> mgr_book tbl m = snd (serve_all whole t0)
      \<and> sys_made s = fst (serve_all whole t0) \<and> mset (sys_wrote s) = mset (fst (serve_all whole t0))
      \<and> shown_writes exact stored (sys_api s) (sys_wrote s) stss"
proof -
  have inv': "sys_inv exact tbl stored o1 o2 t0 stss whole s" "n \<le> sys_load o1 o2 s0"
    using sys_runs [OF inv rq K run] by simp_all
  with sys_no_panic [OF inv'(1) rq K] sys_progress [OF inv'(1) rq K]
  show "n \<le> sys_load o1 o2 s0 \<and> \<not> sys_panics (ipam_manager drv) K o1 o2 s
      \<and> (sys_done s \<or> (\<exists>s'. sys_step (ipam_manager drv) K o1 o2 s s'))" by blast
  show "\<exists>m. Manager (sys_ctl s) = Some m \<and> mgr_book tbl m = snd (serve_all whole t0)
      \<and> sys_made s = fst (serve_all whole t0) \<and> mset (sys_wrote s) = mset (fst (serve_all whole t0))
      \<and> shown_writes exact stored (sys_api s) (sys_wrote s) stss" if "sys_done s"
    using sys_finished [OF inv'(1)] that by (auto simp: sys_done_def)
qed

text \<open>Every order of the answers is possible.\<close>

lemma sys_write_all:
  assumes rq: "requests_ok (dom stss) whole" and K: "api_ok exact K stored"
  shows "sys_inv exact tbl stored o1 o2 t0 stss whole s \<Longrightarrow> sys_idle s \<Longrightarrow> mset ws = mset (pending (sys_ctl s)) \<Longrightarrow>
    \<exists>n s'. (sys_step (ipam_manager drv) K o1 o2 ^^ n) s s' \<and> sys_done s' \<and> sys_wrote s' = sys_wrote s @ ws"
proof (induction ws arbitrary: s)
  case Nil
  then have "sys_done s" by (simp add: sys_done_def)
  then show ?case by (intro exI [of _ 0] exI [of _ s]) simp
next
  case (Cons resp ws)
  have "resp \<in># mset (pending (sys_ctl s))" by (simp flip: Cons.prems(3))
  then obtain us vs where split: "pending (sys_ctl s) = us @ resp # vs" by (auto dest: split_list)
  obtain u where u: "sys_step (ipam_manager drv) K o1 o2 s u" "sys_idle u" "pending (sys_ctl u) = us @ vs"
    "sys_wrote u = sys_wrote s @ [resp]"
    using sys_answer_any [OF Cons.prems(1) rq K split] Cons.prems(2) by blast
  have "mset ws = mset (pending (sys_ctl u))" using Cons.prems(3) by (simp add: u(3) split)
  from Cons.IH [OF sys_inv_step [OF Cons.prems(1) rq K u(1)] u(2) this] obtain n s' where
    "(sys_step (ipam_manager drv) K o1 o2 ^^ n) u s'" "sys_done s'" "sys_wrote s' = sys_wrote s @ resp # ws"
    by (auto simp: u(4))
  with u(1) show ?case by (intro exI [of _ "Suc n"] exI [of _ s'] conjI relpowp_Suc_I2)
qed

lemma sys_every_order:
  assumes inv: "sys_inv exact tbl stored o1 o2 t0 stss whole s" and rq: "requests_ok (dom stss) whole"
    and K: "api_ok exact K stored" and none: "sys_wrote s = []" and ws: "mset ws = mset (fst (serve_all whole t0))"
  shows "\<exists>n s'. (sys_step (ipam_manager drv) K o1 o2 ^^ n) s s' \<and> sys_done s' \<and> sys_wrote s' = ws
    \<and> sys_made s' = fst (serve_all whole t0)"
proof -
  let ?R = "sys_step (ipam_manager drv) K o1 o2"
  have "\<exists>n u. (?R ^^ n) s u \<and> sys_wrote u = [] \<and> sys_idle u"
  proof (rule bounded_run_ends [where P = "\<lambda>u. sys_wrote u = []" and N = "sys_load o1 o2 s"])
    show "n \<le> sys_load o1 o2 s" if "(?R ^^ n) s u" for n u using sys_runs [OF inv rq K that] by simp
    show "sys_idle u \<or> (\<exists>s'. ?R u s' \<and> sys_wrote s' = [])" if "(?R ^^ n) s u" "sys_wrote u = []" for n u
      using sys_progress_request [OF conjunct1 [OF sys_runs [OF inv rq K that(1)]] rq K] that(2) by auto
  qed (rule none)
  then obtain n u where u: "(?R ^^ n) s u" "sys_wrote u = []" "sys_idle u" by blast
  have iu: "sys_inv exact tbl stored o1 o2 t0 stss whole u" using sys_runs [OF inv rq K u(1)] by blast
  have "mset ws = mset (pending (sys_ctl u))" using sys_finished [OF iu u(3)] ws u(2) by auto
  from sys_write_all [OF rq K iu u(3) this] obtain n' s' where
    s': "(?R ^^ n') u s'" "sys_done s'" "sys_wrote s' = ws" by (auto simp: u(2))
  have run: "(?R ^^ (n + n')) s s'" using u(1) s'(1) by (auto simp: relpowp_add)
  have "sys_made s' = fst (serve_all whole t0)"
    using sys_result(2) [OF inv rq K run s'(2)] by blast
  with run s' show ?thesis by blast
qed

end

text \<open>The events of a resource.\<close>

fun update_events :: "F5IPAM \<Rightarrow> F5IPAM list \<Rightarrow> informer_event list" where
  "update_events r [] = []"
| "update_events r (r1 # rs) = Updated r r1 # update_events r1 rs"

definition resource_events :: "F5IPAM \<Rightarrow> F5IPAM list \<Rightarrow> informer_event list" where
  "resource_events r rs = Added r # update_events r rs"

lemma resource_events_keys: "map event_key (resource_events r rs) = create_key r # update_keys r rs"
proof -
  have "map event_key (update_events r rs) = update_keys r rs" by (induction r rs rule: update_events.induct) simp_all
  then show ?thesis by (simp add: resource_events_def)
qed

text \<open>The program after its start, with the events to come.\<close>

definition sys_start :: "informer_event list \<Rightarrow> 'm \<Rightarrow> 'api \<Rightarrow> ('m, 'api) sys" where
  "sys_start evs m a = \<lparr>sys_todo = evs, sys_orc = new_client, sys_sending = [],
     sys_ctl = NewController (Some m), sys_api = a, sys_made = [], sys_wrote = []\<rparr>"

lemma sys_start_inv:
  assumes "list_all (\<lambda>key. snd (key_requests o1 o2 key) = None) (map event_key evs)"
    and "mgr_wf tbl m" and "statuses_stored stored a stss"
  shows "sys_inv exact tbl stored o1 o2 (mgr_book tbl m) stss (keys_requests o1 o2 (map event_key evs)) (sys_start evs m a)"
proof -
  have "waiting_keys new_client = []" "\<not> wq_shuttingDown (rscQueue new_client)"
    by (simp_all add: waiting_keys_def new_client_def wq_new_def)
  moreover have "shown_writes exact stored a [] stss" using assms(3) by (auto simp: shown_writes_def intro: exI [of _ "[]"])
  ultimately show ?thesis using assms(1,2) client_ok_new
    by (auto simp: sys_inv_def sys_start_def NewController_def intro!: exI [of _ "[]"])
qed

end
