(* ===== verification/Leaks.thy ===== *)
theory Leaks
  imports Requests AnswerOrder
begin

text \<open>
  Two ways in which book and status part. An address that is marked allocated but recorded
  for no host is never given to anyone again. A DELETE for one of two networks of a host
  releases its only address, while the entry for the other network stays in the status.
\<close>

section \<open>Lost addresses\<close>

definition lost :: "string \<Rightarrow> tables \<Rightarrow> bool" where
  "lost ip t \<longleftrightarrow> book_ok t \<and> ip \<in> alloc_ips t \<and> ip \<notin> fst ` set (a_records t)"

lemma lost_not_available: "lost ip t \<Longrightarrow> ip \<notin> avail_ips t"
  using alloc_avail_disjoint [of t] by (auto simp: lost_def book_ok_def)

lemma lost_not_empty: "lost ip t \<Longrightarrow> ip \<noteq> []"
  by (force simp: lost_def book_ok_def pool_ok_def alloc_ips_def)

lemma lost_mark:
  assumes "lost ip t" and "r \<in> set (ranges t)" "row_status r = AVAILABLE"
  shows "row_ip r \<noteq> ip" and "ip \<in> alloc_ips (tb_status_by_id ALLOCATED (row_id r) t)"
proof -
  have "row_ip r \<in> avail_ips t" using assms(2,3) by (auto simp: avail_ips_def)
  then show "row_ip r \<noteq> ip" using lost_not_available [OF assms(1)] by auto
  show "ip \<in> alloc_ips (tb_status_by_id ALLOCATED (row_id r) t)"
    using assms(1,2) by (simp add: alloc_ips_mark lost_def book_ok_def)
qed

text \<open>What is lost stays lost, and no answer shows it.\<close>

lemma lost_serve [inv_keep]:
  assumes lost: "lost ip t"
  shows "lost ip (snd (book_serve bindable in_net req t))"
    and "fst (book_serve bindable in_net req t) = Some resp \<Longrightarrow> RespIPAddr resp \<noteq> ip"
proof -
  have look: "bk_lookup h t \<noteq> ip" for h
    using bk_lookup_bound [of h t ip] lost_not_empty [OF lost] lost by (force simp: lost_def)
  have take: "jp \<noteq> ip \<and> ip \<in> alloc_ips (snd (bk_take c jp t))" if "fst (bk_take c jp t)" for c jp
    using that lost_mark [OF lost] by (auto simp: bk_take_def split: option.splits dest!: tb_available_ip_SomeD)
  have nxt: "fst (bk_next c t) \<noteq> ip \<and> ip \<in> alloc_ips (snd (bk_next c t))" for c
    using lost lost_not_empty [OF lost] lost_mark [OF lost]
    by (auto simp: bk_next_def lost_def split: option.splits dest!: tb_available_SomeD)
  have "ip \<in> alloc_ips (snd (book_serve bindable in_net req t))
      \<and> ip \<notin> fst ` set (a_records (snd (book_serve bindable in_net req t)))"
    using lost look take nxt
    by (auto simp: book_serve_defs lost_def Let_def bk_bind_def bk_unbind_def bk_release_def alloc_ips_release)
  then show "lost ip (snd (book_serve bindable in_net req t))"
    using book_ok_serve [of t bindable in_net req] lost by (simp add: lost_def)
  show "RespIPAddr resp \<noteq> ip" if "fst (book_serve bindable in_net req t) = Some resp"
    using that look [of "HostName req"] take [of "CIDR req" "IPAddr req"] nxt [of "CIDR req"] lost_not_empty [OF lost]
    by (auto simp: book_serve_defs reply_def split: if_splits)
qed

lemma lost_run:
  assumes "lost ip t"
  shows "lost ip (snd (book_run bindable in_net reqs t))
    \<and> list_all (\<lambda>resp. RespIPAddr resp \<noteq> ip) (fst (book_run bindable in_net reqs t))"
  using assms
proof (induction reqs arbitrary: t)
  case (Cons req reqs)
  note serve = lost_serve [OF Cons.prems, of bindable in_net req]
  from Cons.IH [OF serve(1)] serve(2) show ?case
    by (auto simp: book_run_Cons simp del: book_run.simps split: option.split)
qed simp

text \<open>A CREATE that is given an address which cannot be recorded loses it.\<close>

lemma create_loses:
  assumes ok: "book_ok t" and h: "h \<notin> snd ` set (a_records t)"
    and row: "tb_available c t = Some row" and nb: "\<not> bindable (row_ip row)"
  shows "fst (book_serve bindable in_net (create_request md h c []) t) =
      Some (reply (create_request md h c []) (row_ip row) True)"
    and "lost (row_ip row) (snd (book_serve bindable in_net (create_request md h c []) t))"
proof -
  note r = tb_available_SomeD [OF row]
  have ne: "row_ip row \<noteq> []" using ok r by (force simp: book_ok_def pool_ok_def)
  have "bk_lookup h t = []" using bk_lookup_unbound [OF ok] h by simp
  then have serve: "book_serve bindable in_net (create_request md h c []) t =
      (Some (reply (create_request md h c []) (row_ip row) True), tb_status_by_id ALLOCATED (row_id row) t)"
    using row nb ne by (simp add: book_serve_defs bk_next_def)
  then show "fst (book_serve bindable in_net (create_request md h c []) t) =
      Some (reply (create_request md h c []) (row_ip row) True)" by simp
  have "row_ip row \<in> avail_ips t" using r by (auto simp: avail_ips_def)
  then have "row_ip row \<notin> alloc_ips t" using alloc_avail_disjoint [of t] ok by (auto simp: book_ok_def)
  then show "lost (row_ip row) (snd (book_serve bindable in_net (create_request md h c []) t))"
    using book_mark_bind(1) [OF ok] r ok unfolding serve
    by (auto simp: lost_def alloc_ips_mark book_ok_def bound_ok_def)
qed

section \<open>One host in two networks\<close>

lemma delete_book:
  assumes ok: "book_ok t" and rec: "filter (\<lambda>r. snd r = h) (a_records t) = [(ip, h)]" and b: "bindable ip"
  shows "book_serve bindable in_net (delete_request md h c i) t =
     (Some (reply (delete_request md h c i) [] True), bk_unbind h ip (bk_release ip t))"
proof -
  have "(ip, h) \<in> set (a_records t)" using arg_cong [OF rec, of set] by auto
  then have "ip \<noteq> []" using book_no_empty_ip [OF ok] by force
  moreover have "bk_lookup h t = ip" using rec by (intro bk_lookup_single) simp
  ultimately show ?thesis using b by (simp add: book_serve_def book_delete_def)
qed

text \<open>In a network without a free address the next host is given the address just released.\<close>

lemma next_after_release:
  assumes full: "tb_available c t = None" and ip: "ip \<noteq> []" and row: "r \<in> set (ranges t)" "row_ip r = ip" "row_cidr r = c"
  shows "fst (bk_next c (bk_unbind h ip (bk_release ip t))) = ip"
proof -
  let ?t = "bk_unbind h ip (bk_release ip t)"
  have rows: "ranges ?t = map (\<lambda>r. if row_ip r = ip then r\<lparr>row_status := AVAILABLE\<rparr> else r) (ranges t)"
    by (simp add: bk_unbind_def bk_release_def ranges_status)
  have free: "row_ip s = ip" if "s \<in> set (ranges ?t)" "row_status s = AVAILABLE" "row_cidr s = c" for s
    using that full by (auto simp: rows tb_available_None split: if_splits)
  have "r\<lparr>row_status := AVAILABLE\<rparr> \<in> set (ranges ?t)" 
    unfolding rows set_map by (rule image_eqI [OF _ row(1)]) (simp add: row(2))
  then have "tb_available c ?t \<noteq> None" unfolding tb_available_None using row(3)
    by (intro notI) (drule bspec, assumption, simp)
  then obtain s where "tb_available c ?t = Some s" by blast
  with tb_available_SomeD [OF this] free show ?thesis by (simp add: bk_next_def)
qed

lemma two_networks_run:
  fixes t md h c c' ip b i
  defines "rs \<equiv> [create_request md h c' [], delete_request md h c' i, create_request md b c []]"
  assumes ok: "book_ok t" and rec: "filter (\<lambda>r. snd r = h) (a_records t) = [(ip, h)]" and bi: "bindable ip"
    and b: "b \<notin> snd ` set (a_records t)" and full: "tb_available c t = None"
    and row: "r \<in> set (ranges t)" "row_ip r = ip" "row_cidr r = c"
  shows "fst (book_run bindable in_net rs t) =
       [reply (rs ! 0) ip True, reply (rs ! 1) [] True, reply (rs ! 2) ip True]"
    and "a_records (snd (book_run bindable in_net rs t)) = filter (\<lambda>rec. snd rec \<noteq> h) (a_records t) @ [(ip, b)]"
proof -
  let ?t = "bk_unbind h ip (bk_release ip t)"
  have mem: "(ip, h) \<in> set (a_records t)" using arg_cong [OF rec, of set] by auto
  have ne: "ip \<noteq> []" using book_no_empty_ip [OF ok] mem by force
  have "bk_lookup h t = ip" using rec by (intro bk_lookup_single) simp
  then have one: "book_serve bindable in_net (create_request md h c' []) t = (Some (reply (rs ! 0) ip True), t)"
    using ne by (simp add: book_serve_def book_create_def rs_def)
  note two = delete_book [where bindable = bindable, OF ok rec bi, of in_net md c' i]
  have frees: "a_records ?t = filter (\<lambda>rec. snd rec \<noteq> h) (a_records t)"
    using delete_frees(3) [where bindable = bindable, OF ok rec bi two] .
  have "book_ok ?t" using book_release_unbind [OF ok mem] .
  moreover have "b \<notin> snd ` set (a_records ?t)" using b by auto
  ultimately have "bk_lookup b ?t = []" using bk_lookup_unbound by simp
  then have three: "book_serve bindable in_net (create_request md b c []) ?t =
      (Some (reply (rs ! 2) ip True), bk_bind b ip (snd (bk_next c ?t)))"
    using next_after_release [OF full ne row, of h] bi ne
    by (simp add: book_serve_def book_create_def book_bind_def rs_def)
  have run: "book_run bindable in_net rs t = ([reply (rs ! 0) ip True, reply (rs ! 1) [] True, reply (rs ! 2) ip True],
      bk_bind b ip (snd (bk_next c ?t)))"
    by (simp add: rs_def book_run_Cons one [unfolded rs_def] two three [unfolded rs_def] del: book_run.simps(2))
  show "fst (book_run bindable in_net rs t) =
       [reply (rs ! 0) ip True, reply (rs ! 1) [] True, reply (rs ! 2) ip True]" by (simp add: run)
  show "a_records (snd (book_run bindable in_net rs t)) = filter (\<lambda>rec. snd rec \<noteq> h) (a_records t) @ [(ip, b)]"
    using frees by (simp add: run)
qed

text \<open>The status after these answers.\<close>

lemma two_networks_status:
  assumes "s \<in> set sts" "status_key s = (h, c)" and "c \<noteq> c'" and "b \<noteq> h"
  shows "s \<in> set (fold status_after [reply (create_request md h c' []) ip True,
      reply (delete_request md h c' i) [] True, reply (create_request md b c []) ip True] sts)"
    and "\<exists>s'\<in>set (fold status_after [reply (create_request md h c' []) ip True,
      reply (delete_request md h c' i) [] True, reply (create_request md b c []) ip True] sts).
        status_key s' = (b, c) \<and> ips_IP s' = ip"
proof -
  let ?ans = "[reply (create_request md h c' []) ip True, reply (delete_request md h c' i) [] True,
    reply (create_request md b c []) ip True]"
  have "answers_at (h, c) ?ans = []" using assms(3,4) by (simp add: answers_at_def resp_entry_def reply_def)
  then have "entries_at (h, c) (fold status_after ?ans sts) = entries_at (h, c) sts"
    unfolding entries_at_fold by simp
  moreover have "s \<in> set (entries_at (h, c) sts)" using assms(1,2) by (simp add: entries_at_def)
  ultimately have "s \<in> set (entries_at (h, c) (fold status_after ?ans sts))" by simp
  then show "s \<in> set (fold status_after ?ans sts)" by (simp add: entries_at_def)
  have put: "fold status_after ?ans sts = status_put b c ip (fold status_after (take 2 ?ans) sts)"
    by (simp add: status_after_def [where resp = "\<lparr>Request = create_request md b c [], RespIPAddr = ip, Status = True\<rparr>"] reply_def)
  let ?x = "fold status_after (take 2 ?ans) sts"
  obtain s' where s': "s' \<in> set (status_put b c ip ?x)" "same_entry b c s'" using status_put_lookup(2) by blast
  with status_put_lookup(1) [of s' b c ip ?x] show "\<exists>s'\<in>set (fold status_after ?ans sts). status_key s' = (b, c) \<and> ips_IP s' = ip"
    unfolding put same_entry_key by blast
qed

end
