(* ===== verification/System.thy ===== *)
theory System
  imports Examples Schedules Leaks
begin

text \<open>
  Properties of the path from the events of a resource to its status: the status converges to
  the hosts of the last version, and the two cases in which it goes wrong.
\<close>

section \<open>From the events of a resource to its status\<close>

text \<open>C1: Whatever the versions of a resource, whatever the interleaving of the informer, the
  orchestrator's worker, the controller and the answer worker, and in whatever order the
  answers are taken, over a healthy database and API server: no goroutine panics, the system
  is never stuck, and after a bounded number of steps all work is done, the answers made are
  the same in every run, and each has been written once. Then the address book records exactly the hosts of the last version,
  each with an address of the configured ranges that no other host has. The status has at
  most one entry for a host and network, and the entries of a host whose own answers were
  written in the order they were made show exactly its record; if this holds for all hosts,
  the entries are the records. Every order of the answers is possible. The networks must be large enough for
  the hosts of every version; the start may be a restart with a status whose entries are
  available.\<close>

theorem every_schedule_converges:
  assumes "reliable_sqlite drv tbl has" and "kube_server K stored"
    and "es \<noteq> []" and "list_all valid_entry es" and "distinct (all_ips es)"
    and "map_order o1" and "map_order o2"
    and "list_all (version_ok net ns nm) (r # rs)"
    and "list_all (\<lambda>x. fits net (first_book es) (spec_hosts x)) (r # rs)"
    and "status_of r = map Some sts" and "ips_Host ` set sts \<subseteq> spec_hosts r"
    and "distinct (map ips_Host sts)" and "distinct (map ips_IP sts)"
    and "list_all (\<lambda>s. ips_Cidr s = net (ips_Host s)) sts"
    and "list_all (entry_available isIPV4Addr addr_in_net (first_book es)) (status_entries sts)"
    and "map_option status_of (stored api (ns, nm)) = Some (map Some sts)"
  shows "\<exists>m N made. NewManager drv (f5_params es) = Inr (Some m)
    \<and> (\<forall>n s. (sys_step (ipam_manager drv) K o1 o2 ^^ n) (sys_start (resource_events r rs) m api) s \<longrightarrow>
         n \<le> N \<and> \<not> sys_panics (ipam_manager drv) K o1 o2 s
       \<and> (sys_done s \<or> (\<exists>s'. sys_step (ipam_manager drv) K o1 o2 s s'))
       \<and> (sys_done s \<longrightarrow> sys_made s = made \<and> mset (sys_wrote s) = mset made
          \<and> (\<exists>m' sts'. Manager (sys_ctl s) = Some m'
            \<and> map_option status_of (stored (sys_api s) (ns, nm)) = Some (map Some sts')
            \<and> hosts_served net (set (all_ips es)) (spec_hosts (last (r # rs))) (a_records (mgr_book tbl m'))
                (sys_wrote s) made sts')))
    \<and> (\<forall>ws. mset ws = mset made \<longrightarrow>
         (\<exists>n s. (sys_step (ipam_manager drv) K o1 o2 ^^ n) (sys_start (resource_events r rs) m api) s
            \<and> sys_done s \<and> sys_wrote s = ws))"
proof -
  let ?evs = "resource_events r rs" and ?R = "sys_step (ipam_manager drv) K o1 o2"
  let ?reqs = "keys_requests o1 o2 (create_key r # update_keys r rs)"
  let ?made = "fst (serve_all ?reqs (first_book es))" and ?t = "snd (serve_all ?reqs (first_book es))"
  have recs: "a_records (first_book es) = []"
    by (simp add: entries_tables_rows) (simp add: empty_tables_def)
  note life = lifecycle_run [OF assms(6-15) first_book_no_leak [OF assms(5)] recs refl]
  obtain m where m: "NewManager drv (f5_params es) = Inr (Some m)" "mgr_wf tbl m" "mgr_book tbl m = first_book es"
    using reliable_sqlite.NewManager_book [OF assms(1,3,4)] by blast
  let ?stss = "[(ns, nm) \<mapsto> sts] :: statuses"
  have rq: "requests_ok (dom ?stss) ?reqs" using life(2) by (auto simp: requests_ok_def for_resources_def)
  have keys: "list_all (\<lambda>key. snd (key_requests o1 o2 key) = None) (map event_key ?evs)"
    using life(1) by (simp only: resource_events_keys)
  let ?start = "sys_start ?evs m api"
  have "statuses_stored stored api ?stss" using assms(16) by (simp add: statuses_stored_def)
  then have inv: "sys_inv True tbl stored o1 o2 (first_book es) ?stss ?reqs ?start"
    using sys_start_inv [OF keys m(2)] by (simp only: resource_events_keys m(3))
  have "distinct (map status_key sts)" using assms(12) by (auto simp: distinct_map inj_on_def status_key_def)
  note served = settled_written [OF life(3) this life(4), of "set (all_ips es)"]
  have pool: "row_ip ` set (ranges ?t) \<subseteq> set (all_ips es)" using run_pool [of ?reqs es] by simp
  note result = reliable_sqlite.sys_result [OF assms(1) inv rq api_ok_server [OF assms(2)], unfolded shown_writes_exact]
  have fin: "sys_made s = ?made \<and> mset (sys_wrote s) = mset ?made \<and> (\<exists>m' sts'. Manager (sys_ctl s) = Some m'
      \<and> map_option status_of (stored (sys_api s) (ns, nm)) = Some (map Some sts')
      \<and> hosts_served net (set (all_ips es)) (spec_hosts (last (r # rs))) (a_records (mgr_book tbl m'))
          (sys_wrote s) ?made sts')"
    if run: "(?R ^^ n) ?start s" and fin: "sys_done s" for n s
  proof -
    obtain m' where m': "Manager (sys_ctl s) = Some m'" "mgr_book tbl m' = ?t" "sys_made s = ?made"
      "mset (sys_wrote s) = mset ?made" "statuses_stored stored (sys_api s) (statuses_after (sys_wrote s) ?stss)"
      using result(2) [OF run fin] by blast
    have "answers_for (ns, nm) (sys_wrote s) = sys_wrote s" using answers_for_one [OF _ m'(4)] rq by simp
    then have "map_option status_of (stored (sys_api s) (ns, nm)) = Some (map Some (fold status_after (sys_wrote s) sts))"
      using statuses_stored_at [OF m'(5), of "(ns, nm)"] by simp
    with m' served [OF pool, of "sys_wrote s"] show ?thesis by metis
  qed
  have ex: "\<exists>n s. (?R ^^ n) ?start s \<and> sys_done s \<and> sys_wrote s = ws" if "mset ws = mset ?made" for ws
    using reliable_sqlite.sys_every_order [OF assms(1) inv rq api_ok_server [OF assms(2)] _ that] by (auto simp: sys_start_def)
  show ?thesis
    by (rule exI [of _ m], rule exI [of _ "sys_load o1 o2 ?start"], rule exI [of _ ?made], intro conjI allI impI m(1) ex)
      (blast dest: result(1) fin)+
qed

text \<open>Two versions of a resource on the example pool.\<close>

definition ex_versions :: "F5IPAM list" where
  "ex_versions =
     [ex_rsc [Some \<lparr>hs_Host = ''a.com'', hs_Cidr = ex_cidr\<rparr>, Some \<lparr>hs_Host = ''b.com'', hs_Cidr = ex_cidr\<rparr>] [],
      ex_rsc [Some \<lparr>hs_Host = ''b.com'', hs_Cidr = ex_cidr\<rparr>, Some \<lparr>hs_Host = ''c.com'', hs_Cidr = ex_cidr\<rparr>] []]"

lemma ex_spec_hosts:
  "map spec_hosts ex_versions = [{''a.com'', ''b.com''}, {''b.com'', ''c.com''}]"
  by (simp add: ex_versions_def spec_hosts_def ex_rsc_def Collect_disj_eq image_Un) auto

lemma ex_fits:
  assumes "card H \<le> 3" and "finite H"
  shows "fits (\<lambda>_. ex_cidr) (first_book ex_entries) H"
proof -
  have "net_size ex_cidr (first_book ex_entries) = 3" by code_simp
  moreover have "in_hosts (\<lambda>_. ex_cidr) c H = (if c = ex_cidr then H else {})" for c
    by (auto simp: in_hosts_def)
  ultimately show ?thesis using assms by (simp add: fits_def)
qed

lemma ex_versions_ok:
  "list_all (version_ok (\<lambda>_. ex_cidr) ''kube-system'' ''ipam'') ex_versions"
  "list_all (\<lambda>x. fits (\<lambda>_. ex_cidr) (first_book ex_entries) (spec_hosts x)) ex_versions"
proof -
  show "list_all (version_ok (\<lambda>_. ex_cidr) ''kube-system'' ''ipam'') ex_versions"
    using ex_literals by (simp add: ex_versions_def version_ok_def ex_rsc_def)
  have "list_all (\<lambda>H. fits (\<lambda>_. ex_cidr) (first_book ex_entries) H) (map spec_hosts ex_versions)"
    unfolding ex_spec_hosts by (auto intro!: ex_fits)
  then show "list_all (\<lambda>x. fits (\<lambda>_. ex_cidr) (first_book ex_entries) (spec_hosts x)) ex_versions"
    by (simp add: list_all_iff)
qed

text \<open>A run that finishes on the example.\<close>

theorem every_schedule_converges_witness:
  "\<exists>m n s sts'. NewManager ref_driver (f5_params ex_entries) = Inr (Some m)
    \<and> (sys_step (ipam_manager ref_driver) kube_ref id id ^^ n)
        (sys_start (resource_events (hd ex_versions) (tl ex_versions)) m [hd ex_versions]) s
    \<and> sys_done s
    \<and> map_option status_of (ref_find (sys_api s) (''kube-system'', ''ipam'')) = Some (map Some sts')
    \<and> ips_Host ` set sts' = {''b.com'', ''c.com''}"
proof -
  let ?R = "sys_step (ipam_manager ref_driver) kube_ref id id"
  have vs: "hd ex_versions # tl ex_versions = ex_versions" by (simp add: ex_versions_def)
  have last_hosts: "spec_hosts (last ex_versions) = {''b.com'', ''c.com''}"
    using ex_spec_hosts by (simp add: ex_versions_def)
  let ?v = "hd ex_versions" and ?vs = "tl ex_versions"
  have ord: "map_order id" by (simp add: map_order_def)
  have vok: "list_all (version_ok (\<lambda>_. ex_cidr) ''kube-system'' ''ipam'') (?v # ?vs)"
    "list_all (\<lambda>x. fits (\<lambda>_. ex_cidr) (first_book ex_entries) (spec_hosts x)) (?v # ?vs)"
    unfolding vs by (rule ex_versions_ok)+
  have sts: "status_of ?v = map Some []" "ips_Host ` set [] \<subseteq> spec_hosts ?v"
    "distinct (map ips_Host [])" "distinct (map ips_IP [])" "list_all (\<lambda>s. ips_Cidr s = ex_cidr) []"
    "list_all (entry_available isIPV4Addr addr_in_net (first_book ex_entries)) (status_entries [])"
    "map_option status_of (ref_find [?v] (''kube-system'', ''ipam'')) = Some (map Some [])"
    using ex_rsc_stored by (simp_all add: ex_versions_def ex_rsc_def status_entries_def)
  note conv = every_schedule_converges [of ref_driver ref_tables ref_has kube_ref ref_find ex_entries id id
      "\<lambda>_. ex_cidr" "''kube-system''" "''ipam''" ?v ?vs "[]" "[?v]",
      OF ref.reliable_sqlite_axioms kube.kube_server_axioms ex_entries_ok ord ord vok sts]
  then obtain m N made where m: "NewManager ref_driver (f5_params ex_entries) = Inr (Some m)"
    and all: "\<forall>n s. (?R ^^ n) (sys_start (resource_events ?v ?vs) m [?v]) s \<longrightarrow>
         n \<le> N \<and> \<not> sys_panics (ipam_manager ref_driver) kube_ref id id s
       \<and> (sys_done s \<or> (\<exists>s'. ?R s s'))
       \<and> (sys_done s \<longrightarrow> sys_made s = made \<and> mset (sys_wrote s) = mset made
          \<and> (\<exists>m' sts'. Manager (sys_ctl s) = Some m'
            \<and> map_option status_of (ref_find (sys_api s) (''kube-system'', ''ipam'')) = Some (map Some sts')
            \<and> hosts_served (\<lambda>_. ex_cidr) (set (all_ips ex_entries)) (spec_hosts (last (?v # ?vs)))
                (a_records (mgr_book ref_tables m')) (sys_wrote s) made sts'))"
    and ex: "\<forall>ws. mset ws = mset made \<longrightarrow> (\<exists>n s. (?R ^^ n) (sys_start (resource_events ?v ?vs) m [?v]) s
       \<and> sys_done s \<and> sys_wrote s = ws)"
    by (elim exE conjE)
  obtain n s where s: "(?R ^^ n) (sys_start (resource_events ?v ?vs) m [?v]) s" "sys_done s" "sys_wrote s = made"
    using ex [rule_format, OF refl] by (elim exE conjE)
  obtain m' sts' where sts': "map_option status_of (ref_find (sys_api s) (''kube-system'', ''ipam'')) = Some (map Some sts')"
    "hosts_served (\<lambda>_. ex_cidr) (set (all_ips ex_entries)) (spec_hosts (last (?v # ?vs)))
       (a_records (mgr_book ref_tables m')) (sys_wrote s) made sts'"
    using all [rule_format, OF s(1)] s(2) by (elim conjE impE exE)
  have "ips_Host ` set sts' = snd ` (\<lambda>s. (ips_IP s, ips_Host s)) ` set sts'" by (simp add: image_image)
  also have "\<dots> = {''b.com'', ''c.com''}" using sts'(2) by (simp add: hosts_served_def s(3) vs last_hosts)
  finally have "ips_Host ` set sts' = {''b.com'', ''c.com''}" .
  with m s(1,2) sts'(1) show ?thesis by (intro exI conjI)
qed

text \<open>C7: When a resource is deleted, every host of its status that has one address is asked to be
  deleted, its address becomes available again, the records of all other hosts stay, and
  the answers, which find no resource, change no status.\<close>

theorem deleted_resource_frees:
  assumes "reliable_sqlite drv tbl has" and "kube_server K stored"
    and "mgr_wf tbl m" and "no_leak isIPV4Addr (mgr_book tbl m)"
    and "status_of r = map Some sts" and "distinct (map ips_Host sts)"
    and "list_all (\<lambda>s. sql_literal (ips_Host s)) sts"
    and "list_all (\<lambda>s. filter (\<lambda>rec. snd rec = ips_Host s) (a_records (mgr_book tbl m)) =
           [(ips_IP s, ips_Host s)]) sts"
    and "stored api (Namespace r, Name r) = None"
  shows "\<exists>reqs ctlr m' api'.
      key_requests o1 o2 \<lparr>rsc = Some r, oldRsc = None, rq_Operation = OP_DELETE\<rparr> = (reqs, None)
    \<and> runController (ipam_manager drv) (NewController (Some m)) reqs = Inr ctlr
    \<and> Manager ctlr = Some m'
    \<and> pending ctlr = map (\<lambda>req. reply req [] True) reqs
    \<and> a_records (mgr_book tbl m') = filter (\<lambda>rec. snd rec \<notin> ips_Host ` set sts) (a_records (mgr_book tbl m))
    \<and> avail_ips (mgr_book tbl m') = ips_IP ` set sts \<union> avail_ips (mgr_book tbl m)
    \<and> processResponse K api (pending ctlr) = Inr api'
    \<and> (\<forall>k. map_option status_of (stored api' k) = map_option status_of (stored api k))"
proof -
  let ?reqs = "map (status_request OP_DELETE r) sts"
  have key: "key_requests o1 o2 \<lparr>rsc = Some r, oldRsc = None, rq_Operation = OP_DELETE\<rparr> = (?reqs, None)"
    by (simp add: key_requests_def assms(5) send_each_plain)
  have lit: "list_all (\<lambda>req. sql_literal (HostName req)) ?reqs"
    using assms(7) by (simp add: list_all_iff status_request_def)
  have ents: "list_all (entry_records (mgr_book tbl m)) sts"
    using assms(8) by (simp add: list_all_iff entry_records_def)
  note del = delete_entries [OF assms(4,6) ents refl, of addr_in_net r]
  obtain m' where run: "runController (ipam_manager drv) (NewController (Some m)) ?reqs =
      Inr \<lparr>Manager = Some m', pending = fst (serve_all ?reqs (mgr_book tbl m))\<rparr>"
    "mgr_book tbl m' = snd (serve_all ?reqs (mgr_book tbl m))"
    using reliable_sqlite.requests_book [OF assms(1,3) lit, of "[]"] by (auto simp: NewController_def)
  have "list_all (\<lambda>resp. Metadata (Request resp) = Meta \<lparr>meta_name = Name r, meta_namespace = Namespace r\<rparr>)
      (map (\<lambda>req. reply req [] True) ?reqs)"
    by (simp add: list_all_iff reply_def status_request_def rsc_meta_def)
  from kube_server.responses_missing [OF assms(2) this assms(9)] obtain api' where
    "processResponse K api (map (\<lambda>req. reply req [] True) ?reqs) = Inr api'"
    "\<forall>k. map_option status_of (stored api' k) = map_option status_of (stored api k)" by blast
  with key run del show ?thesis by fastforce
qed

theorem deleted_resource_frees_witness:
  "\<exists>reqs ctlr m'.
      key_requests id id \<lparr>rsc = Some (ex_rsc [] [Some \<lparr>ips_Host = ''a.com'', ips_Cidr = ex_cidr, ips_IP = ''192.168.1.1''\<rparr>]),
        oldRsc = None, rq_Operation = OP_DELETE\<rparr> = (reqs, None)
    \<and> runController (ipam_manager ref_driver) (NewController (Some ex_mgr2)) reqs = Inr ctlr
    \<and> Manager ctlr = Some m' \<and> a_records (mgr_book ref_tables m') = [(''192.168.1.2'', ''b.com'')]"
proof -
  let ?s = "\<lparr>ips_Host = ''a.com'', ips_Cidr = ex_cidr, ips_IP = ''192.168.1.1''\<rparr>"
  have recs: "a_records (mgr_book ref_tables ex_mgr2) = [(''192.168.1.1'', ''a.com''), (''192.168.1.2'', ''b.com'')]"
    by (simp add: ex_mgr2_def ex_state_def ref_tables_def)
  have "no_leak isIPV4Addr (mgr_book ref_tables ex_mgr2)"
    unfolding no_leak_def using ex_mgr_ok(4) by (intro conjI; (assumption | code_simp))
  from deleted_resource_frees [OF ref.reliable_sqlite_axioms kube.kube_server_axioms ex_mgr_ok(2) this,
      of "ex_rsc [] [Some ?s]" "[?s]" "[]" id id]
  obtain reqs ctlr m' where
    "key_requests id id \<lparr>rsc = Some (ex_rsc [] [Some ?s]), oldRsc = None, rq_Operation = OP_DELETE\<rparr> = (reqs, None)"
    "runController (ipam_manager ref_driver) (NewController (Some ex_mgr2)) reqs = Inr ctlr"
    "Manager ctlr = Some m'"
    "a_records (mgr_book ref_tables m') =
      filter (\<lambda>rec. snd rec \<notin> ips_Host ` set [?s]) (a_records (mgr_book ref_tables ex_mgr2))"
    using ex_literals(1) by (auto simp: ex_rsc_def recs ref_find_def)
  then show ?thesis by (auto simp: recs)
qed

section \<open>Hosts and addresses the program gets wrong\<close>

text \<open>C37: The answers of one host may arrive in another order than its requests. A resource with
  one host is changed to have another host instead; there is a run to the end of all work
  in which every answer is written once, and the status keeps the host that was removed,
  with an address that the book has since recorded for the other host.\<close>

definition stale_versions :: "F5IPAM list" where
  "stale_versions =
     [ex_rsc [Some \<lparr>hs_Host = ''a.com'', hs_Cidr = ex_cidr\<rparr>] [],
      ex_rsc [Some \<lparr>hs_Host = ''b.com'', hs_Cidr = ex_cidr\<rparr>] []]"

theorem stale_status_entry:
  "\<exists>m n s m'. NewManager ref_driver (f5_params ex_entries) = Inr (Some m)
    \<and> (sys_step (ipam_manager ref_driver) kube_ref id id ^^ n)
        (sys_start (resource_events (hd stale_versions) (tl stale_versions)) m [hd stale_versions]) s
    \<and> sys_done s \<and> mset (sys_wrote s) = mset (sys_made s)
    \<and> Manager (sys_ctl s) = Some m'
    \<and> a_records (mgr_book ref_tables m') = [(''192.168.1.1'', ''b.com'')]
    \<and> map_option status_of (ref_find (sys_api s) (''kube-system'', ''ipam'')) =
        Some [Some \<lparr>ips_Host = ''a.com'', ips_Cidr = ex_cidr, ips_IP = ''192.168.1.1''\<rparr>,
              Some \<lparr>ips_Host = ''b.com'', ips_Cidr = ex_cidr, ips_IP = ''192.168.1.1''\<rparr>]"
proof -
  let ?R = "sys_step (ipam_manager ref_driver) kube_ref id id"
    and ?evs = "resource_events (hd stale_versions) (tl stale_versions)"
    and ?keys = "create_key (hd stale_versions) # update_keys (hd stale_versions) (tl stale_versions)"
  let ?a = "create_request ex_meta ''a.com'' ex_cidr []" and ?d = "delete_request ex_meta ''a.com'' ex_cidr []"
    and ?b = "create_request ex_meta ''b.com'' ex_cidr []"
  let ?ra = "reply ?a ''192.168.1.1'' True" and ?rd = "reply ?d [] True" and ?rb = "reply ?b ''192.168.1.1'' True"
  let ?ws = "[?rd, ?ra, ?rb]" and ?stss = "[(''kube-system'', ''ipam'') \<mapsto> []] :: statuses"
  have reqs: "keys_requests id id ?keys = [?a, ?d, ?b]" by code_simp
  have made: "fst (serve_all [?a, ?d, ?b] (first_book ex_entries)) = [?ra, ?rd, ?rb]"
    and book: "a_records (snd (serve_all [?a, ?d, ?b] (first_book ex_entries))) = [(''192.168.1.1'', ''b.com'')]"
    by code_simp+
  obtain m where m: "NewManager ref_driver (f5_params ex_entries) = Inr (Some m)" "mgr_wf ref_tables m"
    "mgr_book ref_tables m = first_book ex_entries"
    using ref.NewManager_book [OF ex_entries_ok(1,2)] by blast
  have "list_all (\<lambda>key. snd (key_requests id id key) = None) ?keys" by code_simp
  then have "list_all (\<lambda>key. snd (key_requests id id key) = None) (map event_key ?evs)"
    by (simp only: resource_events_keys)
  moreover have "statuses_stored ref_find [hd stale_versions] ?stss"
    using ex_rsc_stored by (simp add: stale_versions_def statuses_stored_def)
  ultimately have inv: "sys_inv True ref_tables ref_find id id (first_book ex_entries) ?stss
      [?a, ?d, ?b] (sys_start ?evs m [hd stale_versions])"
    using sys_start_inv [OF _ m(2), of id id ?evs ref_find "[hd stale_versions]" ?stss]
    by (simp only: resource_events_keys reqs m(3))
  have rq: "requests_ok (dom ?stss) [?a, ?d, ?b]"
    using ex_literals by (simp add: requests_ok_def for_resources_def)
  have "mset ?ws = mset (fst (serve_all [?a, ?d, ?b] (first_book ex_entries)))"
    unfolding made by simp
  moreover have "sys_wrote (sys_start ?evs m [hd stale_versions]) = []" by (simp add: sys_start_def)
  ultimately obtain n s where
    s: "(?R ^^ n) (sys_start ?evs m [hd stale_versions]) s" "sys_done s" "sys_wrote s = ?ws" "sys_made s = [?ra, ?rd, ?rb]"
    using ref.sys_every_order [OF inv rq api_ok_server [OF kube.kube_server_axioms]] unfolding made by blast
  obtain m' where m': "Manager (sys_ctl s) = Some m'"
    "mgr_book ref_tables m' = snd (serve_all [?a, ?d, ?b] (first_book ex_entries))"
    and st: "statuses_stored ref_find (sys_api s) (statuses_after ?ws ?stss)"
    using ref.sys_result(2) [OF inv rq api_ok_server [OF kube.kube_server_axioms] s(1,2)]
    unfolding shown_writes_exact s(3) by blast
  have "answers_for (''kube-system'', ''ipam'') ?ws = ?ws"
    by (simp add: answers_for_def answer_key_def reply_def)
  then have status: "map_option status_of (ref_find (sys_api s) (''kube-system'', ''ipam'')) = Some (map Some (fold status_after ?ws []))"
    using statuses_stored_at [OF st, of "(''kube-system'', ''ipam'')"] by simp
  have "fold status_after ?ws [] =
        [\<lparr>ips_Host = ''a.com'', ips_Cidr = ex_cidr, ips_IP = ''192.168.1.1''\<rparr>,
         \<lparr>ips_Host = ''b.com'', ips_Cidr = ex_cidr, ips_IP = ''192.168.1.1''\<rparr>]"
    by (simp add: status_after_def status_put_def reply_def same_entry_def)
  moreover have "a_records (mgr_book ref_tables m') = [(''192.168.1.1'', ''b.com'')]" unfolding m'(2) by (rule book)
  moreover have "mset (sys_wrote s) = mset (sys_made s)" by (simp add: s(3,4))
  ultimately show ?thesis using m(1) s(1,2) m'(1) status
    by (intro exI [of _ m] exI [of _ n] exI [of _ s] exI [of _ m'] conjI) simp_all
qed

text \<open>C38: A host asked for in two networks gets one address for both. When it is removed from one
  of them the address is released, and if its network \<open>c\<close> is full the next host of that
  network is given it, while the status still shows it for the first host too, although
  every answer was written in order.\<close>

theorem two_networks_one_host:
  assumes "reliable_sqlite drv tbl has" and "kube_server K stored"
    and "mgr_wf tbl m" and "book_ok (mgr_book tbl m)"
    and "filter (\<lambda>rec. snd rec = h) (a_records (mgr_book tbl m)) = [(ip, h)]" and "isIPV4Addr ip"
    and "row \<in> set (ranges (mgr_book tbl m))" and "row_ip row = ip" and "row_cidr row = c"
    and "\<forall>x\<in>set (ranges (mgr_book tbl m)). row_cidr x = c \<longrightarrow> row_status x \<noteq> AVAILABLE"
    and "b \<notin> snd ` set (a_records (mgr_book tbl m))" and "c \<noteq> c'"
    and "sql_literal h" and "sql_literal b"
    and "map_option status_of (stored api (ns, nm)) = Some (map Some sts)"
    and "\<lparr>ips_Host = h, ips_Cidr = c, ips_IP = ip\<rparr> \<in> set sts"
    and "md = Meta \<lparr>meta_name = nm, meta_namespace = ns\<rparr>"
  shows "\<exists>ctlr m' api' sts'.
      runController (ipam_manager drv) (NewController (Some m))
        [create_request md h c' [], delete_request md h c' i, create_request md b c []] = Inr ctlr
    \<and> Manager ctlr = Some m'
    \<and> a_records (mgr_book tbl m') = filter (\<lambda>rec. snd rec \<noteq> h) (a_records (mgr_book tbl m)) @ [(ip, b)]
    \<and> processResponse K api (pending ctlr) = Inr api'
    \<and> map_option status_of (stored api' (ns, nm)) = Some (map Some sts')
    \<and> \<lparr>ips_Host = h, ips_Cidr = c, ips_IP = ip\<rparr> \<in> set sts'
    \<and> \<lparr>ips_Host = b, ips_Cidr = c, ips_IP = ip\<rparr> \<in> set sts'"
proof -
  let ?rs = "[create_request md h c' [], delete_request md h c' i, create_request md b c []]"
  let ?ans = "[reply (create_request md h c' []) ip True, reply (delete_request md h c' i) [] True,
    reply (create_request md b c []) ip True]"
  have full: "tb_available c (mgr_book tbl m) = None" using assms(10) by (simp only: tb_available_None)
  note book = two_networks_run [where bindable = isIPV4Addr and in_net = addr_in_net,
      OF assms(4-6,11) full assms(7-9), of md c' i]
  have "list_all (\<lambda>req. sql_literal (HostName req)) ?rs" using assms(13,14) by simp
  from reliable_sqlite.requests_book [OF assms(1,3) this, of "[]"] obtain m' where
    run: "runController (ipam_manager drv) (NewController (Some m)) ?rs = Inr \<lparr>Manager = Some m', pending = ?ans\<rparr>"
    and m': "mgr_book tbl m' = snd (serve_all ?rs (mgr_book tbl m))"
    unfolding NewController_def book(1) by auto
  have "list_all (\<lambda>resp. Metadata (Request resp) = Meta \<lparr>meta_name = nm, meta_namespace = ns\<rparr>) ?ans"
    by (simp add: reply_def assms(17))
  from kube_server.responses_written_at [OF assms(2) this assms(15)] obtain api' where
    api': "processResponse K api ?ans = Inr api'"
    "map_option status_of (stored api' (ns, nm)) = Some (map Some (fold status_after ?ans sts))" by blast
  have "(ip, h) \<in> set (filter (\<lambda>rec. snd rec = h) (a_records (mgr_book tbl m)))" by (simp add: assms(5))
  then have "b \<noteq> h" using assms(11) by force
  note st = two_networks_status [OF assms(16) _ assms(12) this, of md ip i]
  have "\<lparr>ips_Host = b, ips_Cidr = c, ips_IP = ip\<rparr> \<in> set (fold status_after ?ans sts)"
    using st(2) by (auto simp: status_key_def simp del: fold_simps) (metis IPSpec.surjective old.unit.exhaust)
  with st(1) run m' book(2) api' show ?thesis
    by (intro exI [of _ "\<lparr>Manager = Some m', pending = ?ans\<rparr>"] exI [of _ m'] exI [of _ api']
        exI [of _ "fold status_after ?ans sts"] conjI) (simp_all add: status_key_def del: fold_simps book_run.simps)
qed

text \<open>A pool with no free address, and a status entry of the first host.\<close>

theorem two_networks_one_host_witness:
  "\<exists>ctlr m' api' sts'.
      runController (ipam_manager ref_driver)
        (NewController (Some (ex_state [0, 0, 0]
           [(''192.168.1.1'', ''a.com''), (''192.168.1.2'', ''d.com''), (''192.168.1.3'', ''e.com'')])))
        [create_request ex_meta ''a.com'' ''10.0.0.0/8'' [], delete_request ex_meta ''a.com'' ''10.0.0.0/8'' [],
         create_request ex_meta ''b.com'' ex_cidr []] = Inr ctlr
    \<and> Manager ctlr = Some m'
    \<and> a_records (mgr_book ref_tables m') =
        [(''192.168.1.2'', ''d.com''), (''192.168.1.3'', ''e.com''), (''192.168.1.1'', ''b.com'')]
    \<and> processResponse kube_ref [ex_rsc [] [Some \<lparr>ips_Host = ''a.com'', ips_Cidr = ex_cidr, ips_IP = ''192.168.1.1''\<rparr>]]
        (pending ctlr) = Inr api'
    \<and> map_option status_of (ref_find api' (''kube-system'', ''ipam'')) = Some (map Some sts')
    \<and> \<lparr>ips_Host = ''a.com'', ips_Cidr = ex_cidr, ips_IP = ''192.168.1.1''\<rparr> \<in> set sts'
    \<and> \<lparr>ips_Host = ''b.com'', ips_Cidr = ex_cidr, ips_IP = ''192.168.1.1''\<rparr> \<in> set sts'"
proof -
  let ?m = "ex_state [0, 0, 0] [(''192.168.1.1'', ''a.com''), (''192.168.1.2'', ''d.com''), (''192.168.1.3'', ''e.com'')]"
  let ?s = "\<lparr>ips_Host = ''a.com'', ips_Cidr = ex_cidr, ips_IP = ''192.168.1.1''\<rparr>"
  let ?row = "\<lparr>row_id = 1, row_ip = ''192.168.1.1'', row_status = 0, row_cidr = ex_cidr\<rparr>"
  have pool: "mgr_wf ref_tables ?m" "book_ok (mgr_book ref_tables ?m)" "isIPV4Addr ''192.168.1.1''"
    "?row \<in> set (ranges (mgr_book ref_tables ?m))"
    "\<forall>x\<in>set (ranges (mgr_book ref_tables ?m)). row_cidr x = ex_cidr \<longrightarrow> row_status x \<noteq> AVAILABLE"
    "ex_cidr \<noteq> ''10.0.0.0/8''"
    by code_simp+
  have recs: "a_records (mgr_book ref_tables ?m) =
      [(''192.168.1.1'', ''a.com''), (''192.168.1.2'', ''d.com''), (''192.168.1.3'', ''e.com'')]"
    by (simp add: ex_state_def ref_tables_def)
  have at: "map_option status_of (ref_find [ex_rsc [] [Some ?s]] (''kube-system'', ''ipam'')) = Some (map Some [?s])"
    by (simp add: ex_rsc_stored)
  note two = two_networks_one_host [where drv = ref_driver and tbl = ref_tables and has = ref_has and K = kube_ref
      and stored = ref_find and api = "[ex_rsc [] [Some ?s]]" and ns = "''kube-system''" and nm = "''ipam''" and m = ?m and h = "''a.com''" and ip = "''192.168.1.1''" and row = ?row
      and c = ex_cidr and b = "''b.com''" and c' = "''10.0.0.0/8''" and sts = "[?s]" and md = ex_meta and i = "[]",
      OF ref.reliable_sqlite_axioms kube.kube_server_axioms pool(1,2) _ pool(3,4) _ _ pool(5)
      _ pool(6) ex_literals(1,2) at]
  show ?thesis using two by (simp add: recs)
qed

text \<open>C39: A range of IPv6 addresses is put into the pool although the log says it is not supported.
  A CREATE of a host is answered with an address that is recorded for no one; from then on
  the address is allocated, no request releases it, and no later answer shows it: each
  such CREATE, also for the same host, takes one more address out of the pool.\<close>

theorem ipv6_addresses_lost:
  assumes "reliable_sqlite drv tbl has" and "mgr_wf tbl m" and "book_ok (mgr_book tbl m)"
    and "h \<notin> snd ` set (a_records (mgr_book tbl m))" and "tb_available c (mgr_book tbl m) = Some row"
    and "\<not> isIPV4Addr (row_ip row)"
    and "sql_literal h" and "list_all (\<lambda>req. sql_literal (HostName req)) reqs"
  shows "\<exists>m' answers.
      runController (ipam_manager drv) (NewController (Some m)) (create_request md h c [] # reqs) =
        Inr \<lparr>Manager = Some m', pending = reply (create_request md h c []) (row_ip row) True # answers\<rparr>
    \<and> list_all (\<lambda>resp. RespIPAddr resp \<noteq> row_ip row) answers
    \<and> row_ip row \<in> alloc_ips (mgr_book tbl m') \<and> row_ip row \<notin> avail_ips (mgr_book tbl m')
    \<and> row_ip row \<notin> fst ` set (a_records (mgr_book tbl m'))"
proof -
  let ?req = "create_request md h c []"
  let ?t = "snd (serve ?req (mgr_book tbl m))"
  note create = create_loses [where bindable = isIPV4Addr and in_net = addr_in_net, OF assms(3-6), of md]
  note lost = lost_run [where bindable = isIPV4Addr and in_net = addr_in_net, OF create(2), of reqs]
  have "list_all (\<lambda>req. sql_literal (HostName req)) (?req # reqs)" using assms(7,8) by simp
  from reliable_sqlite.requests_book [OF assms(1,2) this, of "[]"] obtain m' where
    run: "runController (ipam_manager drv) (NewController (Some m)) (?req # reqs) =
      Inr \<lparr>Manager = Some m', pending = reply ?req (row_ip row) True # fst (serve_all reqs ?t)\<rparr>"
    and m': "mgr_book tbl m' = snd (serve_all reqs ?t)"
    unfolding NewController_def book_run_Cons create(1) by auto
  have "lost (row_ip row) (mgr_book tbl m')" using lost m' by simp
  with run lost lost_not_available show ?thesis unfolding lost_def by blast
qed

text \<open>The pool of a range of two IPv6 addresses: one host asks twice and is deleted, and
  no address is left for another host.\<close>

definition ex_v6 :: "int list \<Rightarrow> ref_db ipam_ptr" where
  "ex_v6 sts = Some \<lparr>provider = \<lparr>store = (\<lparr>ranges =
       [\<lparr>row_id = 1, row_ip = ''2001:db8::1'', row_status = sts ! 0, row_cidr = ''2001:db8::/126''\<rparr>,
        \<lparr>row_id = 2, row_ip = ''2001:db8::2'', row_status = sts ! 1, row_cidr = ''2001:db8::/126''\<rparr>],
       a_records = [], next_id = 3\<rparr>, [''a_records'', ''ipaddress_range'']),
     cidrs = [(''2001:db8::/126'', True)]\<rparr>\<rparr>"

theorem ipv6_addresses_lost_witness:
  "\<exists>m m' answers. NewManager ref_driver \<lparr>Provider = F5IPAMProvider, Range = ''2001:db8::1/126-2001:db8::2/126''\<rparr> =
       Inr (Some m)
    \<and> runController (ipam_manager ref_driver) (NewController (Some m))
        (create_request ex_meta ''a.com'' ''2001:db8::/126'' [] #
         [create_request ex_meta ''a.com'' ''2001:db8::/126'' [], delete_request ex_meta ''a.com'' ''2001:db8::/126'' []]) =
        Inr \<lparr>Manager = Some m', pending =
          reply (create_request ex_meta ''a.com'' ''2001:db8::/126'' []) ''2001:db8::1'' True # answers\<rparr>
    \<and> ''2001:db8::1'' \<notin> avail_ips (mgr_book ref_tables m')"
proof -
  let ?row = "\<lparr>row_id = 1, row_ip = ''2001:db8::1'', row_status = 1, row_cidr = ''2001:db8::/126''\<rparr>"
  let ?m = "ex_v6 [AVAILABLE, AVAILABLE]"
  have start: "NewManager ref_driver \<lparr>Provider = F5IPAMProvider, Range = ''2001:db8::1/126-2001:db8::2/126''\<rparr> =
     Inr (Some ?m)" by code_simp
  have pool: "mgr_wf ref_tables ?m" "book_ok (mgr_book ref_tables ?m)"
    "''a.com'' \<notin> snd ` set (a_records (mgr_book ref_tables ?m))"
    "tb_available ''2001:db8::/126'' (mgr_book ref_tables ?m) = Some ?row"
    "\<not> isIPV4Addr (row_ip ?row)" by code_simp+
  have "list_all (\<lambda>req. sql_literal (HostName req))
      [create_request ex_meta ''a.com'' ''2001:db8::/126'' [], delete_request ex_meta ''a.com'' ''2001:db8::/126'' []]"
    using ex_literals by simp
  from ipv6_addresses_lost [OF ref.reliable_sqlite_axioms pool ex_literals(1) this, of ex_meta] start
  show ?thesis by fastforce
qed

end
