(* ===== verification/Cluster.thy ===== *)
theory Cluster
  imports Schedules
begin

text \<open>
  Several resources at once. The informer reports the events of all of them, interleaved in
  any way; each host belongs to one resource and one network. The cache of the informer after
  the events says which hosts should have an address.
\<close>

section \<open>What the informer reports\<close>

definition rsc_key :: "F5IPAM \<Rightarrow> string \<times> string" where
  "rsc_key r = (Namespace r, Name r)"

text \<open>
  New resources are reported once, an update with the version reported before. (The removal
  of a resource is not part of these histories.)
\<close>

fun reported :: "(string \<times> string \<Rightarrow> F5IPAM option) \<Rightarrow> informer_event list \<Rightarrow> bool" where
  "reported cache [] = True"
| "reported cache (Added r # evs) \<longleftrightarrow> cache (rsc_key r) = None \<and> reported (cache(rsc_key r \<mapsto> r)) evs"
| "reported cache (Updated old r # evs) \<longleftrightarrow> rsc_key old = rsc_key r \<and> cache (rsc_key r) = Some old
     \<and> reported (cache(rsc_key r \<mapsto> r)) evs"
| "reported cache (Removed r # evs) = False"

fun event_object :: "informer_event \<Rightarrow> F5IPAM" where
  "event_object (Added r) = r"
| "event_object (Updated old r) = r"
| "event_object (Removed r) = r"

definition cache_after :: "(string \<times> string \<Rightarrow> F5IPAM option) \<Rightarrow> informer_event list \<Rightarrow> string \<times> string \<Rightarrow> F5IPAM option" where
  "cache_after cache evs = fold (\<lambda>ev cache. cache(rsc_key (event_object ev) \<mapsto> event_object ev)) evs cache"

lemma cache_after_simps [simp]:
  "cache_after cache [] = cache"
  "cache_after cache (ev # evs) = cache_after (cache(rsc_key (event_object ev) \<mapsto> event_object ev)) evs"
  by (simp_all add: cache_after_def)

text \<open>A resource reported with its hosts, each in its network and owned by this resource; a
  resource is new when it has no status yet.\<close>

fun event_ok :: "(string \<Rightarrow> string) \<Rightarrow> (string \<Rightarrow> string \<times> string) \<Rightarrow> informer_event \<Rightarrow> bool" where
  "event_ok net owner ev \<longleftrightarrow>
     version_ok net (Namespace (event_object ev)) (Name (event_object ev)) (event_object ev)
     \<and> (\<forall>h\<in>spec_hosts (event_object ev). owner h = rsc_key (event_object ev))
     \<and> (case ev of Added r \<Rightarrow> status_of r = [] | _ \<Rightarrow> True)"

definition cache_hosts :: "(string \<times> string \<Rightarrow> F5IPAM option) \<Rightarrow> string set" where
  "cache_hosts cache = \<Union> (spec_hosts ` ran cache)"

text \<open>The objects in a cache are filed under their key and own their hosts.\<close>

definition cache_ok :: "(string \<Rightarrow> string) \<Rightarrow> (string \<Rightarrow> string \<times> string) \<Rightarrow> (string \<times> string \<Rightarrow> F5IPAM option) \<Rightarrow> bool" where
  "cache_ok net owner cache \<longleftrightarrow> (\<forall>k r. cache k = Some r \<longrightarrow> k = rsc_key r
     \<and> version_ok net (Namespace r) (Name r) r \<and> (\<forall>h\<in>spec_hosts r. owner h = k))"

lemma cache_ok_empty: "cache_ok net owner Map.empty"
  by (simp add: cache_ok_def)

lemma cache_ok_upd:
  "cache_ok net owner cache \<Longrightarrow> event_ok net owner ev \<Longrightarrow>
     cache_ok net owner (cache(rsc_key (event_object ev) \<mapsto> event_object ev))"
  by (auto simp: cache_ok_def)

lemma cache_ok_after:
  "cache_ok net owner cache \<Longrightarrow> list_all (event_ok net owner) evs \<Longrightarrow> cache_ok net owner (cache_after cache evs)"
  by (induction evs arbitrary: cache) (auto intro: cache_ok_upd simp del: event_ok.simps)

text \<open>The hosts of one resource in a cache are those of the cache that it owns.\<close>

lemma mem_cache_hosts: "h \<in> cache_hosts cache \<longleftrightarrow> (\<exists>k r. cache k = Some r \<and> h \<in> spec_hosts r)"
  by (auto simp: cache_hosts_def ran_def)

lemma cache_owner:
  "cache_ok net owner cache \<Longrightarrow> cache k = Some r \<Longrightarrow> h \<in> spec_hosts r \<Longrightarrow> owner h = k"
  unfolding cache_ok_def by blast

lemma cache_hosts_owned:
  assumes "cache_ok net owner cache" and "cache k = Some r"
  shows "{h \<in> cache_hosts cache. owner h = k} = spec_hosts r"
proof (rule set_eqI)
  fix h
  show "h \<in> {h \<in> cache_hosts cache. owner h = k} \<longleftrightarrow> h \<in> spec_hosts r"
    using cache_owner [OF assms(1), of _ _ h] assms(2) unfolding mem_Collect_eq mem_cache_hosts
    by (metis option.inject)
qed

lemma cache_hosts_upd:
  assumes "cache_ok net owner cache" and "\<forall>h\<in>spec_hosts r. owner h = k"
  shows "cache_hosts (cache(k \<mapsto> r)) = {h \<in> cache_hosts cache. owner h \<noteq> k} \<union> spec_hosts r"
proof (rule set_eqI)
  fix h
  have "(\<exists>k' r'. (cache(k \<mapsto> r)) k' = Some r' \<and> h \<in> spec_hosts r') \<longleftrightarrow>
      h \<in> spec_hosts r \<or> (\<exists>k' r'. k' \<noteq> k \<and> cache k' = Some r' \<and> h \<in> spec_hosts r')"
    by (metis fun_upd_apply option.inject)
  moreover have "(\<exists>k' r'. k' \<noteq> k \<and> cache k' = Some r' \<and> h \<in> spec_hosts r') \<longleftrightarrow>
      (\<exists>k' r'. cache k' = Some r' \<and> h \<in> spec_hosts r') \<and> owner h \<noteq> k"
    using cache_owner [OF assms(1), of _ _ h] by metis
  ultimately show "h \<in> cache_hosts (cache(k \<mapsto> r)) \<longleftrightarrow> h \<in> {h \<in> cache_hosts cache. owner h \<noteq> k} \<union> spec_hosts r"
    unfolding Un_iff mem_Collect_eq mem_cache_hosts by blast
qed

section \<open>The requests of an event\<close>

definition event_requests where
  "event_requests o1 o2 ev = fst (key_requests o1 o2 (event_key ev))"

definition owned_request :: "(string \<Rightarrow> string) \<Rightarrow> (string \<Rightarrow> string \<times> string) \<Rightarrow> F5IPAM \<Rightarrow> IPAMRequest \<Rightarrow> bool" where
  "owned_request net owner r req \<longleftrightarrow> one_net net req \<and> sql_literal (HostName req)
     \<and> Metadata req = Meta \<lparr>meta_name = Name r, meta_namespace = Namespace r\<rparr> \<and> owner (HostName req) = rsc_key r"

lemma event_run:
  assumes ord: "map_order o1" "map_order o2"
    and ok: "cache_ok net owner cache" "event_ok net owner ev" and rep: "reported cache [ev]"
    and ft: "fits net t (cache_hosts cache)" "fits net t (cache_hosts (cache_after cache [ev]))"
  shows "snd (key_requests o1 o2 (event_key ev)) = None"
    and "\<forall>req\<in>set (event_requests o1 o2 ev). owned_request net owner (event_object ev) req"
    and "room net t (event_requests o1 o2 ev) (cache_hosts cache)"
    and "hosts_after (event_requests o1 o2 ev) (cache_hosts cache) = cache_hosts (cache_after cache [ev])"
proof -
  let ?r = "event_object ev"
  let ?H = "cache_hosts cache" and ?H' = "cache_hosts (cache_after cache [ev])"
  have vr: "version_ok net (Namespace ?r) (Name ?r) ?r" and own: "\<forall>h\<in>spec_hosts ?r. owner h = rsc_key ?r"
    using ok(2) by simp_all
  have H': "?H' = {h \<in> ?H. owner h \<noteq> rsc_key ?r} \<union> spec_hosts ?r"
    using cache_hosts_upd [OF ok(1) own] by simp
  obtain ds cs where reqs: "key_requests o1 o2 (event_key ev) =
      (map (spec_request OP_DELETE ?r) ds @ map (spec_request OP_CREATE ?r) cs, None)"
    and each: "\<forall>req\<in>set (map (spec_request OP_DELETE ?r) ds @ map (spec_request OP_CREATE ?r) cs).
      one_net net req \<and> sql_literal (HostName req) \<and> Metadata req = Meta \<lparr>meta_name = Name ?r, meta_namespace = Namespace ?r\<rparr>"
    and owned: "\<forall>h\<in>hs_Host ` set ds \<union> hs_Host ` set cs. owner h = rsc_key ?r"
    and after: "(?H - hs_Host ` set ds) \<union> hs_Host ` set cs = ?H'"
  proof (cases ev)
    case (Added r)
    have r: "version_ok net (Namespace r) (Name r) r" "status_of r = map Some []" "cache (rsc_key r) = None"
      using vr ok(2) rep by (simp_all add: Added)
    have "spec_hosts r \<subseteq> ?H'" unfolding H' by (simp add: Added)
    then have "fits net t (spec_hosts r)" using ft(2) fits_subset by blast
    from create_run [OF r(1,2) _ this, of o1 o2] obtain cs where
      cs: "key_requests o1 o2 (create_key r) = (map (spec_request OP_CREATE r) cs, None)"
      "\<forall>req\<in>set (map (spec_request OP_CREATE r) cs). one_net net req \<and> sql_literal (HostName req)
         \<and> Metadata req = Meta \<lparr>meta_name = Name r, meta_namespace = Namespace r\<rparr>"
      "hs_Host ` set cs = spec_hosts r" unfolding status_entries_def hosts_after_creates by force
    have "owner h \<noteq> rsc_key r" if "h \<in> ?H" for h
      using that cache_owner [OF ok(1), of _ _ h] r(3) unfolding mem_cache_hosts by (metis option.distinct(1))
    then have "{h \<in> ?H. owner h \<noteq> rsc_key r} = ?H" by blast
    then show thesis using that [of "[]" cs] cs own H' by (simp add: Added)
  next
    case (Updated old r)
    have old: "rsc_key old = rsc_key r" "cache (rsc_key r) = Some old" using rep by (simp_all add: Updated)
    then have vo: "version_ok net (Namespace r) (Name r) old" "\<forall>h\<in>spec_hosts old. owner h = rsc_key r"
      using spec [OF spec [OF ok(1) [unfolded cache_ok_def], of "rsc_key r"], of old] by (auto simp: rsc_key_def)
    have vr': "version_ok net (Namespace r) (Name r) r" using vr by (simp add: Updated)
    obtain ds cs where u: "key_requests o1 o2 \<lparr>rsc = Some r, oldRsc = Some old, rq_Operation = UPDATE\<rparr> =
        (map (spec_request OP_DELETE r) ds @ map (spec_request OP_CREATE r) cs, None)"
      "hs_Host ` set ds = spec_hosts old - spec_hosts r" "hs_Host ` set cs = spec_hosts r - spec_hosts old"
      "\<forall>req\<in>set (map (spec_request OP_DELETE r) ds @ map (spec_request OP_CREATE r) cs).
         one_net net req \<and> sql_literal (HostName req) \<and> Metadata req = Meta \<lparr>meta_name = Name r, meta_namespace = Namespace r\<rparr>"
      by (rule update_step [OF ord vo(1) vr'])
    have "{h \<in> ?H. owner h = rsc_key r} = spec_hosts old" by (rule cache_hosts_owned [OF ok(1) old(2)])
    then have "(?H - (spec_hosts old - spec_hosts r)) \<union> (spec_hosts r - spec_hosts old) =
        {h \<in> ?H. owner h \<noteq> rsc_key r} \<union> spec_hosts r" by blast
    then have after: "(?H - hs_Host ` set ds) \<union> hs_Host ` set cs = ?H'" unfolding u(2,3) H' by (simp add: Updated)
    have "\<forall>h\<in>hs_Host ` set ds \<union> hs_Host ` set cs. owner h = rsc_key r"
      unfolding u(2,3) using vo(2) own by (auto simp: Updated)
    with after u(1,4) show thesis by (intro that [of ds cs]) (simp_all only: Updated event_key.simps event_object.simps)
  next
    case (Removed r)
    then show thesis using rep by simp
  qed
  have ev_reqs: "event_requests o1 o2 ev = map (spec_request OP_DELETE ?r) ds @ map (spec_request OP_CREATE ?r) cs"
    by (simp add: event_requests_def reqs)
  show "snd (key_requests o1 o2 (event_key ev)) = None" by (simp add: reqs)
  show "\<forall>req\<in>set (event_requests o1 o2 ev). owned_request net owner ?r req"
    unfolding ev_reqs
  proof
    fix req assume req: "req \<in> set (map (spec_request OP_DELETE ?r) ds @ map (spec_request OP_CREATE ?r) cs)"
    then have "HostName req \<in> hs_Host ` set ds \<union> hs_Host ` set cs" by force
    with owned have "owner (HostName req) = rsc_key ?r" by (rule bspec)
    with bspec [OF each req] show "owned_request net owner ?r req" by (simp add: owned_request_def)
  qed
  have sub: "?H - hs_Host ` set ds \<subseteq> ?H'" "hs_Host ` set cs \<subseteq> ?H'"
    unfolding after [symmetric] by (rule Un_upper1, rule Un_upper2)
  show "room net t (event_requests o1 o2 ev) ?H"
    unfolding ev_reqs by (rule step_room [OF ft sub])
  show "hosts_after (event_requests o1 o2 ev) ?H = ?H'"
    unfolding ev_reqs using after by simp
qed

section \<open>The requests of a history\<close>

lemma cluster_run:
  assumes ord: "map_order o1" "map_order o2"
    and ok: "cache_ok net owner cache" "list_all (event_ok net owner) evs" and rep: "reported cache evs"
    and ft: "\<forall>n. fits net t (cache_hosts (cache_after cache (take n evs)))"
  shows "list_all (\<lambda>key. snd (key_requests o1 o2 key) = None) (map event_key evs)
    \<and> (\<forall>req\<in>set (keys_requests o1 o2 (map event_key evs)). \<exists>r\<in>event_object ` set evs. owned_request net owner r req)
    \<and> room net t (keys_requests o1 o2 (map event_key evs)) (cache_hosts cache)
    \<and> hosts_after (keys_requests o1 o2 (map event_key evs)) (cache_hosts cache) = cache_hosts (cache_after cache evs)"
  using ok rep ft
proof (induction evs arbitrary: cache)
  case (Cons ev evs)
  let ?cache = "cache(rsc_key (event_object ev) \<mapsto> event_object ev)"
  have ev: "event_ok net owner ev" and evs: "list_all (event_ok net owner) evs"
    using Cons.prems(2) by (simp_all del: event_ok.simps)
  have rep: "reported cache [ev]" "reported ?cache evs" using Cons.prems(3) by (cases ev; simp)+
  have fits: "fits net t (cache_hosts cache)" "fits net t (cache_hosts (cache_after cache [ev]))"
    using spec [OF Cons.prems(4), of 0] spec [OF Cons.prems(4), of 1] by (simp_all del: fun_upd_apply)
  have "fits net t (cache_hosts (cache_after ?cache (take n evs)))" for n
    using spec [OF Cons.prems(4), of "Suc n"] by simp
  then have rest: "\<forall>n. fits net t (cache_hosts (cache_after ?cache (take n evs)))" by blast
  note one = event_run [OF ord Cons.prems(1) ev rep(1) fits]
  note IH = Cons.IH [OF cache_ok_upd [OF Cons.prems(1) ev] evs rep(2) rest]
  have split: "keys_requests o1 o2 (map event_key (ev # evs)) = event_requests o1 o2 ev @ keys_requests o1 o2 (map event_key evs)"
    by (simp add: event_requests_def)
  have "\<forall>req\<in>set (event_requests o1 o2 ev @ keys_requests o1 o2 (map event_key evs)).
      \<exists>r\<in>event_object ` set (ev # evs). owned_request net owner r req"
    using one(2) IH by auto
  moreover have "list_all (\<lambda>key. snd (key_requests o1 o2 key) = None) (map event_key (ev # evs))"
    using one(1) IH by simp
  ultimately show ?case
    unfolding split using one(3,4) IH by (simp del: fun_upd_apply)
qed simp

text \<open>The answers to these requests are for the owner of their host.\<close>

lemma owned_answers:
  assumes "\<forall>req\<in>set reqs. \<exists>r\<in>A. owned_request net owner r req" and "mset wrote = mset (fst (serve_all reqs t0))"
  shows "\<forall>resp\<in>set wrote. answer_key resp = owner (HostName (Request resp))"
proof
  fix resp assume "resp \<in> set wrote"
  then have "resp \<in> set (fst (serve_all reqs t0))" using mset_eq_setD [OF assms(2)] by simp
  then have "Request resp \<in> set reqs" using book_run_from [of isIPV4Addr addr_in_net reqs t0] by blast
  with assms(1) show "answer_key resp = owner (HostName (Request resp))"
    by (auto simp: owned_request_def answer_key_def rsc_key_def)
qed

section \<open>The status of one resource\<close>

lemma cache_keys: "cache_after Map.empty evs k = Some r \<Longrightarrow> k \<in> rsc_key ` event_object ` set evs"
proof -
  have "cache_after cache evs k = Some r \<Longrightarrow> cache k = Some r \<or> k \<in> rsc_key ` event_object ` set evs" for cache
  proof (induction evs arbitrary: cache)
    case (Cons ev evs)
    let ?cache = "cache(rsc_key (event_object ev) \<mapsto> event_object ev)"
    have "?cache k = Some r \<or> k \<in> rsc_key ` event_object ` set evs"
      using Cons.prems by (intro Cons.IH) (simp del: fun_upd_apply)
    then show ?case by (auto split: if_splits)
  qed simp
  then show "cache_after Map.empty evs k = Some r \<Longrightarrow> k \<in> rsc_key ` event_object ` set evs" by fastforce
qed

lemma resource_served:
  assumes served: "hosts_served net pool (cache_hosts cache) recs wrote made (fold status_after wrote [])"
    and own: "\<forall>resp\<in>set wrote. answer_key resp = owner (HostName (Request resp))"
    and ok: "cache_ok net owner cache" and r: "cache k = Some r"
  shows "hosts_served net pool (spec_hosts r) (filter (\<lambda>rec. snd rec \<in> spec_hosts r) recs) wrote made
     (fold status_after (answers_for k wrote) [])"
proof -
  note hosts = cache_hosts_owned [OF ok r]
  have "snd ` set recs = cache_hosts cache" using served by (simp add: hosts_served_def)
  then have "filter (\<lambda>rec. snd rec \<in> spec_hosts r) recs = filter (\<lambda>rec. owner (snd rec) = k) recs"
    unfolding hosts [symmetric] by (intro filter_cong) auto
  with hosts_served_part [OF served resource_entries [OF own], of k] show ?thesis by (simp only: hosts)
qed

text \<open>A fresh book with no host.\<close>

lemma first_book_settled:
  assumes "distinct (all_ips es)"
  shows "settled isIPV4Addr net [] (first_book es)"
proof -
  have recs: "a_records (first_book es) = []"
    by (simp add: entries_tables_rows) (simp add: empty_tables_def)
  have "settled isIPV4Addr net (fold status_after (fst (serve_all [] (first_book es))) []) (snd (serve_all [] (first_book es)))"
    by (rule sync_settled [OF first_book_no_leak [OF assms] recs]) (simp_all add: status_entries_def)
  then show ?thesis by simp
qed

section \<open>Every run of a cluster\<close>

context reliable_sqlite
begin

lemma cluster_outcome:
  assumes K: "api_ok exact K stored" and es: "es \<noteq> []" "list_all valid_entry es" "distinct (all_ips es)"
    and ord: "map_order o1" "map_order o2"
    and evs: "reported Map.empty evs" "list_all (event_ok net owner) evs"
    and ft: "\<forall>n. fits net (first_book es) (cache_hosts (cache_after Map.empty (take n evs)))"
    and new: "\<forall>ev\<in>set evs. map_option status_of (stored api (rsc_key (event_object ev))) = Some []"
  obtains m N made where "NewManager drv (f5_params es) = Inr (Some m)"
    and "\<And>n s. (sys_step (ipam_manager drv) K o1 o2 ^^ n) (sys_start evs m api) s \<Longrightarrow>
      n \<le> N \<and> \<not> sys_panics (ipam_manager drv) K o1 o2 s
      \<and> (sys_done s \<or> (\<exists>s'. sys_step (ipam_manager drv) K o1 o2 s s'))"
    and "\<And>n s. (sys_step (ipam_manager drv) K o1 o2 ^^ n) (sys_start evs m api) s \<Longrightarrow> sys_done s \<Longrightarrow>
      sys_made s = made \<and> mset (sys_wrote s) = mset made
      \<and> (\<forall>resp\<in>set (sys_wrote s). answer_key resp = owner (HostName (Request resp)))
      \<and> (\<exists>m'. Manager (sys_ctl s) = Some m'
        \<and> hosts_served net (set (all_ips es)) (cache_hosts (cache_after Map.empty evs)) (a_records (mgr_book tbl m'))
            (sys_wrote s) made (fold status_after (sys_wrote s) [])
        \<and> (\<exists>ws. subseq ws (sys_wrote s) \<and> (exact \<longrightarrow> ws = sys_wrote s)
          \<and> (\<forall>k r. cache_after Map.empty evs k = Some r \<longrightarrow>
              map_option status_of (stored (sys_api s) k) = Some (map Some (fold status_after (answers_for k ws) [])))))"
    and "\<And>ws. mset ws = mset made \<Longrightarrow> \<exists>n s. (sys_step (ipam_manager drv) K o1 o2 ^^ n) (sys_start evs m api) s
      \<and> sys_done s \<and> sys_wrote s = ws"
proof -
  let ?reqs = "keys_requests o1 o2 (map event_key evs)"
  let ?made = "fst (serve_all ?reqs (first_book es))" and ?t = "snd (serve_all ?reqs (first_book es))"
  let ?keys = "rsc_key ` event_object ` set evs"
  let ?stss = "(\<lambda>k. if k \<in> ?keys then Some [] else None) :: statuses"
  obtain m where m: "NewManager drv (f5_params es) = Inr (Some m)" "mgr_wf tbl m" "mgr_book tbl m = first_book es"
    using NewManager_book [OF es(1,2)] by blast
  have none: "cache_hosts Map.empty = {}" by (simp add: cache_hosts_def)
  note run = cluster_run [OF ord cache_ok_empty evs(2,1) ft, unfolded none]
  note fresh = first_book_settled [OF es(3), of net]
  have ones: "list_all (one_net net) ?reqs" using run by (auto simp: list_all_iff owned_request_def)
  have st: "settled isIPV4Addr net (fold status_after ?made []) ?t" using settled_run [OF fresh ones] .
  have hosts: "ips_Host ` set (fold status_after ?made []) = cache_hosts (cache_after Map.empty evs)"
    using run_hosts [OF fresh ones] run by simp
  have pool: "row_ip ` set (ranges ?t) \<subseteq> set (all_ips es)" using run_pool [of ?reqs es] by simp
  have rq: "requests_ok (dom ?stss) ?reqs"
    using run by (fastforce simp: requests_ok_def for_resources_def owned_request_def rsc_key_def dom_def)
  have "statuses_stored stored api ?stss" using new by (auto simp: statuses_stored_def)
  then have inv: "sys_inv exact tbl stored o1 o2 (first_book es) ?stss ?reqs (sys_start evs m api)"
    using sys_start_inv [OF conjunct1 [OF run] m(2)] by (simp only: m(3))
  note result = sys_result [OF inv rq K]
  show thesis
  proof (rule that [OF m(1) result(1)])
    fix n s assume reach: "(sys_step (ipam_manager drv) K o1 o2 ^^ n) (sys_start evs m api) s" and fin: "sys_done s"
    obtain m' ws where m': "Manager (sys_ctl s) = Some m'" "mgr_book tbl m' = ?t" "sys_made s = ?made"
      "mset (sys_wrote s) = mset ?made"
      and ws: "subseq ws (sys_wrote s)" "exact \<longrightarrow> ws = sys_wrote s" "statuses_stored stored (sys_api s) (statuses_after ws ?stss)"
      using result(2) [OF reach fin] by (auto simp: shown_writes_def)
    have served: "hosts_served net (set (all_ips es)) (cache_hosts (cache_after Map.empty evs)) (a_records ?t) (sys_wrote s) ?made
        (fold status_after (sys_wrote s) [])"
      by (rule settled_written [OF st _ hosts pool]) simp
    have own: "\<forall>resp\<in>set (sys_wrote s). answer_key resp = owner (HostName (Request resp))"
      using owned_answers [OF _ m'(4)] run by blast
    have "map_option status_of (stored (sys_api s) k) = Some (map Some (fold status_after (answers_for k ws) []))"
      if "cache_after Map.empty evs k = Some r" for k r
      by (rule statuses_stored_at [OF ws(3)]) (simp add: cache_keys [OF that])
    with m' ws(1,2) served own show "sys_made s = ?made \<and> mset (sys_wrote s) = mset ?made
      \<and> (\<forall>resp\<in>set (sys_wrote s). answer_key resp = owner (HostName (Request resp)))
      \<and> (\<exists>m'. Manager (sys_ctl s) = Some m'
        \<and> hosts_served net (set (all_ips es)) (cache_hosts (cache_after Map.empty evs)) (a_records (mgr_book tbl m'))
            (sys_wrote s) ?made (fold status_after (sys_wrote s) [])
        \<and> (\<exists>ws. subseq ws (sys_wrote s) \<and> (exact \<longrightarrow> ws = sys_wrote s)
          \<and> (\<forall>k r. cache_after Map.empty evs k = Some r \<longrightarrow>
              map_option status_of (stored (sys_api s) k) = Some (map Some (fold status_after (answers_for k ws) [])))))"
      by (intro conjI exI [of _ m'] exI [of _ ws] allI impI) (simp_all only: simp_thms)
  next
    fix ws assume "mset ws = mset ?made"
    from sys_every_order [OF inv rq K _ this] show "\<exists>n s. (sys_step (ipam_manager drv) K o1 o2 ^^ n) (sys_start evs m api) s
        \<and> sys_done s \<and> sys_wrote s = ws" by (auto simp: sys_start_def)
  qed
qed

end

end
