(* ===== verification/Resources.thy ===== *)
theory Resources
  imports System Cluster
begin

text \<open>
  Properties of a cluster with several resources: from a fresh start all of them converge;
  after a restart a new host of one resource can be given the address of another.
\<close>

section \<open>Several resources from a fresh start\<close>

text \<open>C2: The same for any number of resources. The informer reports new resources and updates in
  any interleaving; each host belongs to one resource and to one network, which at all times
  has room for the hosts of all resources. Whatever the schedule and the order of the answers:
  no panic, never stuck, bounded, each answer is written once, and at the end the address
  book records exactly the hosts of the last versions of all resources, no address twice.
  The status of each resource fits the records of its own hosts in the sense of
  \<open>hosts_served\<close>: right for every host whose own answers were written in order.\<close>

theorem cluster_converges:
  assumes "reliable_sqlite drv tbl has" and "kube_server K stored"
    and "es \<noteq> []" and "list_all valid_entry es" and "distinct (all_ips es)"
    and "map_order o1" and "map_order o2"
    and "reported Map.empty evs" and "list_all (event_ok net owner) evs"
    and "\<forall>n. fits net (first_book es) (cache_hosts (cache_after Map.empty (take n evs)))"
    and "\<forall>ev\<in>set evs. map_option status_of (stored api (rsc_key (event_object ev))) = Some []"
  shows "\<exists>m N made. NewManager drv (f5_params es) = Inr (Some m)
    \<and> (\<forall>n s. (sys_step (ipam_manager drv) K o1 o2 ^^ n) (sys_start evs m api) s \<longrightarrow>
         n \<le> N \<and> \<not> sys_panics (ipam_manager drv) K o1 o2 s
       \<and> (sys_done s \<or> (\<exists>s'. sys_step (ipam_manager drv) K o1 o2 s s'))
       \<and> (sys_done s \<longrightarrow> sys_made s = made \<and> mset (sys_wrote s) = mset made
          \<and> (\<exists>m'. Manager (sys_ctl s) = Some m'
            \<and> snd ` set (a_records (mgr_book tbl m')) = cache_hosts (cache_after Map.empty evs)
            \<and> inj_on fst (set (a_records (mgr_book tbl m')))
            \<and> (\<forall>k r. cache_after Map.empty evs k = Some r \<longrightarrow> (\<exists>sts.
                 map_option status_of (stored (sys_api s) k) = Some (map Some sts)
               \<and> hosts_served net (set (all_ips es)) (spec_hosts r)
                   (filter (\<lambda>rec. snd rec \<in> spec_hosts r) (a_records (mgr_book tbl m'))) (sys_wrote s) made sts)))))
    \<and> (\<forall>ws. mset ws = mset made \<longrightarrow>
         (\<exists>n s. (sys_step (ipam_manager drv) K o1 o2 ^^ n) (sys_start evs m api) s \<and> sys_done s \<and> sys_wrote s = ws))"
proof -
  let ?cache = "cache_after Map.empty evs"
  obtain m N made where m: "NewManager drv (f5_params es) = Inr (Some m)"
    and run: "\<And>n s. (sys_step (ipam_manager drv) K o1 o2 ^^ n) (sys_start evs m api) s \<Longrightarrow>
      n \<le> N \<and> \<not> sys_panics (ipam_manager drv) K o1 o2 s
      \<and> (sys_done s \<or> (\<exists>s'. sys_step (ipam_manager drv) K o1 o2 s s'))"
    and fin: "\<And>n s. (sys_step (ipam_manager drv) K o1 o2 ^^ n) (sys_start evs m api) s \<Longrightarrow> sys_done s \<Longrightarrow>
      sys_made s = made \<and> mset (sys_wrote s) = mset made
      \<and> (\<forall>resp\<in>set (sys_wrote s). answer_key resp = owner (HostName (Request resp)))
      \<and> (\<exists>m'. Manager (sys_ctl s) = Some m'
        \<and> hosts_served net (set (all_ips es)) (cache_hosts ?cache) (a_records (mgr_book tbl m'))
            (sys_wrote s) made (fold status_after (sys_wrote s) [])
        \<and> (\<exists>ws. subseq ws (sys_wrote s) \<and> (True \<longrightarrow> ws = sys_wrote s)
          \<and> (\<forall>k r. ?cache k = Some r \<longrightarrow>
              map_option status_of (stored (sys_api s) k) = Some (map Some (fold status_after (answers_for k ws) [])))))"
    and ex: "\<And>ws. mset ws = mset made \<Longrightarrow> \<exists>n s. (sys_step (ipam_manager drv) K o1 o2 ^^ n) (sys_start evs m api) s
      \<and> sys_done s \<and> sys_wrote s = ws"
    by (rule reliable_sqlite.cluster_outcome [OF assms(1) api_ok_server [OF assms(2)] assms(3-11)]) blast
  have each: "\<exists>m'. Manager (sys_ctl s) = Some m'
            \<and> snd ` set (a_records (mgr_book tbl m')) = cache_hosts ?cache
            \<and> inj_on fst (set (a_records (mgr_book tbl m')))
            \<and> (\<forall>k r. ?cache k = Some r \<longrightarrow> (\<exists>sts.
                 map_option status_of (stored (sys_api s) k) = Some (map Some sts)
               \<and> hosts_served net (set (all_ips es)) (spec_hosts r)
                   (filter (\<lambda>rec. snd rec \<in> spec_hosts r) (a_records (mgr_book tbl m'))) (sys_wrote s) made sts))"
    if reach: "(sys_step (ipam_manager drv) K o1 o2 ^^ n) (sys_start evs m api) s" and don: "sys_done s" for n s
  proof -
    from fin [OF reach don] obtain m' where m': "Manager (sys_ctl s) = Some m'"
      and own: "\<forall>resp\<in>set (sys_wrote s). answer_key resp = owner (HostName (Request resp))"
      and served: "hosts_served net (set (all_ips es)) (cache_hosts ?cache) (a_records (mgr_book tbl m'))
            (sys_wrote s) made (fold status_after (sys_wrote s) [])"
      and st: "\<forall>k r. ?cache k = Some r \<longrightarrow>
              map_option status_of (stored (sys_api s) k) = Some (map Some (fold status_after (answers_for k (sys_wrote s)) []))"
      by blast
    have "snd ` set (a_records (mgr_book tbl m')) = cache_hosts ?cache" "inj_on fst (set (a_records (mgr_book tbl m')))"
      using served by (simp_all add: hosts_served_def)
    with m' st resource_served [OF served own cache_ok_after [OF cache_ok_empty assms(9)]] show ?thesis by blast
  qed
  show ?thesis
    by (rule exI [of _ m], rule exI [of _ N], rule exI [of _ made], intro conjI allI impI m(1) ex)
      (blast dest: run fin each)+
qed

text \<open>Two resources on the example pool: both are new, then one changes its host.\<close>

definition ex_other :: "HostSpec option list \<Rightarrow> IPSpec option list \<Rightarrow> F5IPAM" where
  "ex_other hs sts = (ex_rsc hs sts)\<lparr>Name := ''other''\<rparr>"

definition ex_history :: "informer_event list" where
  "ex_history =
     [Added (ex_rsc [Some \<lparr>hs_Host = ''a.com'', hs_Cidr = ex_cidr\<rparr>] []),
      Added (ex_other [Some \<lparr>hs_Host = ''b.com'', hs_Cidr = ex_cidr\<rparr>] []),
      Updated (ex_rsc [Some \<lparr>hs_Host = ''a.com'', hs_Cidr = ex_cidr\<rparr>] [])
        (ex_rsc [Some \<lparr>hs_Host = ''c.com'', hs_Cidr = ex_cidr\<rparr>] [])]"

definition ex_owner :: "string \<Rightarrow> string \<times> string" where
  "ex_owner h = (''kube-system'', if h = ''b.com'' then ''other'' else ''ipam'')"

definition ex_api :: "F5IPAM list" where
  "ex_api = [ex_rsc [Some \<lparr>hs_Host = ''a.com'', hs_Cidr = ex_cidr\<rparr>] [],
     ex_other [Some \<lparr>hs_Host = ''b.com'', hs_Cidr = ex_cidr\<rparr>] []]"

lemma ex_history_ok:
  "reported Map.empty ex_history" "list_all (event_ok (\<lambda>_. ex_cidr) ex_owner) ex_history"
  "\<forall>ev\<in>set ex_history. map_option status_of (ref_find ex_api (rsc_key (event_object ev))) = Some []"
  "cache_hosts (cache_after Map.empty ex_history) = {''b.com'', ''c.com''}"
proof -
  show "reported Map.empty ex_history" by (simp add: ex_history_def rsc_key_def ex_other_def ex_rsc_def)
  show "list_all (event_ok (\<lambda>_. ex_cidr) ex_owner) ex_history"
    using ex_literals by (simp add: ex_history_def version_ok_def spec_hosts_def ex_other_def ex_rsc_def ex_owner_def rsc_key_def)
  show "\<forall>ev\<in>set ex_history. map_option status_of (ref_find ex_api (rsc_key (event_object ev))) = Some []"
    by (simp add: ex_history_def ex_api_def rsc_key_def ex_other_def ex_rsc_def ref_find_def)
  show "cache_hosts (cache_after Map.empty ex_history) = {''b.com'', ''c.com''}"
    by (auto simp: cache_hosts_def ex_history_def spec_hosts_def ex_other_def ex_rsc_def rsc_key_def)
qed

lemma ex_history_fits: "fits (\<lambda>_. ex_cidr) (first_book ex_entries) (cache_hosts (cache_after Map.empty (take n ex_history)))"
proof (rule fits_subset)
  show "fits (\<lambda>_. ex_cidr) (first_book ex_entries) {''a.com'', ''b.com'', ''c.com''}"
    by (rule ex_fits) simp_all
  have "n = 0 \<or> n = 1 \<or> n = 2 \<or> take n ex_history = ex_history" by (auto simp: ex_history_def)
  then show "cache_hosts (cache_after Map.empty (take n ex_history)) \<subseteq> {''a.com'', ''b.com'', ''c.com''}"
    using ex_history_ok(4)
    by (elim disjE) (auto simp: cache_hosts_def ex_history_def spec_hosts_def ex_other_def ex_rsc_def rsc_key_def numeral_2_eq_2
        split: if_splits)
qed

theorem cluster_converges_witness:
  "\<exists>m n s m'. NewManager ref_driver (f5_params ex_entries) = Inr (Some m)
    \<and> (sys_step (ipam_manager ref_driver) kube_ref id id ^^ n) (sys_start ex_history m ex_api) s
    \<and> sys_done s \<and> Manager (sys_ctl s) = Some m'
    \<and> snd ` set (a_records (mgr_book ref_tables m')) = {''b.com'', ''c.com''}"
proof -
  let ?R = "sys_step (ipam_manager ref_driver) kube_ref id id"
  have ord: "map_order id" by (simp add: map_order_def)
  have fits: "\<forall>n. fits (\<lambda>_. ex_cidr) (first_book ex_entries) (cache_hosts (cache_after Map.empty (take n ex_history)))"
    using ex_history_fits by blast
  note conv = cluster_converges [of ref_driver ref_tables ref_has kube_ref ref_find ex_entries id id ex_history
      "\<lambda>_. ex_cidr" ex_owner ex_api,
      OF ref.reliable_sqlite_axioms kube.kube_server_axioms ex_entries_ok ord ord ex_history_ok(1,2) fits ex_history_ok(3),
      unfolded ex_history_ok(4)]
  then obtain m N made where m: "NewManager ref_driver (f5_params ex_entries) = Inr (Some m)"
    and ex: "\<forall>ws. mset ws = mset made \<longrightarrow> (\<exists>n s. (?R ^^ n) (sys_start ex_history m ex_api) s \<and> sys_done s \<and> sys_wrote s = ws)"
    and all: "\<forall>n s. (?R ^^ n) (sys_start ex_history m ex_api) s \<longrightarrow>
         n \<le> N \<and> \<not> sys_panics (ipam_manager ref_driver) kube_ref id id s \<and> (sys_done s \<or> (\<exists>s'. ?R s s'))
       \<and> (sys_done s \<longrightarrow> sys_made s = made \<and> mset (sys_wrote s) = mset made
          \<and> (\<exists>m'. Manager (sys_ctl s) = Some m'
            \<and> snd ` set (a_records (mgr_book ref_tables m')) = {''b.com'', ''c.com''}
            \<and> inj_on fst (set (a_records (mgr_book ref_tables m')))
            \<and> (\<forall>k r. cache_after Map.empty ex_history k = Some r \<longrightarrow> (\<exists>sts.
                 map_option status_of (ref_find (sys_api s) k) = Some (map Some sts)
               \<and> hosts_served (\<lambda>_. ex_cidr) (set (all_ips ex_entries)) (spec_hosts r)
                   (filter (\<lambda>rec. snd rec \<in> spec_hosts r) (a_records (mgr_book ref_tables m'))) (sys_wrote s) made sts))))"
    by (elim exE conjE)
  obtain n s where s: "(?R ^^ n) (sys_start ex_history m ex_api) s" "sys_done s"
    using ex [rule_format, OF refl] by (elim exE conjE)
  obtain m' where "Manager (sys_ctl s) = Some m'" "snd ` set (a_records (mgr_book ref_tables m')) = {''b.com'', ''c.com''}"
    using all [rule_format, OF s(1)] s(2) by (elim exE conjE impE)
  with m s show ?thesis by (intro exI conjI)
qed

section \<open>An API that fails\<close>

text \<open>C23: When calls to the API server fail, also always, nothing but statuses is lost: the program
  does not panic and is never stuck, and at the end the address book records the hosts of
  all resources as before. An answer whose write failed is gone: the status of a resource is
  what some of its answers made of it, in the order they were taken.\<close>

theorem api_faults_lose_writes:
  assumes "reliable_sqlite drv tbl has" and "kube_faulty K stored"
    and "es \<noteq> []" and "list_all valid_entry es" and "distinct (all_ips es)"
    and "map_order o1" and "map_order o2"
    and "reported Map.empty evs" and "list_all (event_ok net owner) evs"
    and "\<forall>n. fits net (first_book es) (cache_hosts (cache_after Map.empty (take n evs)))"
    and "\<forall>ev\<in>set evs. map_option status_of (stored api (rsc_key (event_object ev))) = Some []"
  shows "\<exists>m N. NewManager drv (f5_params es) = Inr (Some m)
    \<and> (\<forall>n s. (sys_step (ipam_manager drv) K o1 o2 ^^ n) (sys_start evs m api) s \<longrightarrow>
         n \<le> N \<and> \<not> sys_panics (ipam_manager drv) K o1 o2 s
       \<and> (sys_done s \<or> (\<exists>s'. sys_step (ipam_manager drv) K o1 o2 s s'))
       \<and> (sys_done s \<longrightarrow>
           (\<exists>m'. Manager (sys_ctl s) = Some m'
            \<and> snd ` set (a_records (mgr_book tbl m')) = cache_hosts (cache_after Map.empty evs)
            \<and> inj_on fst (set (a_records (mgr_book tbl m')))
            \<and> fst ` set (a_records (mgr_book tbl m')) \<subseteq> set (all_ips es))
          \<and> (\<forall>k r. cache_after Map.empty evs k = Some r \<longrightarrow> (\<exists>ws. subseq ws (answers_for k (sys_wrote s))
               \<and> map_option status_of (stored (sys_api s) k) = Some (map Some (fold status_after ws []))))))"
proof -
  let ?cache = "cache_after Map.empty evs"
  have K: "api_ok False K stored" using assms(2) by (simp add: api_ok_def)
  obtain m N made where m: "NewManager drv (f5_params es) = Inr (Some m)"
    and run: "\<And>n s. (sys_step (ipam_manager drv) K o1 o2 ^^ n) (sys_start evs m api) s \<Longrightarrow>
      n \<le> N \<and> \<not> sys_panics (ipam_manager drv) K o1 o2 s
      \<and> (sys_done s \<or> (\<exists>s'. sys_step (ipam_manager drv) K o1 o2 s s'))"
    and fin: "\<And>n s. (sys_step (ipam_manager drv) K o1 o2 ^^ n) (sys_start evs m api) s \<Longrightarrow> sys_done s \<Longrightarrow>
      sys_made s = made \<and> mset (sys_wrote s) = mset made
      \<and> (\<forall>resp\<in>set (sys_wrote s). answer_key resp = owner (HostName (Request resp)))
      \<and> (\<exists>m'. Manager (sys_ctl s) = Some m'
        \<and> hosts_served net (set (all_ips es)) (cache_hosts ?cache) (a_records (mgr_book tbl m'))
            (sys_wrote s) made (fold status_after (sys_wrote s) [])
        \<and> (\<exists>ws. subseq ws (sys_wrote s) \<and> (False \<longrightarrow> ws = sys_wrote s)
          \<and> (\<forall>k r. ?cache k = Some r \<longrightarrow>
              map_option status_of (stored (sys_api s) k) = Some (map Some (fold status_after (answers_for k ws) [])))))"
    by (rule reliable_sqlite.cluster_outcome [OF assms(1) K assms(3-11)]) blast
  have book: "\<exists>m'. Manager (sys_ctl s) = Some m'
            \<and> snd ` set (a_records (mgr_book tbl m')) = cache_hosts ?cache
            \<and> inj_on fst (set (a_records (mgr_book tbl m')))
            \<and> fst ` set (a_records (mgr_book tbl m')) \<subseteq> set (all_ips es)"
    and some: "?cache k = Some r \<Longrightarrow> \<exists>ws. subseq ws (answers_for k (sys_wrote s))
               \<and> map_option status_of (stored (sys_api s) k) = Some (map Some (fold status_after ws []))"
    if reach: "(sys_step (ipam_manager drv) K o1 o2 ^^ n) (sys_start evs m api) s" and don: "sys_done s" for n s k r
  proof -
    show "\<exists>m'. Manager (sys_ctl s) = Some m'
            \<and> snd ` set (a_records (mgr_book tbl m')) = cache_hosts ?cache
            \<and> inj_on fst (set (a_records (mgr_book tbl m')))
            \<and> fst ` set (a_records (mgr_book tbl m')) \<subseteq> set (all_ips es)"
      using fin [OF reach don] hosts_served_records by blast
    show "\<exists>ws. subseq ws (answers_for k (sys_wrote s))
               \<and> map_option status_of (stored (sys_api s) k) = Some (map Some (fold status_after ws []))"
      if kr: "?cache k = Some r"
    proof -
      obtain ws where ws: "subseq ws (sys_wrote s)"
        "map_option status_of (stored (sys_api s) k) = Some (map Some (fold status_after (answers_for k ws) []))"
        using fin [OF reach don] kr by blast
      have "subseq (answers_for k ws) (answers_for k (sys_wrote s))"
        unfolding answers_for_def by (rule subseq_filter [OF ws(1)])
      with ws(2) show ?thesis by blast
    qed
  qed
  show ?thesis
    by (rule exI [of _ m], rule exI [of _ N], intro conjI allI impI m(1))
      (blast dest: run book some)+
qed

text \<open>An API server that answers, but refuses every update.\<close>

definition kube_down :: "F5IPAM list kube_api" where
  "kube_down = kube_ref\<lparr>api_Update := \<lambda>rs ns r. (True, rs)\<rparr>"

interpretation down: kube_faulty kube_down ref_find
proof (unfold_locales, goal_cases)
  case (1 api ns nm r)
  then show ?case by (rule ref_find_named)
next
  case (2 api ns nm)
  show ?case by (cases "ref_find api (ns, nm)") (simp_all add: kube_down_def kube_ref_def)
next
  case (3 api ns nm r sts)
  show ?case by (intro exI [of _ True] exI) (simp add: kube_down_def)
qed

theorem api_faults_lose_writes_witness:
  "\<exists>m. NewManager ref_driver (f5_params ex_entries) = Inr (Some m)
    \<and> (\<forall>n s. (sys_step (ipam_manager ref_driver) kube_down id id ^^ n) (sys_start ex_history m ex_api) s \<longrightarrow>
         \<not> sys_panics (ipam_manager ref_driver) kube_down id id s
       \<and> (sys_done s \<longrightarrow> (\<exists>m'. Manager (sys_ctl s) = Some m'
            \<and> snd ` set (a_records (mgr_book ref_tables m')) = {''b.com'', ''c.com''})))"
proof -
  let ?R = "sys_step (ipam_manager ref_driver) kube_down id id"
  have ord: "map_order id" by (simp add: map_order_def)
  have fits: "\<forall>n. fits (\<lambda>_. ex_cidr) (first_book ex_entries) (cache_hosts (cache_after Map.empty (take n ex_history)))"
    using ex_history_fits by blast
  note faults = api_faults_lose_writes [of ref_driver ref_tables ref_has kube_down ref_find ex_entries id id ex_history
      "\<lambda>_. ex_cidr" ex_owner ex_api,
      OF ref.reliable_sqlite_axioms down.kube_faulty_axioms ex_entries_ok ord ord ex_history_ok(1,2) fits ex_history_ok(3),
      unfolded ex_history_ok(4)]
  then obtain m N where m: "NewManager ref_driver (f5_params ex_entries) = Inr (Some m)"
    and all: "\<forall>n s. (?R ^^ n) (sys_start ex_history m ex_api) s \<longrightarrow>
         n \<le> N \<and> \<not> sys_panics (ipam_manager ref_driver) kube_down id id s \<and> (sys_done s \<or> (\<exists>s'. ?R s s'))
       \<and> (sys_done s \<longrightarrow> (\<exists>m'. Manager (sys_ctl s) = Some m'
            \<and> snd ` set (a_records (mgr_book ref_tables m')) = {''b.com'', ''c.com''}
            \<and> inj_on fst (set (a_records (mgr_book ref_tables m')))
            \<and> fst ` set (a_records (mgr_book ref_tables m')) \<subseteq> set (all_ips ex_entries))
          \<and> (\<forall>k r. cache_after Map.empty ex_history k = Some r \<longrightarrow> (\<exists>ws. subseq ws (answers_for k (sys_wrote s))
               \<and> map_option status_of (ref_find (sys_api s) k) = Some (map Some (fold status_after ws [])))))"
    by (elim exE conjE)
  have "\<not> sys_panics (ipam_manager ref_driver) kube_down id id s \<and> (sys_done s \<longrightarrow> (\<exists>m'. Manager (sys_ctl s) = Some m'
            \<and> snd ` set (a_records (mgr_book ref_tables m')) = {''b.com'', ''c.com''}))"
    if reach: "(?R ^^ n) (sys_start ex_history m ex_api) s" for n s
  proof (intro conjI impI)
    show "\<not> sys_panics (ipam_manager ref_driver) kube_down id id s" using all [rule_format, OF reach] by (elim conjE)
    assume "sys_done s"
    then obtain m' where "Manager (sys_ctl s) = Some m'" "snd ` set (a_records (mgr_book ref_tables m')) = {''b.com'', ''c.com''}"
      using all [rule_format, OF reach] by (elim conjE impE exE)
    then show "\<exists>m'. Manager (sys_ctl s) = Some m' \<and> snd ` set (a_records (mgr_book ref_tables m')) = {''b.com'', ''c.com''}"
      by (intro exI conjI)
  qed
  then show ?thesis by (intro exI [of _ m] conjI [OF m] allI impI)
qed

section \<open>Several resources after a restart\<close>

text \<open>A new host takes the address that the status of a later resource names.\<close>

lemma address_taken:
  fixes t md1 md2 h b c ip
  defines "rs \<equiv> [create_request md1 h c [], create_request md2 b c ip, create_request md2 b c []]"
  assumes nl: "no_leak bindable t" and recs: "a_records t = []"
    and row: "tb_available c t = Some row" "row_ip row = ip" and hb: "h \<noteq> b"
  shows "\<exists>more. fst (book_run bindable in_net rs t) = reply (rs ! 0) ip True # reply (rs ! 1) [] False # more"
    and "(ip, h) \<in> set (a_records (snd (book_run bindable in_net rs t)))"
    and "(ip, b) \<notin> set (a_records (snd (book_run bindable in_net rs t)))"
proof -
  have ok: "book_ok t" and all: "list_all bindable (map row_ip (ranges t))" using nl by (simp_all add: no_leak_def)
  note r = tb_available_SomeD [OF row(1)]
  have pool: "pool_ok t" and b: "bindable ip" and ne: "ip \<noteq> []"
    using ok all r row(2) by (force simp: book_ok_def pool_ok_def list_all_iff)+
  let ?t1 = "bk_bind h ip (tb_status_by_id ALLOCATED (row_id row) t)"
  have "bk_lookup h t = []" by (simp add: bk_lookup_def tb_host_ip_def least_ip_def recs)
  then have one: "book_serve bindable in_net (create_request md1 h c []) t =
      (Some (reply (create_request md1 h c []) ip True), ?t1)"
    using row b ne by (simp add: book_serve_defs bk_next_def)
  have ok1: "book_ok ?t1" using book_ok_serve [OF ok, of bindable in_net "create_request md1 h c []"] one by (simp only: snd_conv)
  have mem: "(ip, h) \<in> set (a_records ?t1)" by simp
  then have "ip \<in> alloc_ips ?t1" using ok1 by (force simp: book_ok_def bound_ok_def)
  then have "ip \<notin> avail_ips ?t1" using alloc_avail_disjoint [of ?t1] ok1 by (auto simp: book_ok_def)
  then have "tb_available_ip c ip ?t1 = None"
    by (cases "tb_available_ip c ip ?t1") (auto simp: avail_ips_def dest!: tb_available_ip_SomeD)
  then have two: "book_serve bindable in_net (create_request md2 b c ip) ?t1 =
      (Some (reply (create_request md2 b c ip) [] False), ?t1)"
    using ne by (simp add: book_serve_def book_create_def bk_take_def)
  have keep: "set (a_records ?t1) \<subseteq> set (a_records (snd (book_serve bindable in_net (create_request md2 b c []) ?t1)))"
    by (auto simp: book_serve_defs)
  have run: "book_run bindable in_net rs t = (reply (rs ! 0) ip True # reply (rs ! 1) [] False #
      (case fst (book_serve bindable in_net (create_request md2 b c []) ?t1) of None \<Rightarrow> [] | Some r \<Rightarrow> [r]),
      snd (book_serve bindable in_net (create_request md2 b c []) ?t1))"
    by (simp add: rs_def book_run_Cons one two del: book_run.simps(2))
  then show "\<exists>more. fst (book_run bindable in_net rs t) = reply (rs ! 0) ip True # reply (rs ! 1) [] False # more" by simp
  show h: "(ip, h) \<in> set (a_records (snd (book_run bindable in_net rs t)))" using run keep mem by auto
  show "(ip, b) \<notin> set (a_records (snd (book_run bindable in_net rs t)))"
    using book_exclusive [OF book_ok_run [OF ok] h] hb by blast
qed

text \<open>C40: After a restart the resources are handled one after the other, and the status of a later
  one does not protect its addresses: a new host \<open>h\<close> of the first resource is given the first
  free address of the network, although the status of the second resource names it for its
  host \<open>b\<close>. The request that should restore it is refused, and \<open>b\<close> does not keep its
  address. (With one resource all addresses are restored: \<open>restart_restores\<close>.)\<close>

theorem restart_moves_address:
  assumes "reliable_sqlite drv tbl has" and "es \<noteq> []" and "list_all valid_entry es" and "distinct (all_ips es)"
    and "tb_available c (first_book es) = Some row"
    and "hosts_of r1 = [Some \<lparr>hs_Host = h, hs_Cidr = c\<rparr>]" and "status_of r1 = []"
    and "hosts_of r2 = [Some \<lparr>hs_Host = b, hs_Cidr = c\<rparr>]"
    and "status_of r2 = [Some \<lparr>ips_Host = b, ips_Cidr = c, ips_IP = row_ip row\<rparr>]"
    and "h \<noteq> b" and "sql_literal h" and "sql_literal b"
  shows "\<exists>m ctlr m' more. NewManager drv (f5_params es) = Inr (Some m)
    \<and> runController (ipam_manager drv) (NewController (Some m))
        (fst (key_requests o1 o2 (create_key r1)) @ fst (key_requests o1 o2 (create_key r2))) = Inr ctlr
    \<and> Manager ctlr = Some m'
    \<and> pending ctlr = reply (create_request (rsc_meta r1) h c []) (row_ip row) True
        # reply (create_request (rsc_meta r2) b c (row_ip row)) [] False # more
    \<and> (row_ip row, h) \<in> set (a_records (mgr_book tbl m'))
    \<and> (row_ip row, b) \<notin> set (a_records (mgr_book tbl m'))"
proof -
  let ?rs = "[create_request (rsc_meta r1) h c [], create_request (rsc_meta r2) b c (row_ip row), create_request (rsc_meta r2) b c []]"
  have reqs: "fst (key_requests o1 o2 (create_key r1)) @ fst (key_requests o1 o2 (create_key r2)) = ?rs"
    using create_sends [of r1 o1 o2 None] create_sends [of r2 o1 o2 None]
    by (simp add: create_key_def assms(6-9) status_request_def spec_request_def create_request_def)
  have recs: "a_records (first_book es) = []"
    by (simp add: entries_tables_rows) (simp add: empty_tables_def)
  note taken = address_taken [where in_net = addr_in_net, OF first_book_no_leak [OF assms(4)] recs assms(5) refl assms(10),
      of "rsc_meta r1" "rsc_meta r2"]
  have "list_all (\<lambda>req. sql_literal (HostName req)) ?rs" using assms(11,12) by simp
  from reliable_sqlite.serve_from_start [OF assms(1-3) this] obtain m m' where
    "NewManager drv (f5_params es) = Inr (Some m)"
    "runController (ipam_manager drv) (NewController (Some m)) ?rs = Inr \<lparr>Manager = Some m', pending = fst (serve_all ?rs (first_book es))\<rparr>"
    "mgr_book tbl m' = snd (serve_all ?rs (first_book es))" by blast
  with taken show ?thesis unfolding reqs by auto
qed

theorem restart_moves_address_witness:
  "\<exists>m ctlr m'. NewManager ref_driver (f5_params ex_entries) = Inr (Some m)
    \<and> runController (ipam_manager ref_driver) (NewController (Some m))
        (fst (key_requests id id (create_key (ex_rsc [Some \<lparr>hs_Host = ''a.com'', hs_Cidr = ex_cidr\<rparr>] []))) @
         fst (key_requests id id (create_key (ex_other [Some \<lparr>hs_Host = ''b.com'', hs_Cidr = ex_cidr\<rparr>]
           [Some \<lparr>ips_Host = ''b.com'', ips_Cidr = ex_cidr, ips_IP = ''192.168.1.1''\<rparr>])))) = Inr ctlr
    \<and> Manager ctlr = Some m'
    \<and> (''192.168.1.1'', ''a.com'') \<in> set (a_records (mgr_book ref_tables m'))
    \<and> (''192.168.1.1'', ''b.com'') \<notin> set (a_records (mgr_book ref_tables m'))"
proof -
  let ?row = "\<lparr>row_id = 1, row_ip = ''192.168.1.1'', row_status = 1, row_cidr = ex_cidr\<rparr>"
  let ?r1 = "ex_rsc [Some \<lparr>hs_Host = ''a.com'', hs_Cidr = ex_cidr\<rparr>] []"
    and ?r2 = "ex_other [Some \<lparr>hs_Host = ''b.com'', hs_Cidr = ex_cidr\<rparr>]
      [Some \<lparr>ips_Host = ''b.com'', ips_Cidr = ex_cidr, ips_IP = ''192.168.1.1''\<rparr>]"
  have row: "tb_available ex_cidr (first_book ex_entries) = Some ?row" by code_simp
  have rs: "hosts_of ?r1 = [Some \<lparr>hs_Host = ''a.com'', hs_Cidr = ex_cidr\<rparr>]" "status_of ?r1 = []"
    "hosts_of ?r2 = [Some \<lparr>hs_Host = ''b.com'', hs_Cidr = ex_cidr\<rparr>]"
    "status_of ?r2 = [Some \<lparr>ips_Host = ''b.com'', ips_Cidr = ex_cidr, ips_IP = row_ip ?row\<rparr>]"
    by (simp_all add: ex_rsc_def ex_other_def)
  have hb: "''a.com'' \<noteq> ''b.com''" by simp
  note moved = restart_moves_address [OF ref.reliable_sqlite_axioms ex_entries_ok row rs hb ex_literals(1,2), of id id]
  then show ?thesis unfolding range_row.simps by blast
qed

end
