(* ===== verification/GoPath.thy ===== *)
theory GoPath
  imports GoStrings
begin

text \<open>
  Go's \<open>path\<close> package, as far as client-go builds URL paths with it: \<open>path.Clean\<close> drops empty
  and \<open>.\<close> elements and resolves \<open>..\<close>, \<open>path.Join\<close> joins its non-empty arguments and cleans
  the result. A clean rooted path is a list of plain segments (\<open>abs_path\<close>), and joining
  plain segments to it appends them, so a path says which segments it was built from.
\<close>

section \<open>Clean and Join\<close>

definition slash :: char where
  "slash = CHR 0x2F"

definition clean_step :: "bool \<Rightarrow> string list \<Rightarrow> string \<Rightarrow> string list" where
  "clean_step rooted segs seg =
     (if seg = [] \<or> seg = ''.'' then segs
      else if seg = ''..'' then
        (if segs \<noteq> [] \<and> last segs \<noteq> ''..'' then butlast segs
         else if rooted then segs else segs @ [seg])
      else segs @ [seg])"

definition path_Clean :: "string \<Rightarrow> string" where
  "path_Clean p =
     (let rooted = (p \<noteq> [] \<and> hd p = slash);
          out = (if rooted then [slash] else [])
                @ str_join [slash] (foldl (clean_step rooted) [] (str_split slash p))
      in if out = [] then ''.'' else out)"

text \<open>\<open>path.Join\<close> of any number of elements: empty ones are left out, without any the result is empty.\<close>

definition path_Join :: "string list \<Rightarrow> string" where
  "path_Join elems =
     (let es = filter (\<lambda>e. e \<noteq> []) elems
      in if es = [] then [] else path_Clean (str_join [slash] es))"

section \<open>Plain segments\<close>

definition plain_seg :: "string \<Rightarrow> bool" where
  "plain_seg s \<longleftrightarrow> s \<noteq> [] \<and> s \<noteq> ''.'' \<and> s \<noteq> ''..'' \<and> slash \<notin> set s"

definition abs_path :: "string list \<Rightarrow> string" where
  "abs_path segs = slash # str_join [slash] segs"

lemma plain_segs_split:
  assumes "list_all plain_seg ss" and "ss \<noteq> []"
  shows "str_split slash (str_join [slash] ss) = ss"
  using assms by (intro str_split_join) (auto simp: list_all_iff plain_seg_def)

text \<open>A clean path determines its segments.\<close>

lemma join_not_Nil: "ss \<noteq> [] \<Longrightarrow> \<forall>s\<in>set ss. s \<noteq> [] \<Longrightarrow> str_join sep ss \<noteq> []"
  by (induction sep ss rule: str_join.induct) auto

lemma join_plain_empty: "list_all plain_seg ss \<Longrightarrow> str_join sep ss = [] \<longleftrightarrow> ss = []"
proof (cases "ss = []")
  case False
  assume "list_all plain_seg ss"
  then have "\<forall>s\<in>set ss. s \<noteq> []" by (simp add: list_all_iff plain_seg_def)
  from join_not_Nil [OF False this] False show ?thesis by simp
qed simp

lemma abs_path_inject:
  assumes "list_all plain_seg ss" and "list_all plain_seg ts"
  shows "abs_path ss = abs_path ts \<longleftrightarrow> ss = ts"
proof
  assume "abs_path ss = abs_path ts"
  then have eq: "str_join [slash] ss = str_join [slash] ts" by (simp add: abs_path_def)
  show "ss = ts"
  proof (cases "ss = [] \<or> ts = []")
    case True
    with eq join_plain_empty assms have "ss = [] \<and> ts = []" by (metis str_join.simps(1))
    then show ?thesis by simp
  next
    case False
    then have ne: "ss \<noteq> []" "ts \<noteq> []" by simp_all
    have "ss = str_split slash (str_join [slash] ss)" by (rule plain_segs_split [OF assms(1) ne(1), symmetric])
    also have "\<dots> = ts" unfolding eq by (rule plain_segs_split [OF assms(2) ne(2)])
    finally show ?thesis .
  qed
qed simp

lemma clean_step_plain: "plain_seg s \<Longrightarrow> clean_step rooted segs s = segs @ [s]"
  by (simp add: clean_step_def plain_seg_def)

lemma clean_plain: "list_all plain_seg ss \<Longrightarrow> foldl (clean_step rooted) segs ss = segs @ ss"
  by (induction ss arbitrary: segs) (simp_all add: clean_step_plain)

lemma clean_step_empty: "clean_step rooted segs [] = segs"
  by (simp add: clean_step_def)

lemma split_rooted: "str_split slash (slash # p) = [] # str_split slash p"
  by simp

text \<open>Whatever the text, cleaning a rooted path gives plain segments.\<close>

lemma clean_step_rooted:
  assumes "list_all plain_seg segs" and "slash \<notin> set s"
  shows "list_all plain_seg (clean_step True segs s)"
proof -
  have "list_all plain_seg (butlast segs)" using assms(1) by (auto simp: list_all_iff dest: in_set_butlastD)
  then show ?thesis using assms by (simp add: clean_step_def plain_seg_def)
qed

lemma clean_rooted_plain:
  assumes "\<forall>s\<in>set ss. slash \<notin> set s" and "list_all plain_seg segs"
  shows "list_all plain_seg (foldl (clean_step True) segs ss)"
  using assms by (induction ss arbitrary: segs) (simp_all add: clean_step_rooted)

definition rooted_segs :: "string \<Rightarrow> string list" where
  "rooted_segs p = foldl (clean_step True) [] (str_split slash p)"

lemma rooted_segs_plain: "list_all plain_seg (rooted_segs p)"
  unfolding rooted_segs_def by (rule clean_rooted_plain) (auto dest: split_parts_plain)

lemma path_Clean_rooted: "path_Clean (slash # p) = abs_path (rooted_segs p)"
  by (simp add: path_Clean_def abs_path_def rooted_segs_def clean_step_empty)

lemma rooted_segs_join:
  assumes "list_all plain_seg ss"
  shows "rooted_segs (str_join [slash] ss) = ss"
proof (cases "ss = []")
  case False
  show ?thesis using clean_plain [OF assms, of True "[]"] by (simp add: rooted_segs_def plain_segs_split [OF assms False])
qed (simp add: rooted_segs_def clean_step_empty)

lemma path_Clean_abs: "list_all plain_seg ss \<Longrightarrow> path_Clean (abs_path ss) = abs_path ss"
  by (simp add: abs_path_def path_Clean_rooted rooted_segs_join)

text \<open>Joining to a clean path appends; empty elements do not count.\<close>

lemma str_join_append: "ss \<noteq> [] \<Longrightarrow> ts \<noteq> [] \<Longrightarrow> str_join sep (ss @ ts) = str_join sep ss @ sep @ str_join sep ts"
proof (induction sep ss rule: str_join.induct)
  case (2 sep s)
  then show ?case by (cases ts) simp_all
qed simp_all

lemma split_append_segs:
  assumes "ts \<noteq> []" and "list_all plain_seg ts"
  shows "str_split slash (s @ slash # str_join [slash] ts) = str_split slash s @ ts"
proof (induction s)
  case Nil
  then show ?case using plain_segs_split [OF assms(2,1)] by simp
next
  case (Cons x s)
  then show ?case by (cases "str_split slash s") simp_all
qed

lemma filter_join: "list_all (list_all plain_seg) tss \<Longrightarrow> ts = map (str_join [slash]) tss \<Longrightarrow>
    filter (\<lambda>t. t \<noteq> []) ts = map (str_join [slash]) (filter (\<lambda>ts. ts \<noteq> []) tss)"
  by (induction tss arbitrary: ts) (simp_all add: join_plain_empty)

lemma join_joins:
  assumes "[] \<notin> set tss"
  shows "str_join sep (map (str_join sep) tss) = str_join sep (concat tss)"
  using assms
proof (induction tss rule: induct_list012)
  case (3 t t' tss)
  have "concat (t' # tss) \<noteq> []" "t \<noteq> []" using 3 by (cases t', auto)
  then show ?case using 3 str_join_append [of t "concat (t' # tss)" sep] by simp
qed simp_all

lemma concat_nonempty: "concat (filter (\<lambda>ts. ts \<noteq> []) tss) = concat tss"
  by (induction tss) simp_all

lemma path_Join_abs:
  assumes "list_all plain_seg ss" and "list_all (list_all plain_seg) tss"
  shows "path_Join (abs_path ss # map (str_join [slash]) tss) = abs_path (ss @ concat tss)"
proof -
  let ?ts = "filter (\<lambda>ts. ts \<noteq> []) tss"
  have flt: "filter (\<lambda>t. t \<noteq> []) (map (str_join [slash]) tss) = map (str_join [slash]) ?ts"
    by (rule filter_join [OF assms(2) refl])
  have ts: "list_all plain_seg (concat tss)" using assms(2) by (auto simp: list_all_iff)
  have ne: "abs_path ss \<noteq> []" by (simp add: abs_path_def)
  show ?thesis
  proof (cases "?ts = []")
    case True
    then have "concat tss = []" using concat_nonempty [of tss] by simp
    moreover have "filter (\<lambda>t. t \<noteq> []) (map (str_join [slash]) tss) = []" using True flt by simp
    ultimately show ?thesis using ne path_Clean_abs [OF assms(1)] by (simp only: path_Join_def) simp
  next
    case False
    have cne: "concat tss \<noteq> []" using False concat_nonempty [of tss] by (cases ?ts) (auto simp: filter_eq_Cons_iff)
    have "str_join [slash] (abs_path ss # map (str_join [slash]) ?ts) =
        slash # (str_join [slash] ss @ slash # str_join [slash] (concat tss))"
      using str_join_append [of "[abs_path ss]" "map (str_join [slash]) ?ts" "[slash]"] False
        join_joins [of ?ts "[slash]"] concat_nonempty [of tss] by (simp add: abs_path_def)
    moreover have "rooted_segs (str_join [slash] ss @ slash # str_join [slash] (concat tss)) = ss @ concat tss"
      using rooted_segs_join [OF assms(1)] clean_plain [OF ts, of True ss]
      by (simp add: rooted_segs_def split_append_segs [OF cne ts])
    ultimately show ?thesis using ne False flt by (simp add: path_Join_def Let_def path_Clean_rooted)
  qed
qed

text \<open>Joining relative segments.\<close>

lemma path_Join_plain:
  assumes "\<forall>t\<in>set ts. t = [] \<or> plain_seg t"
  shows "path_Join ts = str_join [slash] (filter (\<lambda>t. t \<noteq> []) ts)"
proof -
  let ?ts = "filter (\<lambda>t. t \<noteq> []) ts"
  have ts: "list_all plain_seg ?ts" using assms by (auto simp: list_all_iff)
  show ?thesis
  proof (cases ?ts)
    case (Cons t us)
    have "t \<noteq> []" "slash \<notin> set t" using ts Cons by (simp_all add: plain_seg_def)
    then have "hd (str_join [slash] ?ts) \<noteq> slash" by (cases t; cases us) (auto simp: Cons)
    moreover have "str_join [slash] ?ts \<noteq> []" using join_plain_empty [OF ts] Cons by simp
    ultimately have "path_Clean (str_join [slash] ?ts) = str_join [slash] ?ts"
      using plain_segs_split [OF ts] clean_plain [OF ts, of False "[]"] Cons by (simp add: path_Clean_def)
    then show ?thesis using Cons by (simp add: path_Join_def)
  qed (simp add: path_Join_def)
qed

lemma path_Join_root: "path_Join ([slash] # ts) = abs_path (rooted_segs (str_join [slash] (filter (\<lambda>t. t \<noteq> []) ts)))"
proof -
  let ?ts = "filter (\<lambda>t. t \<noteq> []) ts"
  have seg: "rooted_segs (slash # p) = rooted_segs p" for p
    by (simp add: rooted_segs_def clean_step_empty)
  show ?thesis
  proof (cases "?ts = []")
    case True
    then show ?thesis by (simp add: path_Join_def path_Clean_rooted)
  next
    case False
    then have "str_join [slash] ([slash] # ?ts) = slash # (slash # str_join [slash] ?ts)" by (cases ?ts) simp_all
    with False show ?thesis by (simp add: path_Join_def Let_def path_Clean_rooted seg)
  qed
qed

end
