(* ===== verification/Restclient.thy ===== *)
theory Restclient
  imports GoPath Fic "HOL-Library.AList" Complex_Main
begin

text \<open>
  The part of client-go's \<open>rest\<close> package (\<open>src/vendor/k8s.io/client-go/rest\<close>) that both
  clients of the program are written with: \<open>RESTClientFor\<close> makes a client from a
  configuration, a \<open>Request\<close> is built by chained calls that stop changing it after the
  first error, and what it finally sends is an \<open>http_call\<close>. Parameters (\<open>rest_lib\<close>): URL parsing,
  the transport of the TLS and authentication settings, which \<open>rest_config\<close> leaves out, and
  the serializers of the content types; and the server. Rate limiting, backoff and the
  repetition of a request the server asks to repeat are left out, as is \<open>Suffix\<close>, which no
  caller uses. A query is a map from keys to values, kept in the order of adding.
\<close>

section \<open>Configuration and client\<close>

text \<open>A scheme: the kinds registered per group and version.\<close>

type_synonym scheme = "((string \<times> string) \<times> string) list"

text \<open>\<open>metav1.AddToGroupVersion\<close> registers the options of requests, and watch events.\<close>

definition AddToGroupVersion :: "string \<times> string \<Rightarrow> scheme \<Rightarrow> scheme" where
  "AddToGroupVersion gv sch = sch @ ((gv, ''WatchEvent'') # ((fst gv, ''__internal''), ''WatchEvent'')
     # map (Pair gv) [''ListOptions'', ''ExportOptions'', ''GetOptions'', ''DeleteOptions'', ''CreateOptions'',
                      ''UpdateOptions'', ''PatchOptions''])"

text \<open>
  A codec factory over a scheme, or its \<open>WithoutConversion\<close>: the negotiated serializers that
  configurations hold.
\<close>

datatype codecs = NewCodecFactory scheme | WithoutConversion scheme

datatype rate_limiter = TokenBucket rat int | GivenLimiter nat

record rest_config =
  rc_Host :: string
  rc_APIPath :: string
  rc_GroupVersion :: "(string \<times> string) option"
  rc_ContentType :: string
  rc_AcceptContentTypes :: string
  rc_Serializer :: "codecs option"  \<comment> \<open>\<open>NegotiatedSerializer\<close>\<close>
  rc_UserAgent :: string
  rc_QPS :: rat
  rc_Burst :: int
  rc_RateLimiter :: "rate_limiter option"
  rc_Timeout :: "64 word"

record DeleteOptions =
  do_GracePeriodSeconds :: "64 word option"
  do_Preconditions :: "(string option \<times> string option) option"
  do_OrphanDependents :: "bool option"
  do_PropagationPolicy :: "string option"
  do_DryRun :: "string list"

text \<open>The objects that are sent; a pointer to one may be nil.\<close>

datatype rest_object = Obj_F5IPAM F5IPAM | Obj_DeleteOptions DeleteOptions

datatype rest_error =
    No_GroupVersion | No_Serializer | Bad_host | Bad_transport | Bad_content_type | Bad_discovery
  | Burst_required
  | Already_set string
  | Invalid_segment string string
  | Empty_name
  | Empty_namespace_with_name
  | Empty_namespace_on_create
  | Not_encoded

type_synonym 'e serializer = "((string \<times> string) \<times> string) option \<Rightarrow> rest_object \<Rightarrow> 'e option"

record 'e rest_lib =
  lib_host_path :: "string \<Rightarrow> string option"  \<comment> \<open>the path of the URL a host is parsed to\<close>
  lib_default_transport :: "bool option"  \<comment> \<open>whether it is \<open>http.DefaultTransport\<close>, or an error\<close>
  lib_serializer :: "string \<Rightarrow> 'e serializer option"
    \<comment> \<open>the serializer of a content type: writes an object with the group, version and kind given\<close>

record 'e RESTClient =
  rcl_base :: string
  rcl_versionedAPIPath :: string
  rcl_ContentType :: string
  rcl_AcceptContentTypes :: string
  rcl_encode :: "rest_object \<Rightarrow> 'e option"
  rcl_Throttle :: "rate_limiter option"
  rcl_timeout :: "64 word"
  rcl_UserAgent :: string  \<comment> \<open>the header its transport adds, none when empty\<close>

definition DefaultVersionedAPIPath :: "string \<Rightarrow> string \<times> string \<Rightarrow> string" where
  "DefaultVersionedAPIPath apiPath gv =
     (let versionedAPIPath = path_Join [[slash], apiPath]
      in if fst gv \<noteq> [] then path_Join [versionedAPIPath, fst gv, snd gv]
         else path_Join [versionedAPIPath, snd gv])"

text \<open>
  The encoders of the two kinds of codecs for the group and version of a configuration. Both
  look up the kinds an object is registered with; the converting one refuses an object that
  is not registered in the group, the other one writes it as it is.
\<close>

fun object_kind :: "rest_object \<Rightarrow> string" where
  "object_kind (Obj_F5IPAM r) = ''F5IPAM''"
| "object_kind (Obj_DeleteOptions d) = ''DeleteOptions''"

definition ObjectKinds :: "scheme \<Rightarrow> rest_object \<Rightarrow> scheme" where
  "ObjectKinds sch ob = filter (\<lambda>gvk. snd gvk = object_kind ob) sch"

definition KindForGroupVersionKinds :: "string \<times> string \<Rightarrow> scheme \<Rightarrow> ((string \<times> string) \<times> string) option" where
  "KindForGroupVersionKinds gv kinds =
     (case find (\<lambda>gvk. fst gvk = gv) kinds of
        Some gvk \<Rightarrow> Some gvk
      | None \<Rightarrow> (case find (\<lambda>gvk. fst (fst gvk) = fst gv) kinds of
                  Some gvk \<Rightarrow> Some (gv, snd gvk)
                | None \<Rightarrow> None))"

definition WithVersionEncoder_Encode :: "scheme \<Rightarrow> 'e serializer \<Rightarrow> string \<times> string \<Rightarrow> rest_object \<Rightarrow> 'e option" where
  "WithVersionEncoder_Encode sch write gv ob =
     (case ObjectKinds sch ob of
        [] \<Rightarrow> write None ob
      | gvk # gvks \<Rightarrow>
          write (Some (case KindForGroupVersionKinds gv (gvk # gvks) of None \<Rightarrow> gvk | Some k \<Rightarrow> k)) ob)"

text \<open>\<open>convertToVersion\<close> of a typed object of a scheme: a kind it is not registered with would be
  converted to another type, of which a scheme of the program has none for these objects.\<close>

definition codec_Encode :: "scheme \<Rightarrow> 'e serializer \<Rightarrow> string \<times> string \<Rightarrow> rest_object \<Rightarrow> 'e option" where
  "codec_Encode sch write gv ob =
     (case KindForGroupVersionKinds gv (ObjectKinds sch ob) of
        None \<Rightarrow> None
      | Some k \<Rightarrow> if k \<in> set (ObjectKinds sch ob) then write (Some k) ob else None)"

fun EncoderForVersion :: "codecs \<Rightarrow> 'e serializer \<Rightarrow> string \<times> string \<Rightarrow> rest_object \<Rightarrow> 'e option" where
  "EncoderForVersion (WithoutConversion sch) write gv = WithVersionEncoder_Encode sch write gv"
| "EncoderForVersion (NewCodecFactory sch) write gv = codec_Encode sch write gv"

text \<open>\<open>rest.NewRESTClient\<close>: the base path ends with a slash, the content type has a default.\<close>

definition rest_NewRESTClient :: "'e rest_lib \<Rightarrow> string \<Rightarrow> string \<Rightarrow> codecs \<Rightarrow> rest_config \<Rightarrow> rat \<Rightarrow> int
    \<Rightarrow> 64 word \<Rightarrow> rest_error + 'e RESTClient" where
  "rest_NewRESTClient lib basePath versionedAPIPath codecs config maxQPS maxBurst timeout =
     (let base = (if basePath \<noteq> [] \<and> last basePath = slash then basePath else basePath @ [slash]);
          ct = (if rc_ContentType config = [] then ''application/json'' else rc_ContentType config);
          gv = (case rc_GroupVersion config of None \<Rightarrow> ([], []) | Some gv \<Rightarrow> gv)
      in case lib_serializer lib ct of
           None \<Rightarrow> Inl Bad_content_type
         | Some write \<Rightarrow> Inr \<lparr>rcl_base = base, rcl_versionedAPIPath = versionedAPIPath,
             rcl_ContentType = ct, rcl_AcceptContentTypes = rc_AcceptContentTypes config,
             rcl_encode = EncoderForVersion codecs write gv,
             rcl_Throttle = (if maxQPS > 0 \<and> rc_RateLimiter config = None
                             then Some (TokenBucket maxQPS maxBurst) else rc_RateLimiter config),
             rcl_timeout = timeout, rcl_UserAgent = rc_UserAgent config\<rparr>)"

text \<open>The transport is not the default one when it has a user agent to add. A negative timeout is
  ignored, and so is any timeout with the default transport.\<close>

definition RESTClientFor :: "'e rest_lib \<Rightarrow> rest_config \<Rightarrow> rest_error + 'e RESTClient" where
  "RESTClientFor lib config =
     (case rc_GroupVersion config of
        None \<Rightarrow> Inl No_GroupVersion
      | Some gv \<Rightarrow>
     (case rc_Serializer config of
        None \<Rightarrow> Inl No_Serializer
      | Some codecs \<Rightarrow>
     (case lib_host_path lib (if rc_Host config = [] then ''localhost'' else rc_Host config) of
        None \<Rightarrow> Inl Bad_host
      | Some basePath \<Rightarrow>
     (case lib_default_transport lib of
        None \<Rightarrow> Inl Bad_transport
      | Some dflt \<Rightarrow>
          rest_NewRESTClient lib basePath (DefaultVersionedAPIPath (rc_APIPath config) gv) codecs config
            (if rc_QPS config = 0 then 5 else rc_QPS config)
            (if rc_Burst config = 0 then 10 else rc_Burst config)
            (if \<not> (dflt \<and> rc_UserAgent config = []) \<and> 0 <s rc_Timeout config then rc_Timeout config else 0)))))"

section \<open>Requests\<close>

datatype 'e http_body = Encoded 'e | Raw string

record 'e http_call =
  hc_verb :: string
  hc_path :: string
  hc_query :: "(string \<times> string list) list"
  hc_timeout :: "64 word option"  \<comment> \<open>the \<open>timeout\<close> parameter of the query\<close>
  hc_headers :: "(string \<times> string list) list"
  hc_UserAgent :: string  \<comment> \<open>the header the transport adds, none when empty\<close>
  hc_body :: "'e http_body option"

record 'e Request =
  rr_client :: "'e RESTClient"
  rr_verb :: string
  rr_pathPrefix :: string
  rr_params :: "(string \<times> string list) list"
  rr_headers :: "(string \<times> string list) list"
  rr_namespace :: string
  rr_namespaceSet :: bool
  rr_resource :: string
  rr_resourceName :: string
  rr_subresource :: string
  rr_timeout :: "64 word"
  rr_err :: "rest_error option"
  rr_body :: "'e http_body option"

definition req_SetHeader :: "string \<Rightarrow> string list \<Rightarrow> 'e Request \<Rightarrow> 'e Request" where
  "req_SetHeader key values r = r\<lparr>rr_headers := AList.update key values (rr_headers r)\<rparr>"

definition client_Verb :: "'e RESTClient \<Rightarrow> string \<Rightarrow> 'e Request" where
  "client_Verb c verb =
     (let r = \<lparr>rr_client = c, rr_verb = verb,
               rr_pathPrefix = path_Join [path_Join [[slash], rcl_base c], rcl_versionedAPIPath c],
               rr_params = [], rr_headers = [], rr_namespace = [], rr_namespaceSet = False, rr_resource = [],
               rr_resourceName = [], rr_subresource = [], rr_timeout = rcl_timeout c, rr_err = None,
               rr_body = None\<rparr>
      in if rcl_AcceptContentTypes c \<noteq> [] then req_SetHeader ''Accept'' [rcl_AcceptContentTypes c] r
         else if rcl_ContentType c \<noteq> [] then req_SetHeader ''Accept'' [rcl_ContentType c @ '', */*''] r
         else r)"

definition client_Patch :: "'e RESTClient \<Rightarrow> string \<Rightarrow> 'e Request" where
  "client_Patch c pt = req_SetHeader ''Content-Type'' [pt] (client_Verb c ''PATCH'')"

definition IsValidPathSegmentName :: "string \<Rightarrow> bool" where
  "IsValidPathSegmentName name \<longleftrightarrow>
     name \<noteq> ''.'' \<and> name \<noteq> ''..'' \<and> slash \<notin> set name \<and> CHR 0x25 \<notin> set name"

text \<open>Every call leaves a request with an error alone.\<close>

definition unless_err :: "('e Request \<Rightarrow> 'e Request) \<Rightarrow> 'e Request \<Rightarrow> 'e Request" where
  "unless_err f r = (if rr_err r \<noteq> None then r else f r)"

definition req_Resource :: "string \<Rightarrow> 'e Request \<Rightarrow> 'e Request" where
  "req_Resource resource = unless_err (\<lambda>r.
     if rr_resource r \<noteq> [] then r\<lparr>rr_err := Some (Already_set ''resource'')\<rparr>
     else if \<not> IsValidPathSegmentName resource then r\<lparr>rr_err := Some (Invalid_segment ''resource'' resource)\<rparr>
     else r\<lparr>rr_resource := resource\<rparr>)"

definition req_SubResource :: "string list \<Rightarrow> 'e Request \<Rightarrow> 'e Request" where
  "req_SubResource subresources = unless_err (\<lambda>r.
     if rr_subresource r \<noteq> [] then r\<lparr>rr_err := Some (Already_set ''subresource'')\<rparr>
     else case find (\<lambda>s. \<not> IsValidPathSegmentName s) subresources of
            Some s \<Rightarrow> r\<lparr>rr_err := Some (Invalid_segment ''subresource'' s)\<rparr>
          | None \<Rightarrow> r\<lparr>rr_subresource := path_Join subresources\<rparr>)"

definition req_Name :: "string \<Rightarrow> 'e Request \<Rightarrow> 'e Request" where
  "req_Name resourceName = unless_err (\<lambda>r.
     if resourceName = [] then r\<lparr>rr_err := Some Empty_name\<rparr>
     else if rr_resourceName r \<noteq> [] then r\<lparr>rr_err := Some (Already_set ''resource name'')\<rparr>
     else if \<not> IsValidPathSegmentName resourceName
     then r\<lparr>rr_err := Some (Invalid_segment ''resource name'' resourceName)\<rparr>
     else r\<lparr>rr_resourceName := resourceName\<rparr>)"

definition req_Namespace :: "string \<Rightarrow> 'e Request \<Rightarrow> 'e Request" where
  "req_Namespace namespace = unless_err (\<lambda>r.
     if rr_namespaceSet r then r\<lparr>rr_err := Some (Already_set ''namespace'')\<rparr>
     else if \<not> IsValidPathSegmentName namespace
     then r\<lparr>rr_err := Some (Invalid_segment ''namespace'' namespace)\<rparr>
     else r\<lparr>rr_namespaceSet := True, rr_namespace := namespace\<rparr>)"

text \<open>\<open>VersionedParams\<close>: the encoded parameters are added to those already there.\<close>

definition req_VersionedParams :: "(string \<times> string list) list \<Rightarrow> 'e Request \<Rightarrow> 'e Request" where
  "req_VersionedParams params = unless_err (\<lambda>r.
     r\<lparr>rr_params := fold (\<lambda>(k, v) ps. AList.update k ((case map_of ps k of None \<Rightarrow> [] | Some old \<Rightarrow> old) @ v) ps)
                      params (rr_params r)\<rparr>)"

definition req_Timeout :: "64 word \<Rightarrow> 'e Request \<Rightarrow> 'e Request" where
  "req_Timeout d = unless_err (\<lambda>r. r\<lparr>rr_timeout := d\<rparr>)"

text \<open>\<open>Body\<close> of a pointer to an object: nil does nothing.\<close>

definition req_Body :: "rest_object option \<Rightarrow> 'e Request \<Rightarrow> 'e Request" where
  "req_Body obj = unless_err (\<lambda>r.
     case obj of
       None \<Rightarrow> r
     | Some ob \<Rightarrow>
         (case rcl_encode (rr_client r) ob of
            None \<Rightarrow> r\<lparr>rr_err := Some Not_encoded\<rparr>
          | Some data \<Rightarrow> req_SetHeader ''Content-Type'' [rcl_ContentType (rr_client r)]
                           (r\<lparr>rr_body := Some (Encoded data)\<rparr>)))"

definition req_Body_bytes :: "string \<Rightarrow> 'e Request \<Rightarrow> 'e Request" where
  "req_Body_bytes data = unless_err (\<lambda>r. r\<lparr>rr_body := Some (Raw data)\<rparr>)"

definition req_path :: "'e Request \<Rightarrow> string" where
  "req_path r =
     (let p1 = rr_pathPrefix r;
          p2 = (if rr_namespaceSet r \<and> rr_namespace r \<noteq> [] then path_Join [p1, ''namespaces'', rr_namespace r] else p1);
          p3 = (if rr_resource r \<noteq> [] then path_Join [p2, to_lower (rr_resource r)] else p2)
      in if rr_resourceName r \<noteq> [] \<or> rr_subresource r \<noteq> []
         then path_Join [p3, rr_resourceName r, rr_subresource r] else p3)"

definition req_http :: "'e Request \<Rightarrow> 'e http_call" where
  "req_http r = \<lparr>hc_verb = rr_verb r, hc_path = req_path r, hc_query = rr_params r,
     hc_timeout = (if rr_timeout r \<noteq> 0 then Some (rr_timeout r) else None),
     hc_headers = rr_headers r, hc_UserAgent = rcl_UserAgent (rr_client r), hc_body = rr_body r\<rparr>"

text \<open>
  The checks before a request is sent (\<open>request\<close>), and those before a watch. A framer for the
  content type is taken to exist, as it does for JSON.
\<close>

definition req_call :: "'e Request \<Rightarrow> rest_error + 'e http_call" where
  "req_call r =
     (case rr_err r of
        Some e \<Rightarrow> Inl e
      | None \<Rightarrow>
          if rr_verb r \<in> {''GET'', ''PUT'', ''DELETE''} \<and> rr_namespaceSet r \<and> rr_resourceName r \<noteq> []
             \<and> rr_namespace r = []
          then Inl Empty_namespace_with_name
          else if rr_verb r = ''POST'' \<and> rr_namespaceSet r \<and> rr_namespace r = []
          then Inl Empty_namespace_on_create
          else Inr (req_http r))"

definition req_Watch :: "'e Request \<Rightarrow> rest_error + 'e http_call" where
  "req_Watch r = (case rr_err r of Some e \<Rightarrow> Inl e | None \<Rightarrow> Inr (req_http r))"

text \<open>\<open>Do().Into(result)\<close>: the server answers with the decoded object or an error.\<close>

type_synonym ('e, 'api) http_server = "'api \<Rightarrow> 'e http_call \<Rightarrow> (F5IPAM \<times> bool) \<times> 'api"

definition req_Do :: "('e, 'api) http_server \<Rightarrow> 'api \<Rightarrow> 'e Request \<Rightarrow> (F5IPAM \<times> bool) \<times> 'api" where
  "req_Do server a r =
     (case req_call r of Inl _ \<Rightarrow> ((zero_F5IPAM, True), a) | Inr call \<Rightarrow> server a call)"

end
