(* ===== verification/Factory.thy ===== *)
theory Factory
  imports Prelude "HOL-Library.AList"
begin

text \<open>
  The informer factory (\<open>pkg/ipamapis/client/informers/externalversions\<close>): one shared informer
  per resource type, made on first request and started once however often \<open>Start\<close> is
  called. An informer is a pointer, here an index into the list of all informers the
  factory has made; types are named by strings, periods are numbers of nanoseconds.
\<close>

section \<open>The factory\<close>

record 't gen_informer =
  gi_namespace :: string
  gi_resync :: int
  gi_tweak :: "'t option"
  gi_runs :: nat  \<comment> \<open>how often \<open>Run\<close> was called\<close>

record 't sharedInformerFactory =
  f_namespace :: string
  tweakListOptions :: "'t option"
  defaultResync :: int
  customResync :: "(string \<times> int) list"
  f_informers :: "(string \<times> nat) list"
  startedInformers :: "(string \<times> bool) list"
  f_heap :: "'t gen_informer list"

type_synonym 't factory_option = "'t sharedInformerFactory \<Rightarrow> 't sharedInformerFactory"

definition WithCustomResyncConfig :: "(string \<times> int) list \<Rightarrow> 't factory_option" where
  "WithCustomResyncConfig resyncConfig factory =
     factory\<lparr>customResync := fold (\<lambda>(k, v). AList.update k v) resyncConfig (customResync factory)\<rparr>"

definition WithTweakListOptions :: "'t option \<Rightarrow> 't factory_option" where
  "WithTweakListOptions tweak factory = factory\<lparr>tweakListOptions := tweak\<rparr>"

definition WithNamespace :: "string \<Rightarrow> 't factory_option" where
  "WithNamespace ns factory = factory\<lparr>f_namespace := ns\<rparr>"

text \<open>All namespaces is the empty name.\<close>

definition NewSharedInformerFactoryWithOptions :: "int \<Rightarrow> 't factory_option list \<Rightarrow> 't sharedInformerFactory" where
  "NewSharedInformerFactoryWithOptions resync options =
     fold (\<lambda>opt factory. opt factory) options
       \<lparr>f_namespace = [], tweakListOptions = None, defaultResync = resync, customResync = [],
        f_informers = [], startedInformers = [], f_heap = []\<rparr>"

definition NewSharedInformerFactory :: "int \<Rightarrow> 't sharedInformerFactory" where
  "NewSharedInformerFactory resync = NewSharedInformerFactoryWithOptions resync []"

definition NewFilteredSharedInformerFactory :: "int \<Rightarrow> string \<Rightarrow> 't option \<Rightarrow> 't sharedInformerFactory" where
  "NewFilteredSharedInformerFactory resync ns tweak =
     NewSharedInformerFactoryWithOptions resync [WithNamespace ns, WithTweakListOptions tweak]"

definition InformerFor ::
    "'t sharedInformerFactory \<Rightarrow> string \<Rightarrow> (int \<Rightarrow> 't gen_informer) \<Rightarrow> nat \<times> 't sharedInformerFactory" where
  "InformerFor f informerType newFunc =
     (case map_of (f_informers f) informerType of
        Some informer \<Rightarrow> (informer, f)
      | None \<Rightarrow>
          (let resyncPeriod = (case map_of (customResync f) informerType of
                                 Some p \<Rightarrow> p | None \<Rightarrow> defaultResync f);
               informer = length (f_heap f)
           in (informer, f\<lparr>f_heap := f_heap f @ [newFunc resyncPeriod],
                          f_informers := AList.update informerType informer (f_informers f)\<rparr>)))"

text \<open>\<open>startedInformers[t]\<close> is false for a missing key.\<close>

definition started :: "'t sharedInformerFactory \<Rightarrow> string \<Rightarrow> bool" where
  "started f t \<longleftrightarrow> map_of (startedInformers f) t = Some True"

definition start_informer :: "string \<times> nat \<Rightarrow> 't sharedInformerFactory \<Rightarrow> 't sharedInformerFactory" where
  "start_informer e f =
     (case e of (informerType, informer) \<Rightarrow>
        if \<not> started f informerType
        then f\<lparr>f_heap := (f_heap f)[informer := (f_heap f ! informer)\<lparr>gi_runs := Suc (gi_runs (f_heap f ! informer))\<rparr>],
               startedInformers := AList.update informerType True (startedInformers f)\<rparr>
        else f)"

text \<open>\<open>ord\<close> is the order in which \<open>range\<close> visits the map.\<close>

definition factory_Start ::
    "((string \<times> nat) list \<Rightarrow> (string \<times> nat) list) \<Rightarrow> 't sharedInformerFactory \<Rightarrow> 't sharedInformerFactory" where
  "factory_Start ord f = fold start_informer (ord (f_informers f)) f"

text \<open>\<open>wait\<close>: whether the cache of an informer synced before the channel was closed.\<close>

definition factory_WaitForCacheSync :: "(nat \<Rightarrow> bool) \<Rightarrow> 't sharedInformerFactory \<Rightarrow> (string \<times> bool) list" where
  "factory_WaitForCacheSync wait f =
     map (\<lambda>(t, i). (t, wait i)) (filter (\<lambda>(t, i). started f t) (f_informers f))"

text \<open>The informer of the resource: its own constructor, through the factory.\<close>

definition F5IPAMType :: string where
  "F5IPAMType = ''*v1.F5IPAM''"

definition NewFilteredF5IPAMInformer :: "string \<Rightarrow> int \<Rightarrow> 't option \<Rightarrow> 't gen_informer" where
  "NewFilteredF5IPAMInformer ns resyncPeriod tweak =
     \<lparr>gi_namespace = ns, gi_resync = resyncPeriod, gi_tweak = tweak, gi_runs = 0\<rparr>"

lemma NewFilteredF5IPAMInformer_simps [simp]:
  "gi_namespace (NewFilteredF5IPAMInformer ns p tweak) = ns" "gi_tweak (NewFilteredF5IPAMInformer ns p tweak) = tweak"
  "gi_runs (NewFilteredF5IPAMInformer ns p tweak) = 0"
  by (simp_all add: NewFilteredF5IPAMInformer_def)

definition NewF5IPAMInformer :: "string \<Rightarrow> int \<Rightarrow> 't gen_informer" where
  "NewF5IPAMInformer ns resyncPeriod = NewFilteredF5IPAMInformer ns resyncPeriod None"

text \<open>The chain \<open>K8s().V1().F5IPAMs()\<close> hands the namespace and the options of the factory on.\<close>

record 't fic_group =
  grp_namespace :: string
  grp_tweak :: "'t option"

record 't fic_version =
  ver_namespace :: string
  ver_tweak :: "'t option"

record 't f5IPAMInformer =
  fi_namespace :: string
  fi_tweak :: "'t option"

definition factory_K8s :: "'t sharedInformerFactory \<Rightarrow> 't fic_group" where
  "factory_K8s f = \<lparr>grp_namespace = f_namespace f, grp_tweak = tweakListOptions f\<rparr>"

definition group_V1 :: "'t fic_group \<Rightarrow> 't fic_version" where
  "group_V1 g = \<lparr>ver_namespace = grp_namespace g, ver_tweak = grp_tweak g\<rparr>"

definition version_F5IPAMs :: "'t fic_version \<Rightarrow> 't f5IPAMInformer" where
  "version_F5IPAMs v = \<lparr>fi_namespace = ver_namespace v, fi_tweak = ver_tweak v\<rparr>"

definition defaultInformer :: "'t f5IPAMInformer \<Rightarrow> int \<Rightarrow> 't gen_informer" where
  "defaultInformer i resyncPeriod = NewFilteredF5IPAMInformer (fi_namespace i) resyncPeriod (fi_tweak i)"

definition F5IPAM_Informer :: "'t sharedInformerFactory \<Rightarrow> 't f5IPAMInformer \<Rightarrow> nat \<times> 't sharedInformerFactory" where
  "F5IPAM_Informer f i = InformerFor f F5IPAMType (defaultInformer i)"

text \<open>\<open>ForResource\<close>: the informer for the group, version and resource, an error for any other.\<close>

definition ForResource :: "'t sharedInformerFactory \<Rightarrow> string \<times> string \<times> string
    \<Rightarrow> ((string \<times> string) \<times> nat) option \<times> 't sharedInformerFactory" where
  "ForResource f gvr =
     (case gvr of (g, v, r) \<Rightarrow>
        if (g, v, r) = (''fic.f5.com'', ''v1'', ''f5ipams'')
        then (case F5IPAM_Informer f (version_F5IPAMs (group_V1 (factory_K8s f))) of
                (i, f1) \<Rightarrow> (Some ((g, r), i), f1))
        else (None, f))"

section \<open>What the factory keeps\<close>

text \<open>One informer per type; it ran once if its type was started, else never.\<close>

definition factory_ok :: "'t sharedInformerFactory \<Rightarrow> bool" where
  "factory_ok f \<longleftrightarrow> distinct (map fst (f_informers f)) \<and> map snd (f_informers f) = [0..<length (f_heap f)]
     \<and> list_all (\<lambda>(t, i). gi_runs (f_heap f ! i) = (if started f t then 1 else 0)) (f_informers f)
     \<and> (\<forall>t. started f t \<longrightarrow> t \<in> fst ` set (f_informers f))"

lemma factory_okD:
  assumes "factory_ok f" and "(t, i) \<in> set (f_informers f)"
  shows "i < length (f_heap f)" and "gi_runs (f_heap f ! i) = (if started f t then 1 else 0)"
    and "map_of (f_informers f) t = Some i"
proof -
  have snds: "map snd (f_informers f) = [0..<length (f_heap f)]" using assms(1) by (simp add: factory_ok_def)
  have "i \<in> set (map snd (f_informers f))" using assms(2) by force
  then show "i < length (f_heap f)" unfolding snds by simp
qed (use assms in \<open>auto simp: factory_ok_def list_all_iff\<close>)

lemma factory_inj:
  assumes "factory_ok f" and "(t, i) \<in> set (f_informers f)" "(t', i) \<in> set (f_informers f)"
  shows "t = t'"
proof -
  have "distinct (map snd (f_informers f))" using assms(1) by (simp add: factory_ok_def)
  then have "inj_on snd (set (f_informers f))" by (simp add: distinct_map)
  from inj_onD [OF this, of "(t, i)" "(t', i)"] assms(2,3) show ?thesis by simp
qed

lemma update_fresh: "k \<notin> fst ` set xs \<Longrightarrow> AList.update k v xs = xs @ [(k, v)]"
  by (induction xs) auto

lemma InformerFor_ok [inv_keep]:
  assumes ok: "factory_ok f" and new: "\<And>p. gi_runs (newFunc p) = 0"
  shows "factory_ok (snd (InformerFor f t newFunc))"
    and "map_of (f_informers (snd (InformerFor f t newFunc))) t = Some (fst (InformerFor f t newFunc))"
    and "started (snd (InformerFor f t newFunc)) = started f"
proof -
  have "factory_ok (snd (InformerFor f t newFunc))
      \<and> map_of (f_informers (snd (InformerFor f t newFunc))) t = Some (fst (InformerFor f t newFunc))
      \<and> started (snd (InformerFor f t newFunc)) = started f"
  proof (cases "map_of (f_informers f) t")
    case (Some i)
    then show ?thesis using ok by (simp add: InformerFor_def)
  next
    case None
    then have t: "t \<notin> fst ` set (f_informers f)" by (simp add: map_of_eq_None_iff)
    let ?f = "snd (InformerFor f t newFunc)"
    obtain p where f1: "f_informers ?f = f_informers f @ [(t, length (f_heap f))]"
      "f_heap ?f = f_heap f @ [newFunc p]" "startedInformers ?f = startedInformers f"
      using None update_fresh [OF t] by (auto simp: InformerFor_def Let_def)
    have st: "started ?f = started f" by (simp add: started_def f1(3) fun_eq_iff)
    have "\<not> started f t" using ok t by (auto simp: factory_ok_def)
    moreover have "gi_runs (f_heap ?f ! i) = (if started f t' then 1 else 0)" if "(t', i) \<in> set (f_informers f)" for t' i
      using factory_okD [OF ok that] by (simp add: f1(2) nth_append)
    ultimately have "factory_ok ?f"
      using ok t new by (auto simp: factory_ok_def f1(1) st list_all_iff) (auto simp: f1(2))
    moreover have "map_of (f_informers ?f) t = Some (fst (InformerFor f t newFunc))"
    proof -
      have "map_of (f_informers ?f) t = Some (length (f_heap f))" using None by (simp add: f1(1) map_add_def)
      moreover have "fst (InformerFor f t newFunc) = length (f_heap f)"
        using None by (simp add: InformerFor_def Let_def)
      ultimately show ?thesis by simp
    qed
    ultimately show ?thesis using st by simp
  qed
  then show "factory_ok (snd (InformerFor f t newFunc))"
    "map_of (f_informers (snd (InformerFor f t newFunc))) t = Some (fst (InformerFor f t newFunc))"
    "started (snd (InformerFor f t newFunc)) = started f" by blast+
qed

lemma start_informer_ok:
  assumes ok: "factory_ok f" and e: "e \<in> set (f_informers f)"
  shows "factory_ok (start_informer e f)" and "f_informers (start_informer e f) = f_informers f"
    and "started (start_informer e f) t \<longleftrightarrow> started f t \<or> t = fst e"
proof -
  obtain u i where u: "e = (u, i)" by (cases e)
  then have fu: "fst e = u" by simp
  note d = factory_okD [OF ok e [unfolded u]]
  show infs: "f_informers (start_informer e f) = f_informers f" by (simp add: start_informer_def u)
  show st: "started (start_informer e f) t \<longleftrightarrow> started f t \<or> t = fst e" for t
    by (auto simp: start_informer_def u started_def update_conv')
  show "factory_ok (start_informer e f)"
  proof (cases "started f u")
    case True
    then show ?thesis using ok by (simp add: start_informer_def u)
  next
    case False
    let ?f = "start_informer e f"
    have heap: "f_heap ?f = (f_heap f)[i := (f_heap f ! i)\<lparr>gi_runs := 1\<rparr>]"
      using False d(2) by (simp add: start_informer_def u)
    have "gi_runs (f_heap ?f ! j) = (if started ?f t then 1 else 0)" if t: "(t, j) \<in> set (f_informers f)" for t j
    proof (cases "t = u")
      case True
      then have "j = i" using factory_okD(3) [OF ok t] d(3) by simp
      then show ?thesis using d(1) True fu by (simp add: heap st)
    next
      case False
      then have "j \<noteq> i" using factory_inj [OF ok t] e u by blast
      then show ?thesis using factory_okD(2) [OF ok t] False fu by (simp add: heap st)
    qed
    moreover have "t \<in> fst ` set (f_informers f)" if "started ?f t" for t
      using that ok e by (auto simp: st factory_ok_def)
    ultimately show ?thesis
      using ok unfolding factory_ok_def infs by (auto simp: list_all_iff heap)
  qed
qed

lemma factory_Start_ok [inv_keep]:
  assumes "factory_ok f" and "set (ord (f_informers f)) = set (f_informers f)"
  shows "factory_ok (factory_Start ord f) \<and> f_informers (factory_Start ord f) = f_informers f
    \<and> (\<forall>t. started (factory_Start ord f) t \<longleftrightarrow> t \<in> fst ` set (f_informers f))"
proof -
  have "factory_ok (fold start_informer es f) \<and> f_informers (fold start_informer es f) = f_informers f
    \<and> (\<forall>t. started (fold start_informer es f) t \<longleftrightarrow> started f t \<or> t \<in> fst ` set es)"
    if "factory_ok f" "set es \<subseteq> set (f_informers f)" for es f
    using that
  proof (induction es arbitrary: f)
    case (Cons e es)
    have e: "e \<in> set (f_informers f)" using Cons.prems(2) by simp
    note s = start_informer_ok [OF Cons.prems(1) e]
    have "set es \<subseteq> set (f_informers (start_informer e f))" using Cons.prems(2) by (simp add: s(2))
    from Cons.IH [OF s(1) this] show ?case by (auto simp: s(2,3))
  qed simp
  from this [of f "ord (f_informers f)"] assms show ?thesis by (auto simp: factory_Start_def factory_ok_def)
qed

text \<open>Any calls of a client.\<close>

datatype 't factory_call =
    Call_InformerFor string "int \<Rightarrow> 't gen_informer"
  | Call_Start "(string \<times> nat) list \<Rightarrow> (string \<times> nat) list"

definition factory_call :: "'t factory_call \<Rightarrow> 't sharedInformerFactory \<Rightarrow> 't sharedInformerFactory" where
  "factory_call c f = (case c of
     Call_InformerFor t newFunc \<Rightarrow> snd (InformerFor f t newFunc)
   | Call_Start ord \<Rightarrow> factory_Start ord f)"

definition call_ok :: "'t factory_call \<Rightarrow> bool" where
  "call_ok c \<longleftrightarrow> (case c of
     Call_InformerFor t newFunc \<Rightarrow> (\<forall>p. gi_runs (newFunc p) = 0)
   | Call_Start ord \<Rightarrow> (\<forall>xs. set (ord xs) = set xs))"

lemma factory_call_ok: "factory_ok f \<Longrightarrow> call_ok c \<Longrightarrow> factory_ok (factory_call c f)"
proof (cases c)
  case (Call_Start ord)
  moreover assume "factory_ok f" "call_ok c"
  ultimately show ?thesis using factory_Start_ok [of f ord] by (simp add: factory_call_def call_ok_def)
qed (simp add: factory_call_def call_ok_def InformerFor_ok(1))

lemma factory_calls_ok:
  "factory_ok f \<Longrightarrow> list_all call_ok cs \<Longrightarrow> factory_ok (fold factory_call cs f)"
  by (induction cs arbitrary: f) (simp_all add: factory_call_ok)

lemma factory_ok_new: "factory_ok (NewFilteredSharedInformerFactory resync ns tweak)"
  by (simp add: NewFilteredSharedInformerFactory_def NewSharedInformerFactoryWithOptions_def
      WithNamespace_def WithTweakListOptions_def factory_ok_def started_def)

section \<open>The property\<close>

text \<open>Whatever sequence of requests for informers and of starts a client makes, the factory
  keeps one informer per type, which a later request for the type returns again, and
  starts each informer once: after a start every informer it has made has run exactly
  once, and waiting for the caches reports exactly the types started.\<close>

theorem factory_starts_once:
  assumes "list_all call_ok cs" and "call_ok (Call_Start ord)"
    and "f = fold factory_call cs (NewFilteredSharedInformerFactory resync ns tweak)"
    and "f' = factory_call (Call_Start ord) f"
  shows "distinct (map fst (f_informers f)) \<and> f_informers f' = f_informers f
    \<and> map snd (f_informers f) = [0..<length (f_heap f)]
    \<and> (\<forall>(t, i)\<in>set (f_informers f). gi_runs (f_heap f ! i) \<le> 1 \<and> gi_runs (f_heap f' ! i) = 1
         \<and> InformerFor f t newFunc = (i, f))
    \<and> map fst (factory_WaitForCacheSync wait f') = map fst (f_informers f)"
proof -
  have ok: "factory_ok f" using factory_calls_ok [OF factory_ok_new assms(1)] by (simp add: assms(3))
  have "set (ord (f_informers f)) = set (f_informers f)" using assms(2) by (simp add: call_ok_def)
  with factory_Start_ok [OF ok] have s: "factory_ok f'" "f_informers f' = f_informers f"
    "\<And>t. started f' t \<longleftrightarrow> t \<in> fst ` set (f_informers f)"
    by (simp_all add: assms(4) factory_call_def)
  have each: "gi_runs (f_heap f ! i) \<le> 1 \<and> gi_runs (f_heap f' ! i) = 1 \<and> InformerFor f t newFunc = (i, f)"
    if t: "(t, i) \<in> set (f_informers f)" for t i
  proof -
    have "started f' t" using t s(3) by force
    then show ?thesis
      using factory_okD [OF ok t] factory_okD(2) [OF s(1), of t i] t s(2) by (simp add: InformerFor_def)
  qed
  have "filter (\<lambda>(t, i). started f' t) (f_informers f') = f_informers f"
    unfolding s(2) filter_id_conv using s(3) by force
  then have "map fst (factory_WaitForCacheSync wait f') = map fst (f_informers f)"
    by (simp add: factory_WaitForCacheSync_def o_def case_prod_unfold)
  then show ?thesis using ok s(2) each by (auto simp: factory_ok_def)
qed

theorem factory_starts_once_witness:
  "\<exists>f f'. f = fold factory_call [Call_InformerFor F5IPAMType (\<lambda>p. \<lparr>gi_namespace = ''ns'', gi_resync = p, gi_tweak = None, gi_runs = 0\<rparr>),
       Call_Start rev] (NewFilteredSharedInformerFactory 5 ''ns'' (None :: unit option))
    \<and> f_informers f = [(F5IPAMType, 0)] \<and> f' = factory_call (Call_Start id) f
    \<and> gi_runs (f_heap f' ! 0) = 1 \<and> map fst (factory_WaitForCacheSync (\<lambda>_. True) f') = [F5IPAMType]"
proof -
  let ?new = "\<lambda>p. \<lparr>gi_namespace = ''ns'', gi_resync = p, gi_tweak = None, gi_runs = 0\<rparr> :: unit gen_informer"
  let ?cs = "[Call_InformerFor F5IPAMType ?new, Call_Start rev]"
  let ?f = "fold factory_call ?cs (NewFilteredSharedInformerFactory 5 ''ns'' (None :: unit option))"
  have ok: "list_all call_ok ?cs" "call_ok (Call_Start id)" by (simp_all add: call_ok_def)
  have "f_informers ?f = [(F5IPAMType, 0)]" by (simp add: factory_call_def InformerFor_def
      NewFilteredSharedInformerFactory_def NewSharedInformerFactoryWithOptions_def WithNamespace_def
      WithTweakListOptions_def factory_Start_def start_informer_def Let_def)
  with factory_starts_once [OF ok refl refl, of 5 "''ns''" None ?new "\<lambda>_. True"] show ?thesis
    by (intro exI [of _ ?f] exI [of _ "factory_call (Call_Start id) ?f"]) auto
qed

end
