(* ===== verification/Clientset.thy ===== *)
theory Clientset
  imports Restclient Factory
begin

text \<open>
  The generated clientset (\<open>pkg/ipamapis/client/clientset/versioned\<close> and
  \<open>pkg/ipamapis/apis/fic/v1/register.go\<close>): how the typed client is made from a configuration
  and the request each of its methods builds. A method is its request; \<open>req_call\<close> and
  \<open>req_Do\<close> say what \<open>Do\<close> sends and returns, \<open>req_Watch\<close> what \<open>Watch\<close> sends. The informers list and
  watch through this client. A nil client panics when a method uses it.
\<close>

section \<open>Registration\<close>

definition SchemeGroupVersion :: "string \<times> string" where
  "SchemeGroupVersion = (''fic.f5.com'', ''v1'')"

definition fic_Resource :: "string \<Rightarrow> string \<times> string" where
  "fic_Resource resource = (fst SchemeGroupVersion, resource)"

definition fic_addKnownTypes :: "scheme \<Rightarrow> scheme" where
  "fic_addKnownTypes sch = AddToGroupVersion SchemeGroupVersion
     (sch @ map (Pair SchemeGroupVersion) [''F5IPAM'', ''F5IPAMList''] @ [(SchemeGroupVersion, ''Status'')])"

definition clientset_Scheme :: scheme where
  "clientset_Scheme = fic_addKnownTypes (AddToGroupVersion ([], ''v1'') [])"

section \<open>Options\<close>

record ListOptions =
  lo_LabelSelector :: string
  lo_FieldSelector :: string
  lo_Watch :: bool
  lo_AllowWatchBookmarks :: bool
  lo_ResourceVersion :: string
  lo_TimeoutSeconds :: "64 word option"
  lo_Limit :: "64 word"
  lo_Continue :: string

record GetOptions =
  go_ResourceVersion :: string

text \<open>\<open>queryparams.Convert\<close>: empty values are left out, a set pointer never is.\<close>

definition text_param :: "string \<Rightarrow> string \<Rightarrow> (string \<times> string list) list" where
  "text_param k v = (if v = [] then [] else [(k, [v])])"

definition bool_param :: "string \<Rightarrow> bool \<Rightarrow> (string \<times> string list) list" where
  "bool_param k b = (if b then [(k, [''true''])] else [])"

definition list_params :: "ListOptions \<Rightarrow> (string \<times> string list) list" where
  "list_params opts =
     text_param ''labelSelector'' (lo_LabelSelector opts)
     @ text_param ''fieldSelector'' (lo_FieldSelector opts)
     @ bool_param ''watch'' (lo_Watch opts)
     @ bool_param ''allowWatchBookmarks'' (lo_AllowWatchBookmarks opts)
     @ text_param ''resourceVersion'' (lo_ResourceVersion opts)
     @ (case lo_TimeoutSeconds opts of None \<Rightarrow> [] | Some s \<Rightarrow> [(''timeoutSeconds'', [fmt_int (sint s)])])
     @ (if lo_Limit opts = 0 then [] else [(''limit'', [fmt_int (sint (lo_Limit opts))])])
     @ text_param ''continue'' (lo_Continue opts)"

definition get_params :: "GetOptions \<Rightarrow> (string \<times> string list) list" where
  "get_params opts = text_param ''resourceVersion'' (go_ResourceVersion opts)"

text \<open>\<open>time.Duration(*opts.TimeoutSeconds) * time.Second\<close> wraps around.\<close>

definition list_timeout :: "ListOptions \<Rightarrow> 64 word" where
  "list_timeout opts = (case lo_TimeoutSeconds opts of None \<Rightarrow> 0 | Some s \<Rightarrow> s * 1000000000)"

section \<open>The typed client\<close>

text \<open>Interfaces and pointers that may be nil are options.\<close>

record 'e K8sV1Client =
  restClient :: "'e RESTClient option"

record 'e f5IPAMs =
  ipams_client :: "'e RESTClient option"
  ipams_ns :: string

definition K8sV1Client_RESTClient :: "'e K8sV1Client option \<Rightarrow> 'e RESTClient option" where
  "K8sV1Client_RESTClient c = (case c of None \<Rightarrow> None | Some k \<Rightarrow> restClient k)"

definition newF5IPAMs :: "'e K8sV1Client option \<Rightarrow> string \<Rightarrow> 'e f5IPAMs" where
  "newF5IPAMs c namespace = \<lparr>ipams_client = K8sV1Client_RESTClient c, ipams_ns = namespace\<rparr>"

definition K8sV1Client_F5IPAMs :: "'e K8sV1Client option \<Rightarrow> string \<Rightarrow> 'e f5IPAMs" where
  "K8sV1Client_F5IPAMs c namespace = newF5IPAMs c namespace"

definition with_client :: "'e f5IPAMs \<Rightarrow> ('e RESTClient \<Rightarrow> 'e Request) \<Rightarrow> 'e Request go" where
  "with_client c f = (case ipams_client c of None \<Rightarrow> Inl NilDeref | Some rc \<Rightarrow> Inr (f rc))"

definition f5IPAMs_Get :: "'e f5IPAMs \<Rightarrow> string \<Rightarrow> GetOptions \<Rightarrow> 'e Request go" where
  "f5IPAMs_Get c name options = with_client c (\<lambda>rc.
     req_VersionedParams (get_params options)
       (req_Name name (req_Resource ''f5ipams'' (req_Namespace (ipams_ns c) (client_Verb rc ''GET'')))))"

definition f5IPAMs_List :: "'e f5IPAMs \<Rightarrow> ListOptions \<Rightarrow> 'e Request go" where
  "f5IPAMs_List c opts = with_client c (\<lambda>rc.
     req_Timeout (list_timeout opts) (req_VersionedParams (list_params opts)
       (req_Resource ''f5ipams'' (req_Namespace (ipams_ns c) (client_Verb rc ''GET'')))))"

definition f5IPAMs_Watch :: "'e f5IPAMs \<Rightarrow> ListOptions \<Rightarrow> 'e Request go" where
  "f5IPAMs_Watch c opts0 =
     (let timeout = list_timeout opts0; opts = opts0\<lparr>lo_Watch := True\<rparr>
      in with_client c (\<lambda>rc.
           req_Timeout timeout (req_VersionedParams (list_params opts)
             (req_Resource ''f5ipams'' (req_Namespace (ipams_ns c) (client_Verb rc ''GET''))))))"

definition f5IPAMs_Create :: "'e f5IPAMs \<Rightarrow> F5IPAM option \<Rightarrow> 'e Request go" where
  "f5IPAMs_Create c f5IPAM = with_client c (\<lambda>rc.
     req_Body (map_option Obj_F5IPAM f5IPAM)
       (req_Resource ''f5ipams'' (req_Namespace (ipams_ns c) (client_Verb rc ''POST''))))"

text \<open>The name of a nil object is asked for after the client was used.\<close>

definition f5IPAMs_Update :: "'e f5IPAMs \<Rightarrow> F5IPAM option \<Rightarrow> 'e Request go" where
  "f5IPAMs_Update c f5IPAM =
     (case f5IPAM of
        None \<Rightarrow> Inl NilDeref
      | Some r \<Rightarrow> with_client c (\<lambda>rc.
          req_Body (Some (Obj_F5IPAM r))
            (req_Name (Name r) (req_Resource ''f5ipams'' (req_Namespace (ipams_ns c) (client_Verb rc ''PUT''))))))"

definition f5IPAMs_UpdateStatus :: "'e f5IPAMs \<Rightarrow> F5IPAM option \<Rightarrow> 'e Request go" where
  "f5IPAMs_UpdateStatus c f5IPAM =
     (case f5IPAM of
        None \<Rightarrow> Inl NilDeref
      | Some r \<Rightarrow> with_client c (\<lambda>rc.
          req_Body (Some (Obj_F5IPAM r)) (req_SubResource [''status'']
            (req_Name (Name r) (req_Resource ''f5ipams'' (req_Namespace (ipams_ns c) (client_Verb rc ''PUT'')))))))"

definition f5IPAMs_Delete :: "'e f5IPAMs \<Rightarrow> string \<Rightarrow> DeleteOptions option \<Rightarrow> 'e Request go" where
  "f5IPAMs_Delete c name options = with_client c (\<lambda>rc.
     req_Body (map_option Obj_DeleteOptions options)
       (req_Name name (req_Resource ''f5ipams'' (req_Namespace (ipams_ns c) (client_Verb rc ''DELETE'')))))"

definition f5IPAMs_DeleteCollection :: "'e f5IPAMs \<Rightarrow> DeleteOptions option \<Rightarrow> ListOptions \<Rightarrow> 'e Request go" where
  "f5IPAMs_DeleteCollection c options listOptions = with_client c (\<lambda>rc.
     req_Body (map_option Obj_DeleteOptions options)
       (req_Timeout (list_timeout listOptions) (req_VersionedParams (list_params listOptions)
         (req_Resource ''f5ipams'' (req_Namespace (ipams_ns c) (client_Verb rc ''DELETE''))))))"

definition f5IPAMs_Patch :: "'e f5IPAMs \<Rightarrow> string \<Rightarrow> string \<Rightarrow> string \<Rightarrow> string list \<Rightarrow> 'e Request go" where
  "f5IPAMs_Patch c name pt data subresources = with_client c (\<lambda>rc.
     req_Body_bytes data (req_Name name (req_SubResource subresources
       (req_Resource ''f5ipams'' (req_Namespace (ipams_ns c) (client_Patch rc pt))))))"

text \<open>The interface \<open>F5IPAMInterface\<close>: one constructor per method.\<close>

datatype F5IPAMInterface =
    Op_Create "F5IPAM option"
  | Op_Update "F5IPAM option"
  | Op_UpdateStatus "F5IPAM option"
  | Op_Delete string "DeleteOptions option"
  | Op_DeleteCollection "DeleteOptions option" ListOptions
  | Op_Get string GetOptions
  | Op_List ListOptions
  | Op_Watch ListOptions
  | Op_Patch string string string "string list"

fun ipams_request :: "'e f5IPAMs \<Rightarrow> F5IPAMInterface \<Rightarrow> 'e Request go" where
  "ipams_request c (Op_Create r) = f5IPAMs_Create c r"
| "ipams_request c (Op_Update r) = f5IPAMs_Update c r"
| "ipams_request c (Op_UpdateStatus r) = f5IPAMs_UpdateStatus c r"
| "ipams_request c (Op_Delete name options) = f5IPAMs_Delete c name options"
| "ipams_request c (Op_DeleteCollection options opts) = f5IPAMs_DeleteCollection c options opts"
| "ipams_request c (Op_Get name options) = f5IPAMs_Get c name options"
| "ipams_request c (Op_List opts) = f5IPAMs_List c opts"
| "ipams_request c (Op_Watch opts) = f5IPAMs_Watch c opts"
| "ipams_request c (Op_Patch name pt data subs) = f5IPAMs_Patch c name pt data subs"

text \<open>What is sent: every method ends with \<open>Do\<close>, but \<open>Watch\<close>.\<close>

definition ipams_call :: "'e f5IPAMs \<Rightarrow> F5IPAMInterface \<Rightarrow> (rest_error + 'e http_call) go" where
  "ipams_call c m = go_bind (ipams_request c m) (\<lambda>r.
     Inr (case m of Op_Watch _ \<Rightarrow> req_Watch r | _ \<Rightarrow> req_call r))"

section \<open>Making the clients\<close>

definition setConfigDefaults :: "string \<Rightarrow> rest_config \<Rightarrow> rest_config" where
  "setConfigDefaults userAgent config =
     (let config1 = config\<lparr>rc_GroupVersion := Some SchemeGroupVersion, rc_APIPath := ''/apis'',
                           rc_Serializer := Some (WithoutConversion clientset_Scheme)\<rparr>
      in if rc_UserAgent config1 = [] then config1\<lparr>rc_UserAgent := userAgent\<rparr> else config1)"

definition K8sV1_NewForConfig :: "'e rest_lib \<Rightarrow> string \<Rightarrow> rest_config \<Rightarrow> rest_error + 'e K8sV1Client" where
  "K8sV1_NewForConfig lib userAgent c =
     (case RESTClientFor lib (setConfigDefaults userAgent c) of
        Inl e \<Rightarrow> Inl e
      | Inr client \<Rightarrow> Inr \<lparr>restClient = Some client\<rparr>)"

definition K8sV1_NewForConfigOrDie :: "'e rest_lib \<Rightarrow> string \<Rightarrow> rest_config \<Rightarrow> 'e K8sV1Client go" where
  "K8sV1_NewForConfigOrDie lib userAgent c =
     (case K8sV1_NewForConfig lib userAgent c of Inl e \<Rightarrow> Inl (UserPanic ''config'') | Inr client \<Rightarrow> Inr client)"

definition K8sV1_New :: "'e RESTClient option \<Rightarrow> 'e K8sV1Client" where
  "K8sV1_New c = \<lparr>restClient = c\<rparr>"

text \<open>The discovery client is a parameter: made from the configuration, or an error.\<close>

record ('e, 'd) clientset =
  DiscoveryClient :: "'d option"
  k8sV1 :: "'e K8sV1Client option"

definition clientset_K8sV1 :: "('e, 'd) clientset option \<Rightarrow> 'e K8sV1Client option go" where
  "clientset_K8sV1 c = (case c of None \<Rightarrow> Inl NilDeref | Some cs \<Rightarrow> Inr (k8sV1 cs))"

definition clientset_Discovery :: "('e, 'd) clientset option \<Rightarrow> 'd option" where
  "clientset_Discovery c = (case c of None \<Rightarrow> None | Some cs \<Rightarrow> DiscoveryClient cs)"

definition clientset_NewForConfig ::
    "'e rest_lib \<Rightarrow> (rest_config \<Rightarrow> 'd option) \<Rightarrow> string \<Rightarrow> rest_config \<Rightarrow> rest_error + ('e, 'd) clientset" where
  "clientset_NewForConfig lib disc userAgent c =
     (if rc_RateLimiter c = None \<and> rc_QPS c > 0 \<and> rc_Burst c \<le> 0 then Inl Burst_required
      else
        let copy = (if rc_RateLimiter c = None \<and> rc_QPS c > 0
                    then c\<lparr>rc_RateLimiter := Some (TokenBucket (rc_QPS c) (rc_Burst c))\<rparr> else c)
        in case K8sV1_NewForConfig lib userAgent copy of
             Inl e \<Rightarrow> Inl e
           | Inr k \<Rightarrow>
               (case disc copy of
                  None \<Rightarrow> Inl Bad_discovery
                | Some d \<Rightarrow> Inr \<lparr>DiscoveryClient = Some d, k8sV1 = Some k\<rparr>))"

definition clientset_NewForConfigOrDie ::
    "'e rest_lib \<Rightarrow> (rest_config \<Rightarrow> 'd option) \<Rightarrow> string \<Rightarrow> rest_config \<Rightarrow> ('e, 'd) clientset go" where
  "clientset_NewForConfigOrDie lib disc userAgent c =
     go_bind (K8sV1_NewForConfigOrDie lib userAgent c) (\<lambda>k.
       case disc c of
         None \<Rightarrow> Inl (UserPanic ''config'')
       | Some d \<Rightarrow> Inr \<lparr>DiscoveryClient = Some d, k8sV1 = Some k\<rparr>)"

definition clientset_New :: "('e RESTClient option \<Rightarrow> 'd) \<Rightarrow> 'e RESTClient option \<Rightarrow> ('e, 'd) clientset" where
  "clientset_New disc c = \<lparr>DiscoveryClient = Some (disc c), k8sV1 = Some (K8sV1_New c)\<rparr>"

section \<open>Listing and watching of an informer\<close>

definition tweaked :: "(ListOptions \<Rightarrow> ListOptions) option \<Rightarrow> ListOptions \<Rightarrow> ListOptions" where
  "tweaked tweak options = (case tweak of None \<Rightarrow> options | Some f \<Rightarrow> f options)"

definition informer_ListFunc :: "('e, 'd) clientset option \<Rightarrow> (ListOptions \<Rightarrow> ListOptions) gen_informer
    \<Rightarrow> ListOptions \<Rightarrow> (rest_error + 'e http_call) go" where
  "informer_ListFunc cs i options =
     go_bind (clientset_K8sV1 cs) (\<lambda>k.
       ipams_call (K8sV1Client_F5IPAMs k (gi_namespace i)) (Op_List (tweaked (gi_tweak i) options)))"

definition informer_WatchFunc :: "('e, 'd) clientset option \<Rightarrow> (ListOptions \<Rightarrow> ListOptions) gen_informer
    \<Rightarrow> ListOptions \<Rightarrow> (rest_error + 'e http_call) go" where
  "informer_WatchFunc cs i options =
     go_bind (clientset_K8sV1 cs) (\<lambda>k.
       ipams_call (K8sV1Client_F5IPAMs k (gi_namespace i)) (Op_Watch (tweaked (gi_tweak i) options)))"

end
