(* ===== verification/Machinery.thy ===== *)
theory Machinery
  imports StatusWriter Clientset
begin

text \<open>
  \<open>pkg/ipammachinery\<close>: the Kubernetes client of the orchestrator. \<open>IPAMClient\<close> keeps one
  informer per watched namespace and talks to the API server through a REST client of its
  own, written by hand beside the generated one. What the constructors of client-go return
  and what the API server answers are parameters (\<open>rest_server\<close> states the documented
  answers). The calls of \<open>client.go\<close> over such a server fulfil the contract \<open>kube_server\<close> the
  orchestrator's answer worker relies on.
\<close>

section \<open>REST calls\<close>

definition Create_request :: "'e RESTClient \<Rightarrow> string \<Rightarrow> F5IPAM \<Rightarrow> 'e Request" where
  "Create_request c namespace obj =
     req_Body (Some (Obj_F5IPAM obj)) (req_Resource ''f5ipams'' (req_Namespace namespace (client_Verb c ''POST'')))"

definition Update_request :: "'e RESTClient \<Rightarrow> string \<Rightarrow> F5IPAM \<Rightarrow> 'e Request" where
  "Update_request c namespace obj =
     req_Body (Some (Obj_F5IPAM obj)) (req_Name (Name obj)
       (req_Resource ''f5ipams'' (req_Namespace namespace (client_Verb c ''PUT''))))"

definition Delete_request :: "'e RESTClient \<Rightarrow> string \<Rightarrow> string \<Rightarrow> DeleteOptions option \<Rightarrow> 'e Request" where
  "Delete_request c namespace name options =
     req_Body (map_option Obj_DeleteOptions options) (req_Name name
       (req_Resource ''f5ipams'' (req_Namespace namespace (client_Verb c ''DELETE''))))"

definition Get_request :: "'e RESTClient \<Rightarrow> string \<Rightarrow> string \<Rightarrow> 'e Request" where
  "Get_request c namespace name =
     req_Name name (req_Resource ''f5ipams'' (req_Namespace namespace (client_Verb c ''GET'')))"

definition cli_Create :: "'e RESTClient \<Rightarrow> ('e, 'api) http_server \<Rightarrow> 'api \<Rightarrow> string \<Rightarrow> F5IPAM
    \<Rightarrow> (F5IPAM \<times> bool) \<times> 'api" where
  "cli_Create c do api namespace obj = req_Do do api (Create_request c namespace obj)"

definition cli_Update :: "'e RESTClient \<Rightarrow> ('e, 'api) http_server \<Rightarrow> 'api \<Rightarrow> string \<Rightarrow> F5IPAM
    \<Rightarrow> (F5IPAM \<times> bool) \<times> 'api" where
  "cli_Update c do api namespace obj = req_Do do api (Update_request c namespace obj)"

definition cli_Delete :: "'e RESTClient \<Rightarrow> ('e, 'api) http_server \<Rightarrow> 'api \<Rightarrow> string \<Rightarrow> string
    \<Rightarrow> DeleteOptions option \<Rightarrow> bool \<times> 'api" where
  "cli_Delete c do api namespace name options =
     (case req_Do do api (Delete_request c namespace name options) of ((_, err), api1) \<Rightarrow> (err, api1))"

definition cli_Get :: "'e RESTClient \<Rightarrow> ('e, 'api) http_server \<Rightarrow> 'api \<Rightarrow> string \<Rightarrow> string
    \<Rightarrow> (F5IPAM \<times> bool) \<times> 'api" where
  "cli_Get c do api namespace name = req_Do do api (Get_request c namespace name)"

definition client_api :: "'e RESTClient \<Rightarrow> ('e, 'api) http_server \<Rightarrow> 'api kube_api" where
  "client_api c do =
     \<lparr>api_Get = cli_Get c do,
      api_Update = (\<lambda>api ns r. case cli_Update c do api ns r of ((_, err), api1) \<Rightarrow> (err, api1))\<rparr>"

text \<open>The group, version and names of the resource.\<close>

definition F5ipam :: string where "F5ipam = ''F5IPAM''"
definition CRDPlural :: string where "CRDPlural = ''f5ipams''"
definition CRDGroup :: string where "CRDGroup = ''fic.f5.com''"
definition CRDVersion :: string where "CRDVersion = ''v1''"
definition FullCRDName :: string where "FullCRDName = CRDPlural @ ''.'' @ CRDGroup"

definition addKnownTypes :: "scheme \<Rightarrow> scheme" where
  "addKnownTypes sch = AddToGroupVersion (CRDGroup, CRDVersion)
     (sch @ [((CRDGroup, CRDVersion), ''F5IPAM''), ((CRDGroup, CRDVersion), ''F5IPAMList'')])"

text \<open>The configuration is copied, so the caller's is unchanged.\<close>

definition rest_client_config :: "rest_config \<Rightarrow> rest_config" where
  "rest_client_config cfg = cfg\<lparr>rc_GroupVersion := Some (CRDGroup, CRDVersion), rc_APIPath := ''/apis'',
     rc_ContentType := ''application/json'', rc_Serializer := Some (NewCodecFactory (addKnownTypes []))\<rparr>"

definition NewRESTClient :: "'e rest_lib \<Rightarrow> rest_config \<Rightarrow> rest_error + 'e RESTClient" where
  "NewRESTClient lib cfg = RESTClientFor lib (rest_client_config cfg)"

text \<open>\<open>RegisterCRD\<close>: creating a definition that exists is no error.\<close>

datatype crd_answer = CRD_created | CRD_exists | CRD_failed string

record crd_object =
  crd_name :: string
  crd_group :: string
  crd_version :: string
  crd_plural :: string
  crd_kind :: string
  crd_scope :: string

definition RegisterCRD :: "(crd_object \<Rightarrow> crd_answer) \<Rightarrow> string option" where
  "RegisterCRD create =
     (case create \<lparr>crd_name = FullCRDName, crd_group = CRDGroup, crd_version = CRDVersion,
                   crd_plural = CRDPlural, crd_kind = F5ipam, crd_scope = ''Namespaced''\<rparr> of
        CRD_created \<Rightarrow> None
      | CRD_exists \<Rightarrow> None
      | CRD_failed e \<Rightarrow> Some e)"

section \<open>Informers\<close>

text \<open>
  The shared informer of client-go: what it lists and watches (made by the generated
  package), the handlers added to it and whether it runs. \<open>inf_closed\<close> says whether \<open>stopCh\<close> is
  closed. No informer of the program selects by label.
\<close>

definition everything :: "ListOptions \<Rightarrow> ListOptions" where
  "everything options = options\<lparr>lo_LabelSelector := []\<rparr>"

record 'h shared_informer =
  si_source :: "(ListOptions \<Rightarrow> ListOptions) gen_informer"
  si_handlers :: "'h list"
  si_running :: bool

abbreviation si_namespace :: "'h shared_informer \<Rightarrow> string" where
  "si_namespace si \<equiv> gi_namespace (si_source si)"

record 'h IPAMInformer =
  inf_namespace :: string
  inf_closed :: bool
  ipamInformer :: "'h shared_informer option"

record 'h IPAMClient =
  namespaces :: "string list"                        \<comment> \<open>\<open>map[string]bool\<close>, its keys\<close>
  ipamInformers :: "(string \<times> 'h IPAMInformer) list"  \<comment> \<open>\<open>map[string]*IPAMInformer\<close>\<close>

definition watchingAllNamespaces :: "'h IPAMClient \<Rightarrow> bool" where
  "watchingAllNamespaces cli =
     (if length (ipamInformers cli) = 0 then False else map_of (ipamInformers cli) [] \<noteq> None)"

definition newNamespacedInformer :: "string \<Rightarrow> 'h IPAMInformer" where
  "newNamespacedInformer namespace =
     \<lparr>inf_namespace = namespace, inf_closed = False,
      ipamInformer = Some \<lparr>si_source = NewFilteredF5IPAMInformer namespace 0 (Some everything),
                          si_handlers = [], si_running = False\<rparr>\<rparr>"

definition addEventHandlers :: "'h IPAMInformer \<Rightarrow> 'h \<Rightarrow> 'h IPAMInformer" where
  "addEventHandlers ipamInf handlers =
     ipamInf\<lparr>ipamInformer := map_option (\<lambda>si. si\<lparr>si_handlers := si_handlers si @ [handlers]\<rparr>) (ipamInformer ipamInf)\<rparr>"

definition addNamespacedInformer ::
    "'h IPAMClient \<Rightarrow> string \<Rightarrow> 'h \<Rightarrow> string option \<times> 'h IPAMClient" where
  "addNamespacedInformer cli namespace handlers =
     (if watchingAllNamespaces cli
      then (Some ''Cannot add additional namespaces when already watching all.'', cli)
      else if length (ipamInformers cli) > 0 \<and> namespace = []
      then (Some ''Cannot watch all namespaces when already watching specific ones.'', cli)
      else if map_of (ipamInformers cli) namespace \<noteq> None then (None, cli)
      else (None, cli\<lparr>ipamInformers :=
        AList.update namespace (addEventHandlers (newNamespacedInformer namespace) handlers)
          (ipamInformers cli)\<rparr>))"

definition getNamespacedInformer :: "'h IPAMClient \<Rightarrow> string \<Rightarrow> 'h IPAMInformer option" where
  "getNamespacedInformer cli namespace =
     (let ns = (if watchingAllNamespaces cli then [] else namespace)
      in map_of (ipamInformers cli) ns)"

fun setup_informers :: "'h \<Rightarrow> string list \<Rightarrow> 'h IPAMClient \<Rightarrow> string option \<times> 'h IPAMClient" where
  "setup_informers handlers [] cli = (None, cli)"
| "setup_informers handlers (ns # nss) cli =
     (case addNamespacedInformer cli ns handlers of
        (Some err, cli1) \<Rightarrow> (Some err, cli1)
      | (None, cli1) \<Rightarrow> setup_informers handlers nss cli1)"

text \<open>\<open>ord\<close> is the order in which \<open>range\<close> visits the map of namespaces.\<close>

definition setupInformersWithEventHandlers ::
    "(string list \<Rightarrow> string list) \<Rightarrow> 'h \<Rightarrow> 'h IPAMClient \<Rightarrow> string option \<times> 'h IPAMClient" where
  "setupInformersWithEventHandlers ord handlers cli =
     setup_informers handlers (ord (namespaces cli)) cli"

text \<open>The three client constructors, each an error or none.\<close>

record client_setup =
  kube_client_err :: "string option"
  cr_client_err :: "string option"
  rest_client_err :: "string option"

definition setupClients :: "client_setup \<Rightarrow> string option" where
  "setupClients cs =
     (case kube_client_err cs of
        Some e \<Rightarrow> Some (''Failed to create kubeClient: '' @ e)
      | None \<Rightarrow>
          (case cr_client_err cs of
             Some e \<Rightarrow> Some (''Failed to create Custom Resource Client: '' @ e)
           | None \<Rightarrow>
               (case rest_client_err cs of
                  Some e \<Rightarrow> Some (''Failed to create Kubernets REST Client: '' @ e)
                | None \<Rightarrow> None)))"

text \<open>\<open>NewIPAMClient\<close>: nil when a client cannot be made; a failed informer is only logged.\<close>

definition NewIPAMClient ::
    "client_setup \<Rightarrow> (string list \<Rightarrow> string list) \<Rightarrow> 'h \<Rightarrow> string list \<Rightarrow> 'h IPAMClient option" where
  "NewIPAMClient cs ord handlers nss =
     (let cli = \<lparr>namespaces = remdups nss, ipamInformers = []\<rparr> in
      case setupClients cs of
        Some err \<Rightarrow> None
      | None \<Rightarrow> Some (snd (setupInformersWithEventHandlers ord handlers cli)))"

text \<open>
  \<open>start\<close>: run the informer and wait until its cache is synced or its channel closed;
  \<open>synced\<close> says whether that ever happens for a namespace. \<open>stop\<close> closes the channel.
\<close>

definition inf_start :: "(string \<Rightarrow> bool) \<Rightarrow> 'h IPAMInformer \<Rightarrow> 'h IPAMInformer go" where
  "inf_start synced ipamInf =
     (case ipamInformer ipamInf of
        None \<Rightarrow> Inr ipamInf
      | Some si \<Rightarrow>
          if synced (si_namespace si) \<or> inf_closed ipamInf
          then Inr (ipamInf\<lparr>ipamInformer := Some (si\<lparr>si_running := \<not> inf_closed ipamInf\<rparr>)\<rparr>)
          else Inl Diverges)"

definition inf_stop :: "'h IPAMInformer \<Rightarrow> 'h IPAMInformer go" where
  "inf_stop ipamInf =
     (if inf_closed ipamInf then Inl CloseOfClosedChannel
      else Inr (ipamInf\<lparr>inf_closed := True,
        ipamInformer := map_option (\<lambda>si. si\<lparr>si_running := False\<rparr>) (ipamInformer ipamInf)\<rparr>))"

fun each_informer :: "('h IPAMInformer \<Rightarrow> 'h IPAMInformer go) \<Rightarrow> (string \<times> 'h IPAMInformer) list
    \<Rightarrow> (string \<times> 'h IPAMInformer) list go" where
  "each_informer f [] = Inr []"
| "each_informer f ((ns, ipamInf) # infs) =
     go_bind (f ipamInf) (\<lambda>inf1. go_bind (each_informer f infs) (\<lambda>infs1. Inr ((ns, inf1) # infs1)))"

definition cli_Start :: "(string \<Rightarrow> bool) \<Rightarrow> 'h IPAMClient \<Rightarrow> 'h IPAMClient go" where
  "cli_Start synced cli =
     go_bind (each_informer (inf_start synced) (ipamInformers cli)) (\<lambda>infs. Inr (cli\<lparr>ipamInformers := infs\<rparr>))"

definition cli_Stop :: "'h IPAMClient \<Rightarrow> 'h IPAMClient go" where
  "cli_Stop cli =
     go_bind (each_informer inf_stop (ipamInformers cli)) (\<lambda>infs. Inr (cli\<lparr>ipamInformers := infs\<rparr>))"

end
