(* ===== verification/Clienturls.thy ===== *)
theory Clienturls
  imports Clientset
begin

text \<open>
  Where the requests of the typed client go: the path of a request is the client's prefix,
  the collection of the namespace, and the name and subresources of the method, all
  unchanged; a name that could be read as another path is refused before anything is sent.
\<close>

section \<open>The prefix of a client\<close>

definition client_prefix :: "'e RESTClient \<Rightarrow> string" where
  "client_prefix c = path_Join [path_Join [[slash], rcl_base c], rcl_versionedAPIPath c]"

definition client_segs :: "'e RESTClient \<Rightarrow> string list" where
  "client_segs c = rooted_segs (tl (client_prefix c))"

lemma path_Join_rooted: "\<exists>ss. list_all plain_seg ss \<and> path_Join ((slash # p) # ts) = abs_path ss"
proof -
  have "\<exists>q. str_join [slash] ((slash # p) # filter (\<lambda>t. t \<noteq> []) ts) = slash # q"
    by (cases "filter (\<lambda>t. t \<noteq> []) ts") simp_all
  then obtain q where "str_join [slash] ((slash # p) # filter (\<lambda>t. t \<noteq> []) ts) = slash # q" by blast
  then have "path_Join ((slash # p) # ts) = abs_path (rooted_segs q)"
    by (simp add: path_Join_def path_Clean_rooted)
  with rooted_segs_plain show ?thesis by blast
qed

lemma client_prefix_segs: "client_prefix c = abs_path (client_segs c)" "list_all plain_seg (client_segs c)"
proof -
  obtain p where p: "path_Join [[slash], rcl_base c] = slash # p"
    using path_Join_rooted [of "[]" "[rcl_base c]"] by (auto simp: abs_path_def)
  obtain ss where ss: "list_all plain_seg ss" "client_prefix c = abs_path ss"
    using path_Join_rooted [of p "[rcl_versionedAPIPath c]"] unfolding client_prefix_def p by auto
  have "client_segs c = ss" using rooted_segs_join [OF ss(1)] by (simp add: client_segs_def ss(2) abs_path_def)
  with ss show "client_prefix c = abs_path (client_segs c)" "list_all plain_seg (client_segs c)" by simp_all
qed

text \<open>The default base path and the group of the program.\<close>

lemma default_segs:
  "rcl_base c = [slash] \<Longrightarrow> rcl_versionedAPIPath c = DefaultVersionedAPIPath ''/apis'' (g, v) \<Longrightarrow>
     plain_seg g \<Longrightarrow> plain_seg v \<Longrightarrow> client_segs c = [''apis'', g, v]"
proof -
  assume c: "rcl_base c = [slash]" "rcl_versionedAPIPath c = DefaultVersionedAPIPath ''/apis'' (g, v)"
    and gv: "plain_seg g" "plain_seg v"
  have apis: "path_Join [[slash], ''/apis''] = abs_path [''apis'']" by code_simp
  have "path_Join (abs_path [''apis''] # map (str_join [slash]) [[g], [v]]) = abs_path ([''apis''] @ concat [[g], [v]])"
    using gv by (intro path_Join_abs) (simp_all add: plain_seg_def slash_def)
  then have v: "rcl_versionedAPIPath c = abs_path [''apis'', g, v]"
    using gv by (simp add: c(2) DefaultVersionedAPIPath_def Let_def apis plain_seg_def)
  have "path_Join [[slash], [slash]] = [slash]" by code_simp
  then have "client_prefix c = abs_path (rooted_segs (str_join [slash] [abs_path [''apis'', g, v]]))"
    using path_Join_root [of "[abs_path [''apis'', g, v]]"] by (simp add: client_prefix_def c(1) v abs_path_def)
  moreover have "rooted_segs (abs_path [''apis'', g, v]) = [''apis'', g, v]"
  proof -
    have "list_all plain_seg [''apis'', g, v]" using gv by (simp add: plain_seg_def slash_def)
    moreover have "rooted_segs (slash # p) = rooted_segs p" for p
      by (simp add: rooted_segs_def clean_step_empty)
    ultimately show ?thesis using rooted_segs_join [of "[''apis'', g, v]"] by (simp add: abs_path_def)
  qed
  ultimately have "abs_path (client_segs c) = abs_path [''apis'', g, v]" using client_prefix_segs(1) [of c] by simp
  then show ?thesis
    using abs_path_inject [OF client_prefix_segs(2) [of c], of "[''apis'', g, v]"] gv by (simp add: plain_seg_def slash_def)
qed

section \<open>Building a request\<close>

lemma client_Verb_simps [simp]:
  "rr_client (client_Verb c v) = c" "rr_verb (client_Verb c v) = v" "rr_pathPrefix (client_Verb c v) = client_prefix c"
  "rr_params (client_Verb c v) = []" "rr_namespace (client_Verb c v) = []" "\<not> rr_namespaceSet (client_Verb c v)"
  "rr_resource (client_Verb c v) = []" "rr_resourceName (client_Verb c v) = []"
  "rr_subresource (client_Verb c v) = []" "rr_timeout (client_Verb c v) = rcl_timeout c"
  "rr_err (client_Verb c v) = None" "rr_body (client_Verb c v) = None"
  by (simp_all add: client_Verb_def client_prefix_def req_SetHeader_def Let_def)

lemma SetHeader_simps [simp]:
  "rr_client (req_SetHeader k vs r) = rr_client r" "rr_verb (req_SetHeader k vs r) = rr_verb r"
  "rr_pathPrefix (req_SetHeader k vs r) = rr_pathPrefix r" "rr_params (req_SetHeader k vs r) = rr_params r"
  "rr_namespace (req_SetHeader k vs r) = rr_namespace r" "rr_namespaceSet (req_SetHeader k vs r) = rr_namespaceSet r"
  "rr_resource (req_SetHeader k vs r) = rr_resource r" "rr_resourceName (req_SetHeader k vs r) = rr_resourceName r"
  "rr_subresource (req_SetHeader k vs r) = rr_subresource r" "rr_timeout (req_SetHeader k vs r) = rr_timeout r"
  "rr_err (req_SetHeader k vs r) = rr_err r" "rr_body (req_SetHeader k vs r) = rr_body r"
  by (simp_all add: req_SetHeader_def)

lemma valid_plain: "IsValidPathSegmentName s \<Longrightarrow> s \<noteq> [] \<Longrightarrow> plain_seg s"
  by (simp add: IsValidPathSegmentName_def plain_seg_def)

lemma f5ipams_valid: "IsValidPathSegmentName ''f5ipams''" "IsValidPathSegmentName ''status''" "to_lower ''f5ipams'' = ''f5ipams''"
  by code_simp+

definition collection_segs :: "string \<Rightarrow> string list" where
  "collection_segs ns = (if ns = [] then [] else [''namespaces'', ns]) @ [''f5ipams'']"

text \<open>
  What is known of a request while it is built: no error, its client, verb and prefix, and
  which namespace, name (\<open>[]\<close>: none yet), subresources and parameters it has accepted.
\<close>

definition built :: "'e RESTClient \<Rightarrow> string \<Rightarrow> string \<Rightarrow> string \<Rightarrow> string list
    \<Rightarrow> (string \<times> string list) list \<Rightarrow> 'e Request \<Rightarrow> bool" where
  "built c v ns nm subs qs r \<longleftrightarrow> rr_params r = qs \<and> rr_client r = c \<and> rr_verb r = v \<and> rr_pathPrefix r = client_prefix c
     \<and> rr_namespaceSet r \<and> rr_namespace r = ns \<and> rr_resource r = ''f5ipams'' \<and> rr_err r = None
     \<and> rr_resourceName r = nm \<and> rr_subresource r = str_join [slash] subs
     \<and> (ns = [] \<or> plain_seg ns) \<and> (nm = [] \<or> plain_seg nm) \<and> list_all plain_seg subs"

definition item_segs :: "string \<Rightarrow> string list \<Rightarrow> string list" where
  "item_segs nm subs = (if nm = [] then [] else [nm]) @ subs"

lemma built_path: 
  assumes b: "built c v ns nm subs qs r"
  shows "req_path r = abs_path (client_segs c @ collection_segs ns @ item_segs nm subs)"
proof -
  have plain: "plain_seg ''namespaces''" "plain_seg ''f5ipams''" by code_simp+
  let ?p2 = "if ns = [] then client_segs c else client_segs c @ [''namespaces'', ns]"
  let ?p3 = "client_segs c @ collection_segs ns"
  have p2: "list_all plain_seg ?p2" using b client_prefix_segs(2) [of c] plain by (auto simp: built_def)
  have 1: "(if rr_namespaceSet r \<and> rr_namespace r \<noteq> []
         then path_Join [rr_pathPrefix r, ''namespaces'', rr_namespace r] else rr_pathPrefix r) = abs_path ?p2"
    using path_Join_abs [OF client_prefix_segs(2) [of c], of "[[''namespaces''], [ns]]"] b plain
    by (auto simp: built_def client_prefix_segs(1))
  have p3: "?p2 @ [''f5ipams''] = ?p3" "list_all plain_seg ?p3"
    using p2 plain by (auto simp: collection_segs_def split: if_splits)
  have 2: "path_Join [abs_path ?p2, ''f5ipams''] = abs_path ?p3"
    using path_Join_abs [OF p2, of "[[''f5ipams'']]"] plain p3(1) by simp
  have "list_all (list_all plain_seg) [if nm = [] then [] else [nm], subs]" using b by (auto simp: built_def)
  from path_Join_abs [OF p3(2) this]
  have 3: "path_Join [abs_path ?p3, nm, str_join [slash] subs] = abs_path (?p3 @ item_segs nm subs)"
    by (cases "nm = []") (simp_all add: item_segs_def)
  have "req_path r = (if nm \<noteq> [] \<or> str_join [slash] subs \<noteq> []
      then path_Join [abs_path ?p3, nm, str_join [slash] subs] else abs_path ?p3)"
    using b unfolding req_path_def Let_def 1 by (simp add: built_def f5ipams_valid(3) 2)
  also have "\<dots> = abs_path (?p3 @ item_segs nm subs)"
    using 3 b join_plain_empty [of subs "[slash]"] by (auto simp: item_segs_def built_def)
  finally show ?thesis by simp
qed

text \<open>One lemma per call: accepted arguments, and refused ones.\<close>

definition fresh_request :: "'e RESTClient \<Rightarrow> string \<Rightarrow> 'e Request \<Rightarrow> bool" where
  "fresh_request c v r \<longleftrightarrow> rr_client r = c \<and> rr_verb r = v \<and> rr_pathPrefix r = client_prefix c \<and> rr_params r = []
     \<and> \<not> rr_namespaceSet r \<and> rr_resource r = [] \<and> rr_resourceName r = [] \<and> rr_subresource r = [] \<and> rr_err r = None"

lemma fresh_requests: "fresh_request c v (client_Verb c v)" "fresh_request c ''PATCH'' (client_Patch c pt)"
  by (simp_all add: fresh_request_def client_Patch_def)

named_theorems build_steps \<open>how a call of the builder changes a request\<close>

lemma built_start [build_steps]:
  assumes "fresh_request c v r" and "IsValidPathSegmentName ns"
  shows "built c v ns [] [] [] (req_Resource ''f5ipams'' (req_Namespace ns r))"
  using assms f5ipams_valid(1) valid_plain [OF assms(2)]
  by (auto simp: fresh_request_def built_def req_Resource_def req_Namespace_def unless_err_def)

lemma built_Name [build_steps]:
  assumes "built c v ns [] subs qs r" and "nm \<noteq> []" and "IsValidPathSegmentName nm"
  shows "built c v ns nm subs qs (req_Name nm r)"
  using assms valid_plain [OF assms(3,2)] by (simp add: built_def req_Name_def unless_err_def)

lemma built_SubResource [build_steps]:
  assumes "built c v ns nm [] qs r" and "list_all IsValidPathSegmentName ss" and "subs = filter (\<lambda>s. s \<noteq> []) ss"
  shows "built c v ns nm subs qs (req_SubResource ss r)"
proof -
  have "find (\<lambda>s. \<not> IsValidPathSegmentName s) ss = None" using assms(2) by (simp add: find_None_iff list_all_iff)
  moreover have "path_Join ss = str_join [slash] subs"
    unfolding assms(3) using assms(2) valid_plain by (intro path_Join_plain) (auto simp: list_all_iff)
  moreover have "list_all plain_seg subs" using assms(2,3) valid_plain by (auto simp: list_all_iff)
  ultimately show ?thesis using assms(1) by (simp add: built_def req_SubResource_def unless_err_def)
qed

lemma built_Params [build_steps]:
  assumes "built c v ns nm subs [] r" and "distinct (map fst ps)"
  shows "built c v ns nm subs ps (req_VersionedParams ps r)"
proof -
  have "fold (\<lambda>(k, v) ps. AList.update k ((case map_of ps k of None \<Rightarrow> [] | Some old \<Rightarrow> old) @ v) ps) ps qs = qs @ ps"
    if "distinct (map fst (qs @ ps))" for qs
    using that
  proof (induction ps arbitrary: qs)
    case (Cons p ps)
    obtain k w where p: "p = (k, w)" by (cases p)
    have k: "k \<notin> fst ` set qs" using Cons.prems by (auto simp: p)
    then have "map_of qs k = None" by (simp add: map_of_eq_None_iff)
    with update_fresh [OF k, of w] Cons.IH [of "qs @ [p]"] Cons.prems show ?case by (simp add: p)
  qed simp
  from this [of "[]"] assms show ?thesis by (simp add: built_def req_VersionedParams_def unless_err_def)
qed

lemma built_Timeout [build_steps]:
  "built c v ns nm subs qs r \<Longrightarrow> built c v ns nm subs qs (req_Timeout d r)"
  by (simp add: built_def req_Timeout_def unless_err_def)

definition encodes :: "'e RESTClient \<Rightarrow> rest_object option \<Rightarrow> bool" where
  "encodes c ob \<longleftrightarrow> (case ob of None \<Rightarrow> True | Some x \<Rightarrow> rcl_encode c x \<noteq> None)"

lemma built_Body [build_steps]:
  "built c v ns nm subs qs r \<Longrightarrow> encodes c ob \<Longrightarrow> built c v ns nm subs qs (req_Body ob r)"
  by (auto simp: built_def req_Body_def unless_err_def encodes_def split: option.splits)

lemma built_Body_bytes [build_steps]:
  "built c v ns nm subs qs r \<Longrightarrow> built c v ns nm subs qs (req_Body_bytes d r)"
  by (simp add: built_def req_Body_bytes_def unless_err_def)

text \<open>A request that has failed stays failed.\<close>

definition failed :: "'e Request \<Rightarrow> bool" where
  "failed r \<longleftrightarrow> rr_err r \<noteq> None"

lemma failed_stays:
  "failed r \<Longrightarrow> failed (req_Resource s r)" "failed r \<Longrightarrow> failed (req_Name s r)"
  "failed r \<Longrightarrow> failed (req_Namespace s r)" "failed r \<Longrightarrow> failed (req_SubResource ss r)"
  "failed r \<Longrightarrow> failed (req_VersionedParams ps r)" "failed r \<Longrightarrow> failed (req_Timeout d r)"
  "failed r \<Longrightarrow> failed (req_Body ob r)" "failed r \<Longrightarrow> failed (req_Body_bytes dat r)"
  by (simp_all add: failed_def req_Resource_def req_Name_def req_Namespace_def req_SubResource_def
      req_VersionedParams_def req_Timeout_def req_Body_def req_Body_bytes_def unless_err_def)

lemma client_stays [simp]:
  "rr_client (req_Resource s r) = rr_client r" "rr_client (req_Name s r) = rr_client r"
  "rr_client (req_Namespace s r) = rr_client r" "rr_client (req_SubResource ss r) = rr_client r"
  "rr_client (req_VersionedParams ps r) = rr_client r" "rr_client (req_Timeout d r) = rr_client r"
  by (auto simp: req_Resource_def req_Name_def req_Namespace_def req_SubResource_def req_VersionedParams_def
      req_Timeout_def unless_err_def split: option.splits)

lemma refused:
  "\<not> IsValidPathSegmentName ns \<Longrightarrow> failed (req_Namespace ns r)"
  "nm = [] \<or> \<not> IsValidPathSegmentName nm \<Longrightarrow> failed (req_Name nm r)"
  "\<not> list_all IsValidPathSegmentName ss \<Longrightarrow> failed (req_SubResource ss r)"
  "\<not> encodes (rr_client r) ob \<Longrightarrow> failed (req_Body ob r)"
proof -
  show "failed (req_SubResource ss r)" if "\<not> list_all IsValidPathSegmentName ss"
    using that by (cases "find (\<lambda>s. \<not> IsValidPathSegmentName s) ss")
      (auto simp: find_None_iff list_all_iff failed_def req_SubResource_def unless_err_def)
qed (auto simp: failed_def req_Namespace_def req_Name_def req_Body_def encodes_def
    unless_err_def split: option.splits)

section \<open>What the methods send\<close>

text \<open>
  The specification: the verb of a method, the name and subresources it addresses (those of
  a collection are empty), the query, the body, and whether its arguments are accepted.
\<close>

fun op_verb :: "F5IPAMInterface \<Rightarrow> string" where
  "op_verb (Op_Create _) = ''POST''"
| "op_verb (Op_Update _) = ''PUT''"
| "op_verb (Op_UpdateStatus _) = ''PUT''"
| "op_verb (Op_Delete _ _) = ''DELETE''"
| "op_verb (Op_DeleteCollection _ _) = ''DELETE''"
| "op_verb (Op_Patch _ _ _ _) = ''PATCH''"
| "op_verb _ = ''GET''"

fun op_name :: "F5IPAMInterface \<Rightarrow> string option" where
  "op_name (Op_Update r) = map_option Name r"
| "op_name (Op_UpdateStatus r) = map_option Name r"
| "op_name (Op_Delete nm _) = Some nm"
| "op_name (Op_Get nm _) = Some nm"
| "op_name (Op_Patch nm _ _ _) = Some nm"
| "op_name _ = None"

fun op_subs :: "F5IPAMInterface \<Rightarrow> string list" where
  "op_subs (Op_UpdateStatus _) = [''status'']"
| "op_subs (Op_Patch _ _ _ subs) = subs"
| "op_subs _ = []"

fun op_query :: "F5IPAMInterface \<Rightarrow> (string \<times> string list) list" where
  "op_query (Op_Get _ options) = get_params options"
| "op_query (Op_List opts) = list_params opts"
| "op_query (Op_Watch opts) = list_params (opts\<lparr>lo_Watch := True\<rparr>)"
| "op_query (Op_DeleteCollection _ opts) = list_params opts"
| "op_query _ = []"

fun op_object :: "F5IPAMInterface \<Rightarrow> rest_object option" where
  "op_object (Op_Create r) = map_option Obj_F5IPAM r"
| "op_object (Op_Update r) = map_option Obj_F5IPAM r"
| "op_object (Op_UpdateStatus r) = map_option Obj_F5IPAM r"
| "op_object (Op_Delete _ options) = map_option Obj_DeleteOptions options"
| "op_object (Op_DeleteCollection options _) = map_option Obj_DeleteOptions options"
| "op_object _ = None"

fun nil_object :: "F5IPAMInterface \<Rightarrow> bool" where
  "nil_object (Op_Update r) \<longleftrightarrow> r = None"
| "nil_object (Op_UpdateStatus r) \<longleftrightarrow> r = None"
| "nil_object _ \<longleftrightarrow> False"

definition args_ok :: "'e RESTClient \<Rightarrow> string \<Rightarrow> F5IPAMInterface \<Rightarrow> bool" where
  "args_ok c ns m \<longleftrightarrow> IsValidPathSegmentName ns
     \<and> (case op_name m of None \<Rightarrow> True | Some nm \<Rightarrow> nm \<noteq> [] \<and> IsValidPathSegmentName nm)
     \<and> list_all IsValidPathSegmentName (op_subs m) \<and> encodes c (op_object m)"

definition op_segs :: "F5IPAMInterface \<Rightarrow> string list" where
  "op_segs m = item_segs (case op_name m of None \<Rightarrow> [] | Some nm \<Rightarrow> nm) (filter (\<lambda>s. s \<noteq> []) (op_subs m))"

text \<open>The parameters of the options have different names.\<close>

definition only_key :: "string \<Rightarrow> (string \<times> string list) list \<Rightarrow> bool" where
  "only_key k ps \<longleftrightarrow> ps = [] \<or> (\<exists>v. ps = [(k, v)])"

lemma only_key_param:
  "only_key k (text_param k v)" "only_key k (bool_param k b)"
  "only_key k (case t of None \<Rightarrow> [] | Some s \<Rightarrow> [(k, f s)])" "only_key k (if b then [] else [(k, w)])"
  by (auto simp: only_key_def text_param_def bool_param_def split: option.splits)

lemma only_key_append:
  "only_key k ps \<Longrightarrow> distinct (map fst qs) \<Longrightarrow> k \<notin> fst ` set qs \<Longrightarrow> distinct (map fst (ps @ qs))"
  "only_key k' ps \<Longrightarrow> k \<noteq> k' \<Longrightarrow> k \<notin> fst ` set qs \<Longrightarrow> k \<notin> fst ` set (ps @ qs)"
  "only_key k ps \<Longrightarrow> distinct (map fst ps)" "only_key k' ps \<Longrightarrow> k \<noteq> k' \<Longrightarrow> k \<notin> fst ` set ps"
  by (auto simp: only_key_def rev_image_eqI)

lemma list_params_distinct: "distinct (map fst (list_params opts))" "distinct (map fst (get_params gopts))"
  unfolding list_params_def get_params_def
  by ((rule only_key_append only_key_param | simp only: list.inject char.inject, simp)+)

lemmas method_defs = f5IPAMs_Create_def f5IPAMs_Update_def f5IPAMs_UpdateStatus_def f5IPAMs_Delete_def
  f5IPAMs_DeleteCollection_def f5IPAMs_Get_def f5IPAMs_List_def f5IPAMs_Watch_def f5IPAMs_Patch_def with_client_def

lemma methods_build:
  assumes "ipams_client c = Some rc" and "args_ok rc (ipams_ns c) m" and "\<not> nil_object m"
  shows "\<exists>r. ipams_request c m = Inr r
    \<and> built rc (op_verb m) (ipams_ns c) (case op_name m of None \<Rightarrow> [] | Some nm \<Rightarrow> nm)
        (filter (\<lambda>s. s \<noteq> []) (op_subs m)) (op_query m) r"
proof -
  have ns: "IsValidPathSegmentName (ipams_ns c)" and ob: "encodes rc (op_object m)"
    and subs: "list_all IsValidPathSegmentName (op_subs m)"
    and nm: "\<And>nm. op_name m = Some nm \<Longrightarrow> nm \<noteq> [] \<and> IsValidPathSegmentName nm"
    using assms(2) by (auto simp: args_ok_def)
  note start = built_start [OF fresh_requests(1) ns] built_start [OF fresh_requests(2) ns]
  show ?thesis
    using assms(1,3) ob subs nm
    by (cases m) (auto simp: method_defs intro!: build_steps list_params_distinct fresh_requests ns)
qed

text \<open>Refused arguments: the request has failed, or a nil pointer was used.\<close>

lemma methods_refuse:
  assumes "ipams_client c = Some rc" and "\<not> args_ok rc (ipams_ns c) m" and "\<not> nil_object m"
  shows "\<exists>r. ipams_request c m = Inr r \<and> failed r"
proof (cases "IsValidPathSegmentName (ipams_ns c)")
  case False
  note f = failed_stays refused(1) [OF False]
  show ?thesis using assms(1,3) by (cases m) (auto simp: method_defs intro!: f)
next
  case ns: True
  show ?thesis
  proof (cases "case op_name m of None \<Rightarrow> True | Some nm \<Rightarrow> nm \<noteq> [] \<and> IsValidPathSegmentName nm")
    case False
    then obtain nm where nm: "op_name m = Some nm" "nm = [] \<or> \<not> IsValidPathSegmentName nm"
      by (auto split: option.splits)
    have "failed (req_Name n r)" if "op_name m = Some n" for n and r :: "'a Request"
      using refused(2) [OF nm(2), of r] nm(1) that by simp
    then show ?thesis using assms(1,3) nm(1) by (cases m) (auto simp: method_defs intro!: failed_stays(4-))
  next
    case nm: True
    show ?thesis
    proof (cases "list_all IsValidPathSegmentName (op_subs m)")
      case False
      then show ?thesis using assms(1) by (cases m) (auto simp: method_defs f5ipams_valid intro: failed_stays refused(3))
    next
      case True
      then have "\<not> encodes rc (op_object m)" using assms(2) ns nm by (simp add: args_ok_def)
      then show ?thesis using assms(1,3)
        by (cases m) (auto simp: method_defs encodes_def [of rc None] intro!: refused(4))
    qed
  qed
qed

text \<open>
  A request that names an object needs a namespace, as does a creation; for a patch this is
  not checked.
\<close>

definition namespace_missing :: "string \<Rightarrow> F5IPAMInterface \<Rightarrow> bool" where
  "namespace_missing ns m \<longleftrightarrow> ns = [] \<and> (op_verb m = ''POST'' \<or> op_name m \<noteq> None \<and> op_verb m \<noteq> ''PATCH'')"

lemma call_built:
  assumes "built rc (op_verb m) ns (case op_name m of None \<Rightarrow> [] | Some nm \<Rightarrow> nm) subs qs r"
    and "args_ok rc ns m" and "\<not> nil_object m"
  shows "(case m of Op_Watch _ \<Rightarrow> req_Watch r | _ \<Rightarrow> req_call r) =
     (if namespace_missing ns m
      then Inl (if op_verb m = ''POST'' then Empty_namespace_on_create else Empty_namespace_with_name)
      else Inr (req_http r))"
  using assms
  by (cases m) (auto simp: built_def req_call_def req_Watch_def namespace_missing_def args_ok_def split: option.splits)

text \<open>A client that sends objects as they are.\<close>

definition ref_client :: "rest_object RESTClient" where
  "ref_client = \<lparr>rcl_base = [slash], rcl_versionedAPIPath = DefaultVersionedAPIPath ''/apis'' SchemeGroupVersion,
     rcl_ContentType = ''application/json'', rcl_AcceptContentTypes = [], rcl_encode = Some,
     rcl_Throttle = None, rcl_timeout = 0, rcl_UserAgent = []\<rparr>"

lemma ref_client_segs: "client_segs ref_client = [''apis'', ''fic.f5.com'', ''v1'']"
proof (rule default_segs)
  show "plain_seg ''fic.f5.com''" "plain_seg ''v1''" by code_simp+
qed (simp_all add: ref_client_def SchemeGroupVersion_def)

lemma ref_encode: "rcl_encode ref_client = Some"
  by (simp add: ref_client_def)

section \<open>The properties\<close>

lemma collection_inject:
  "collection_segs ns @ segs = collection_segs ns' @ segs' \<longleftrightarrow> ns = ns' \<and> segs = segs'"
  by (auto simp: collection_segs_def)

lemma op_segs_plain:
  assumes "args_ok rc ns m" shows "list_all plain_seg (collection_segs ns @ op_segs m)"
proof -
  have "plain_seg ''namespaces''" "plain_seg ''f5ipams''" by code_simp+
  moreover have "ns \<noteq> [] \<Longrightarrow> plain_seg ns" using assms valid_plain by (simp add: args_ok_def)
  moreover have "\<forall>nm. op_name m = Some nm \<longrightarrow> plain_seg nm"
    using assms valid_plain by (auto simp: args_ok_def)
  moreover have "list_all plain_seg (filter (\<lambda>s. s \<noteq> []) (op_subs m))"
    using assms valid_plain by (auto simp: args_ok_def list_all_iff)
  ultimately show ?thesis by (auto simp: collection_segs_def op_segs_def item_segs_def split: option.splits)
qed

lemma typed_call_ok:
  assumes "ipams_client c = Some rc" and "args_ok rc (ipams_ns c) m" and "\<not> nil_object m"
    and "\<not> namespace_missing (ipams_ns c) m"
  shows "\<exists>call. ipams_call c m = Inr (Inr call) \<and> hc_verb call = op_verb m \<and> hc_query call = op_query m
    \<and> hc_path call = abs_path (client_segs rc @ collection_segs (ipams_ns c) @ op_segs m)"
proof -
  obtain r where r: "ipams_request c m = Inr r"
    "built rc (op_verb m) (ipams_ns c) (case op_name m of None \<Rightarrow> [] | Some nm \<Rightarrow> nm)
        (filter (\<lambda>s. s \<noteq> []) (op_subs m)) (op_query m) r"
    using methods_build [OF assms(1-3)] by blast
  have "ipams_call c m = Inr (Inr (req_http r))"
    using call_built [OF r(2) assms(2,3)] assms(4) r(1) by (simp add: ipams_call_def)
  moreover have "rr_verb r = op_verb m" "rr_params r = op_query m" using r(2) by (simp_all add: built_def)
  ultimately show ?thesis using built_path [OF r(2)] by (auto simp: req_http_def op_segs_def)
qed

lemma typed_call_refused:
  assumes "ipams_client c = Some rc"
    and "\<not> args_ok rc (ipams_ns c) m \<or> nil_object m \<or> namespace_missing (ipams_ns c) m"
  shows "ipams_call c m \<noteq> Inr (Inr call)"
proof (cases "nil_object m")
  case True
  then show ?thesis by (cases m) (auto simp: ipams_call_def method_defs)
next
  case nil: False
  show ?thesis
  proof (cases "args_ok rc (ipams_ns c) m")
    case True
    obtain r where r: "ipams_request c m = Inr r"
      "built rc (op_verb m) (ipams_ns c) (case op_name m of None \<Rightarrow> [] | Some nm \<Rightarrow> nm)
        (filter (\<lambda>s. s \<noteq> []) (op_subs m)) (op_query m) r"
      using methods_build [OF assms(1) True nil] by blast
    have "namespace_missing (ipams_ns c) m" using assms(2) True nil by blast
    then show ?thesis using call_built [OF r(2) True nil] r(1) by (simp add: ipams_call_def)
  next
    case False
    obtain r where "ipams_request c m = Inr r" "failed r" using methods_refuse [OF assms(1) False nil] by blast
    then show ?thesis by (auto simp: ipams_call_def failed_def req_call_def req_Watch_def
        split: F5IPAMInterface.splits option.splits)
  qed
qed

text \<open>C20: A method of the typed client sends a request exactly when its client is there, the
  namespace, the name and the subresources are single path segments, a name is not empty, a
  namespace is given where one is needed and the object can be encoded. It then goes, with
  the verb of the method, to the path that consists of the client's prefix, the collection
  of the namespace, the name and the subresources, and carries exactly its options.\<close>

theorem typed_client_sends:
  assumes "ipams_client c = Some rc"
  shows "((\<exists>call. ipams_call c m = Inr (Inr call)) \<longleftrightarrow>
      args_ok rc (ipams_ns c) m \<and> \<not> nil_object m \<and> \<not> namespace_missing (ipams_ns c) m)
    \<and> (\<forall>call. ipams_call c m = Inr (Inr call) \<longrightarrow> hc_verb call = op_verb m \<and> hc_query call = op_query m
         \<and> hc_path call = abs_path (client_segs rc @ collection_segs (ipams_ns c) @ op_segs m))"
proof (cases "args_ok rc (ipams_ns c) m \<and> \<not> nil_object m \<and> \<not> namespace_missing (ipams_ns c) m")
  case True
  with typed_call_ok [OF assms, of m] show ?thesis by fastforce
next
  case False
  with typed_call_refused [OF assms, of m] show ?thesis by blast
qed

theorem typed_client_sends_witness:
  "\<exists>call. ipams_call \<lparr>ipams_client = Some ref_client, ipams_ns = ''kube-system''\<rparr>
        (Op_Patch ''ipam'' ''merge'' ''{}'' [''status'']) = Inr (Inr call)
    \<and> hc_verb call = ''PATCH'' \<and> hc_path call = ''/apis/fic.f5.com/v1/namespaces/kube-system/f5ipams/ipam/status''"
proof -
  let ?c = "\<lparr>ipams_client = Some ref_client, ipams_ns = ''kube-system''\<rparr>"
  let ?m = "Op_Patch ''ipam'' ''merge'' ''{}'' [''status'']"
  have valid: "IsValidPathSegmentName ''kube-system''" "IsValidPathSegmentName ''ipam''" "IsValidPathSegmentName ''status''"
    by code_simp+
  have ok: "args_ok ref_client (ipams_ns ?c) ?m" "\<not> nil_object ?m" "\<not> namespace_missing (ipams_ns ?c) ?m"
    using valid by (simp_all add: args_ok_def encodes_def namespace_missing_def)
  have c: "ipams_client ?c = Some ref_client" by simp
  have "abs_path (client_segs ref_client @ collection_segs (ipams_ns ?c) @ op_segs ?m) =
      ''/apis/fic.f5.com/v1/namespaces/kube-system/f5ipams/ipam/status''"
    by (simp add: ref_client_segs collection_segs_def op_segs_def item_segs_def abs_path_def slash_def)
  with typed_client_sends [OF c, of ?m] ok show ?thesis by auto
qed

text \<open>C25: No request reaches another object: when two methods of clients with the same REST
  client send to the same path, they are about the same namespace, the same name (or both
  about a collection) and the same subresources, whatever texts were given as names.\<close>

theorem same_path_same_object:
  assumes "ipams_client c = Some rc" and "ipams_client c' = Some rc"
    and "ipams_call c m = Inr (Inr call)" and "ipams_call c' m' = Inr (Inr call')"
    and "hc_path call = hc_path call'"
  shows "ipams_ns c = ipams_ns c' \<and> op_name m = op_name m'
    \<and> filter (\<lambda>s. s \<noteq> []) (op_subs m) = filter (\<lambda>s. s \<noteq> []) (op_subs m')"
proof -
  note sends = typed_call_refused [OF assms(1), of m call] typed_call_refused [OF assms(2), of m' call']
  have ok: "args_ok rc (ipams_ns c) m" "args_ok rc (ipams_ns c') m'" "\<not> nil_object m" "\<not> nil_object m'"
    "\<not> namespace_missing (ipams_ns c) m" "\<not> namespace_missing (ipams_ns c') m'"
    using sends assms(3,4) by blast+
  have "hc_path call = abs_path (client_segs rc @ collection_segs (ipams_ns c) @ op_segs m)"
    "hc_path call' = abs_path (client_segs rc @ collection_segs (ipams_ns c') @ op_segs m')"
    using typed_call_ok [OF assms(1) ok(1,3,5)] typed_call_ok [OF assms(2) ok(2,4,6)] assms(3,4) by auto
  moreover have "list_all plain_seg (client_segs rc @ collection_segs (ipams_ns c) @ op_segs m)"
    "list_all plain_seg (client_segs rc @ collection_segs (ipams_ns c') @ op_segs m')"
    using client_prefix_segs(2) op_segs_plain [OF ok(1)] op_segs_plain [OF ok(2)] by simp_all
  ultimately have "collection_segs (ipams_ns c) @ op_segs m = collection_segs (ipams_ns c') @ op_segs m'"
    using abs_path_inject assms(5) by fastforce
  then have "ipams_ns c = ipams_ns c'" and segs: "op_segs m = op_segs m'" by (simp_all add: collection_inject)
  moreover have "op_name m = (case op_segs m of [] \<Rightarrow> None | nm # _ \<Rightarrow> Some nm)
      \<and> filter (\<lambda>s. s \<noteq> []) (op_subs m) = tl (op_segs m)" if "args_ok rc ns m" "\<not> nil_object m" for ns m
    using that by (cases m) (auto simp: op_segs_def item_segs_def args_ok_def split: option.splits)
  ultimately show ?thesis using ok(1-4) by metis
qed

theorem same_path_same_object_witness:
  "\<exists>call. ipams_call \<lparr>ipams_client = Some ref_client, ipams_ns = ''kube-system''\<rparr> (Op_Get ''ipam'' \<lparr>go_ResourceVersion = []\<rparr>)
        = Inr (Inr call)
     \<and> (\<forall>ns nm opts call'. ipams_call \<lparr>ipams_client = Some ref_client, ipams_ns = ns\<rparr> (Op_Delete nm opts) = Inr (Inr call')
          \<and> hc_path call = hc_path call' \<longrightarrow> ns = ''kube-system'' \<and> nm = ''ipam'')"
proof -
  let ?c = "\<lambda>ns. \<lparr>ipams_client = Some ref_client, ipams_ns = ns\<rparr>" and ?m = "Op_Get ''ipam'' \<lparr>go_ResourceVersion = []\<rparr>"
  have c: "ipams_client (?c ns) = Some ref_client" for ns by simp
  have "IsValidPathSegmentName ''kube-system''" "IsValidPathSegmentName ''ipam''" by code_simp+
  then have "args_ok ref_client ''kube-system'' ?m" "\<not> namespace_missing ''kube-system'' ?m"
    by (simp_all add: args_ok_def encodes_def namespace_missing_def)
  with typed_call_ok [OF c, of "''kube-system''" ?m] obtain call where
    call: "ipams_call (?c ''kube-system'') ?m = Inr (Inr call)" by auto
  have "ns = ''kube-system'' \<and> nm = ''ipam''"
    if "ipams_call (?c ns) (Op_Delete nm opts) = Inr (Inr call')" "hc_path call = hc_path call'" for ns nm opts call'
    using same_path_same_object [OF c c call that] by simp
  with call show ?thesis by blast
qed

end
