(* ===== verification/Watching.thy ===== *)
theory Watching
  imports Machinery Clienturls
begin

text \<open>
  What the Kubernetes client guarantees: its REST calls fulfil the contract of the answer
  worker over any server that answers as documented; the informer table watches either
  all namespaces or specific ones, never both; start and stop.
\<close>

section \<open>The REST calls\<close>

text \<open>The calls the server sees, for a client \<open>c\<close>.\<close>

definition item_path :: "'e RESTClient \<Rightarrow> string \<Rightarrow> string \<Rightarrow> string" where
  "item_path c ns nm = abs_path (client_segs c @ [''namespaces'', ns, ''f5ipams'', nm])"

definition get_call :: "'e RESTClient \<Rightarrow> string \<Rightarrow> string \<Rightarrow> 'e http_call" where
  "get_call c ns nm = \<lparr>hc_verb = ''GET'', hc_path = item_path c ns nm, hc_query = [],
     hc_timeout = (if rcl_timeout c \<noteq> 0 then Some (rcl_timeout c) else None),
     hc_headers = rr_headers (client_Verb c ''GET''), hc_UserAgent = rcl_UserAgent c, hc_body = None\<rparr>"

definition put_call :: "'e RESTClient \<Rightarrow> string \<Rightarrow> F5IPAM \<Rightarrow> 'e http_call" where
  "put_call c ns r = \<lparr>hc_verb = ''PUT'', hc_path = item_path c ns (Name r), hc_query = [],
     hc_timeout = (if rcl_timeout c \<noteq> 0 then Some (rcl_timeout c) else None),
     hc_headers = AList.update ''Content-Type'' [rcl_ContentType c] (rr_headers (client_Verb c ''PUT'')),
     hc_UserAgent = rcl_UserAgent c, hc_body = map_option Encoded (rcl_encode c (Obj_F5IPAM r))\<rparr>"

definition name_ok :: "string \<Rightarrow> bool" where
  "name_ok s \<longleftrightarrow> s \<noteq> [] \<and> IsValidPathSegmentName s"

lemma get_sends:
  assumes "name_ok ns" and "name_ok nm"
  shows "req_call (Get_request c ns nm) = Inr (get_call c ns nm)"
proof -
  have v: "ns \<noteq> []" "IsValidPathSegmentName ns" "nm \<noteq> []" "IsValidPathSegmentName nm"
    using assms by (simp_all add: name_ok_def)
  have b: "built c ''GET'' ns nm [] [] (Get_request c ns nm)"
    unfolding Get_request_def by (intro build_steps fresh_requests v)
  have "rr_headers (Get_request c ns nm) = rr_headers (client_Verb c ''GET'')" "rr_body (Get_request c ns nm) = None"
    "rr_timeout (Get_request c ns nm) = rcl_timeout c"
    using v f5ipams_valid(1) by (simp_all add: Get_request_def req_Name_def req_Resource_def req_Namespace_def unless_err_def)
  with b built_path [OF b] v show ?thesis
    by (simp add: req_call_def req_http_def get_call_def built_def item_path_def collection_segs_def item_segs_def)
qed

lemma put_sends:
  assumes "name_ok ns" and "name_ok (Name r)" and "rcl_encode c (Obj_F5IPAM r) \<noteq> None"
  shows "req_call (Update_request c ns r) = Inr (put_call c ns r)"
proof -
  have v: "ns \<noteq> []" "IsValidPathSegmentName ns" "Name r \<noteq> []" "IsValidPathSegmentName (Name r)"
    using assms by (simp_all add: name_ok_def)
  obtain d where d: "rcl_encode c (Obj_F5IPAM r) = Some d" using assms(3) by blast
  have b: "built c ''PUT'' ns (Name r) [] [] (Update_request c ns r)"
    unfolding Update_request_def by (intro build_steps fresh_requests v) (simp add: encodes_def d)
  have "rr_headers (Update_request c ns r) =
      AList.update ''Content-Type'' [rcl_ContentType c] (rr_headers (client_Verb c ''PUT''))"
    "rr_body (Update_request c ns r) = Some (Encoded d)" "rr_timeout (Update_request c ns r) = rcl_timeout c"
    using v d f5ipams_valid(1)
    by (simp_all add: Update_request_def req_Body_def req_Name_def req_Resource_def req_Namespace_def
        req_SetHeader_def unless_err_def)
  with b built_path [OF b] v d show ?thesis
    by (simp add: req_call_def req_http_def put_call_def built_def item_path_def collection_segs_def item_segs_def)
qed

lemma get_refused:
  assumes "\<not> (name_ok ns \<and> name_ok nm)"
  shows "\<exists>e. req_call (Get_request c ns nm) = Inl e"
proof (cases "IsValidPathSegmentName ns \<and> name_ok nm")
  case True
  then have "ns = []" using assms by (simp add: name_ok_def)
  moreover have "built c ''GET'' ns nm [] [] (Get_request c ns nm)"
    unfolding Get_request_def using True by (intro build_steps fresh_requests) (simp_all add: name_ok_def)
  ultimately show ?thesis using True by (simp add: req_call_def built_def name_ok_def)
next
  case False
  then have "failed (Get_request c ns nm)"
    unfolding Get_request_def name_ok_def by (auto intro: refused(2) failed_stays(1,2) refused(1))
  then show ?thesis by (auto simp: failed_def req_call_def)
qed

text \<open>
  A server that answers as documented: it keeps objects under valid names only, and a client
  that can encode them.
\<close>

locale rest_server =
  fixes c :: "'e RESTClient"
    and do :: "('e, 'api) http_server"
    and stored :: "'api \<Rightarrow> string \<times> string \<Rightarrow> F5IPAM option"
  assumes named: "stored api (ns, nm) = Some r \<Longrightarrow> Namespace r = ns \<and> Name r = nm \<and> name_ok ns \<and> name_ok nm"
    and encoded: "rcl_encode c (Obj_F5IPAM r) \<noteq> None"
    and get_ok: "stored api (ns, nm) = Some r \<Longrightarrow>
       \<exists>api'. do api (get_call c ns nm) = ((r, False), api') \<and> stored api' = stored api"
    and get_not_found: "name_ok ns \<Longrightarrow> name_ok nm \<Longrightarrow> stored api (ns, nm) = None \<Longrightarrow>
       \<exists>api'. do api (get_call c ns nm) = ((zero_F5IPAM, True), api') \<and> stored api' = stored api"
    and put_ok: "stored api (ns, nm) = Some r \<Longrightarrow>
       \<exists>v api'. do api (put_call c ns (set_status sts r)) = ((with_version v (set_status sts r), False), api')
         \<and> stored api' = (stored api)((ns, nm) \<mapsto> with_version v (set_status sts r))"

sublocale rest_server \<subseteq> client: kube_server "client_api c do" stored
proof
  fix api ns nm r sts
  show "stored api (ns, nm) = Some r \<Longrightarrow> Namespace r = ns \<and> Name r = nm" using named by blast
  have got: "api_Get (client_api c do) api ns nm = do api (get_call c ns nm)" if "name_ok ns" "name_ok nm"
    using get_sends [OF that, of c] by (simp add: client_api_def cli_Get_def req_Do_def)
  show "stored api (ns, nm) = Some r \<Longrightarrow>
      \<exists>api'. api_Get (client_api c do) api ns nm = ((r, False), api') \<and> stored api' = stored api"
    using get_ok named got by metis
  show "stored api (ns, nm) = None \<Longrightarrow>
      \<exists>api'. api_Get (client_api c do) api ns nm = ((zero_F5IPAM, True), api') \<and> stored api' = stored api"
  proof (cases "name_ok ns \<and> name_ok nm")
    case True
    assume "stored api (ns, nm) = None"
    with True get_not_found got show ?thesis by simp
  next
    case False
    then show ?thesis using get_refused [of ns nm c] by (auto simp: client_api_def cli_Get_def req_Do_def)
  qed
  assume s: "stored api (ns, nm) = Some r"
  have "req_call (Update_request c ns (set_status sts r)) = Inr (put_call c ns (set_status sts r))"
    using named [OF s] encoded by (intro put_sends) simp_all
  with put_ok [OF s, of sts] show "\<exists>v api'. api_Update (client_api c do) api ns (set_status sts r) = (False, api')
      \<and> stored api' = (stored api)((ns, nm) \<mapsto> with_version v (set_status sts r))"
    by (fastforce simp: client_api_def cli_Update_def req_Do_def)
qed

context rest_server
begin

lemmas client_responses = client.responses_written

lemma client_contract: "kube_server (client_api c do) stored"
  by (rule client.kube_server_axioms)

end

text \<open>A server that answers from a list of objects.\<close>

definition rest_find :: "F5IPAM list \<Rightarrow> string \<times> string \<Rightarrow> F5IPAM option" where
  "rest_find rs k = (if name_ok (fst k) \<and> name_ok (snd k) then ref_find rs k else None)"

definition ref_rest :: "(rest_object, F5IPAM list) http_server" where
  "ref_rest rs call =
     (case str_split slash (hc_path call) of
        [_, _, _, _, _, ns, _, nm] \<Rightarrow>
          if hc_verb call = ''GET'' then api_Get kube_ref rs ns nm
          else if hc_verb call = ''PUT'' then
            (case hc_body call of
               Some (Encoded (Obj_F5IPAM r)) \<Rightarrow>
                 (case api_Update kube_ref rs ns r of (err, rs1) \<Rightarrow>
                    ((if err then zero_F5IPAM else with_version (CHR ''v'' # ResourceVersion r) r, err), rs1))
             | _ \<Rightarrow> ((zero_F5IPAM, True), rs))
          else ((zero_F5IPAM, True), rs)
      | _ \<Rightarrow> ((zero_F5IPAM, True), rs))"

lemma ref_path:
  assumes "name_ok ns" and "name_ok nm"
  shows "str_split slash (item_path ref_client ns nm) =
     [[], ''apis'', ''fic.f5.com'', ''v1'', ''namespaces'', ns, ''f5ipams'', nm]"
proof -
  let ?ss = "[''apis'', ''fic.f5.com'', ''v1'', ''namespaces'', ns, ''f5ipams'', nm]"
  have "list_all plain_seg [''apis'', ''fic.f5.com'', ''v1'', ''namespaces'', ''f5ipams'']" by code_simp
  then have "list_all plain_seg ?ss" using assms valid_plain by (simp add: name_ok_def)
  from plain_segs_split [OF this] show ?thesis
    by (simp add: item_path_def ref_client_segs abs_path_def del: str_join.simps)
qed

interpretation ref_rest: rest_server ref_client ref_rest rest_find
proof (unfold_locales, goal_cases)
  case (1 rs ns nm r)
  then show ?case using ref_find_named by (auto simp: rest_find_def split: if_splits)
next
  case (2 r)
  show ?case by (simp add: ref_client_def)
next
  case (3 rs ns nm r)
  then have "name_ok ns" "name_ok nm" "ref_find rs (ns, nm) = Some r" by (auto simp: rest_find_def split: if_splits)
  then show ?case using ref_path by (simp add: ref_rest_def get_call_def kube_ref_def)
next
  case (4 ns nm rs)
  then show ?case using ref_path by (simp add: ref_rest_def get_call_def kube_ref_def rest_find_def)
next
  case (5 rs ns nm r sts)
  then have ok: "name_ok ns" "name_ok nm" and s: "ref_find rs (ns, nm) = Some r"
    by (auto simp: rest_find_def split: if_splits)
  note n = ref_find_named [OF s]
  let ?y = "with_version (CHR ''v'' # ResourceVersion r) (set_status sts r)"
  have y: "?y\<lparr>Namespace := ns\<rparr> = ?y" "(Namespace ?y, Name ?y) = (ns, nm)"
    using n by (simp_all add: with_version_def set_status_def)
  let ?rs = "map (\<lambda>x. if (Namespace x, Name x) = (ns, nm) then ?y else x) rs"
  have "api_Update kube_ref rs ns (set_status sts r) = (False, ?rs)"
    using s n y(1) by (simp add: kube_ref_def)
  then have "ref_rest rs (put_call ref_client ns (set_status sts r)) = ((?y, False), ?rs)"
    using ref_path [OF ok] n by (simp add: ref_rest_def put_call_def ref_encode)
  moreover have "ref_find ?rs = (ref_find rs)((ns, nm) \<mapsto> ?y)"
    using s by (intro ref_find_map [OF y(2)]) simp
  then have "rest_find ?rs = (rest_find rs)((ns, nm) \<mapsto> ?y)" using ok by (auto simp: rest_find_def fun_eq_iff)
  ultimately show ?case by blast
qed

section \<open>The informer table\<close>

text \<open>Keys are unique, an informer watches its key, and all-namespaces stands alone.\<close>

definition watch_ok :: "(string \<times> 'h IPAMInformer) list \<Rightarrow> bool" where
  "watch_ok infs \<longleftrightarrow> distinct (map fst infs) \<and>
     list_all (\<lambda>(ns, i). inf_namespace i = ns \<and>
        (\<exists>si. ipamInformer i = Some si \<and> si_namespace si = ns \<and> length (si_handlers si) = 1)) infs \<and>
     ([] \<in> fst ` set infs \<longrightarrow> map fst infs = [[]])"

lemma watching_all: "watchingAllNamespaces cli \<longleftrightarrow> [] \<in> fst ` set (ipamInformers cli)"
  by (auto simp: watchingAllNamespaces_def map_of_eq_None_iff)

lemma new_informer:
  "addEventHandlers (newNamespacedInformer ns) h = \<lparr>inf_namespace = ns, inf_closed = False,
     ipamInformer = Some \<lparr>si_source = NewFilteredF5IPAMInformer ns 0 (Some everything),
       si_handlers = [h], si_running = False\<rparr>\<rparr>"
  by (simp add: addEventHandlers_def newNamespacedInformer_def)

lemma update_new: "k \<notin> fst ` set xs \<Longrightarrow> AList.update k v xs = xs @ [(k, v)]"
  by (induction xs) auto

lemma add_informer:
  "addNamespacedInformer cli ns h =
     (if [] \<in> fst ` set (ipamInformers cli) \<or> (ipamInformers cli \<noteq> [] \<and> ns = [])
      then (fst (addNamespacedInformer cli ns h), cli)
      else if ns \<in> fst ` set (ipamInformers cli) then (None, cli)
      else (None, cli\<lparr>ipamInformers := ipamInformers cli @ [(ns, addEventHandlers (newNamespacedInformer ns) h)]\<rparr>))"
  by (auto simp: addNamespacedInformer_def watching_all map_of_eq_None_iff update_new)

lemma add_informer_err:
  "fst (addNamespacedInformer cli ns h) \<noteq> None \<longleftrightarrow>
     [] \<in> fst ` set (ipamInformers cli) \<or> (ipamInformers cli \<noteq> [] \<and> ns = [])"
  by (auto simp: addNamespacedInformer_def watching_all)

lemma watch_ok_add [inv_keep]:
  assumes "watch_ok (ipamInformers cli)"
  shows "watch_ok (ipamInformers (snd (addNamespacedInformer cli ns h)))"
  using assms by (subst add_informer) (auto simp: watch_ok_def new_informer)

lemma setup_informers_keep:
  assumes "\<And>cli ns. I (ipamInformers cli) \<Longrightarrow> I (ipamInformers (snd (addNamespacedInformer cli ns h)))"
    and "I (ipamInformers cli)"
  shows "I (ipamInformers (snd (setup_informers h nss cli)))"
  using assms(2)
proof (induction nss arbitrary: cli)
  case (Cons ns nss)
  from assms(1) [OF Cons.prems, of ns] Cons.IH show ?case
    by (cases "addNamespacedInformer cli ns h") (auto split: option.splits)
qed simp

lemma watch_ok_setup: "watch_ok (ipamInformers cli) \<Longrightarrow> watch_ok (ipamInformers (snd (setup_informers h nss cli)))"
  by (rule setup_informers_keep [where I = watch_ok]) (rule watch_ok_add)

text \<open>Only given namespaces are watched.\<close>

lemma setup_within:
  "fst ` set (ipamInformers (snd (setup_informers h nss cli))) \<subseteq> fst ` set (ipamInformers cli) \<union> set nss"
proof (induction nss arbitrary: cli)
  case (Cons ns nss)
  obtain e c where e: "addNamespacedInformer cli ns h = (e, c)" by (cases "addNamespacedInformer cli ns h")
  have "fst ` set (ipamInformers (snd (addNamespacedInformer cli ns h))) \<subseteq> insert ns (fst ` set (ipamInformers cli))"
    by (subst add_informer) auto
  then have c: "fst ` set (ipamInformers c) \<subseteq> insert ns (fst ` set (ipamInformers cli))" by (simp add: e)
  show ?case
  proof (cases e)
    case None
    then have "snd (setup_informers h (ns # nss) cli) = snd (setup_informers h nss c)" by (simp add: e)
    with Cons.IH [of c] c show ?thesis by (simp only: list.set) blast
  next
    case (Some err)
    then have "snd (setup_informers h (ns # nss) cli) = c" by (simp add: e)
    with c show ?thesis by (simp only: list.set) blast
  qed
qed simp

text \<open>Specific namespaces only: all are watched, whatever the order.\<close>

lemma setup_specific:
  assumes "[] \<notin> set nss" "[] \<notin> fst ` set (ipamInformers cli)" "distinct nss"
    "set nss \<inter> fst ` set (ipamInformers cli) = {}"
  shows "setup_informers h nss cli = (None, cli\<lparr>ipamInformers := ipamInformers cli @
     map (\<lambda>ns. (ns, addEventHandlers (newNamespacedInformer ns) h)) nss\<rparr>)"
  using assms
proof (induction nss arbitrary: cli)
  case (Cons ns nss)
  let ?new = "(ns, addEventHandlers (newNamespacedInformer ns) h)"
  let ?cli = "cli\<lparr>ipamInformers := ipamInformers cli @ [?new]\<rparr>"
  have "addNamespacedInformer cli ns h = (None, ?cli)"
    using Cons.prems by (subst add_informer) auto
  moreover have "setup_informers h nss ?cli = (None, ?cli\<lparr>ipamInformers := ipamInformers ?cli @
      map (\<lambda>ns. (ns, addEventHandlers (newNamespacedInformer ns) h)) nss\<rparr>)"
    using Cons.prems by (intro Cons.IH) auto
  ultimately show ?case by simp
qed simp

text \<open>All namespaces and specific ones together: an error, in every order.\<close>

lemma setup_mixed:
  assumes "distinct nss" and "[] \<in> set (map fst (ipamInformers cli)) \<union> set nss"
    and "set nss \<inter> fst ` set (ipamInformers cli) = {}" and "nss \<noteq> []"
    and "ipamInformers cli \<noteq> [] \<or> length nss > 1"
  shows "fst (setup_informers h nss cli) \<noteq> None"
  using assms
proof (induction nss arbitrary: cli)
  case (Cons ns nss)
  show ?case
  proof (cases "fst (addNamespacedInformer cli ns h) = None")
    case True
    then have no: "\<not> ([] \<in> fst ` set (ipamInformers cli) \<or> (ipamInformers cli \<noteq> [] \<and> ns = []))"
      using add_informer_err [of cli ns h] by blast
    let ?cli = "cli\<lparr>ipamInformers := ipamInformers cli @ [(ns, addEventHandlers (newNamespacedInformer ns) h)]\<rparr>"
    have add: "addNamespacedInformer cli ns h = (None, ?cli)"
      using no Cons.prems(3) by (subst add_informer) auto
    have "nss \<noteq> []" using Cons.prems(2,5) no by auto
    then have "fst (setup_informers h nss ?cli) \<noteq> None"
      using Cons.prems by (intro Cons.IH) auto
    with add show ?thesis by simp
  next
    case False
    then show ?thesis by (auto split: prod.splits option.splits)
  qed
qed simp

section \<open>Start and stop\<close>

lemma each_informer_map:
  "(\<And>ns i. (ns, i) \<in> set infs \<Longrightarrow> f i = Inr (g i)) \<Longrightarrow>
     each_informer f infs = Inr (map (\<lambda>(ns, i). (ns, g i)) infs)"
proof (induction infs)
  case (Cons e infs)
  obtain ns i where e: "e = (ns, i)" by (cases e)
  have "f i = Inr (g i)" using Cons.prems [of ns i] by (simp add: e)
  moreover have "each_informer f infs = Inr (map (\<lambda>(ns, i). (ns, g i)) infs)"
    using Cons.prems by (intro Cons.IH) auto
  ultimately show ?case by (simp add: e)
qed simp

definition running :: "'h IPAMInformer \<Rightarrow> bool" where
  "running i = (case ipamInformer i of None \<Rightarrow> False | Some si \<Rightarrow> si_running si)"

lemma cli_Start_synced:
  assumes "list_all (\<lambda>(ns, i). \<not> inf_closed i \<and> (\<exists>si. ipamInformer i = Some si \<and> synced (si_namespace si)))
     (ipamInformers cli)"
  shows "\<exists>cli'. cli_Start synced cli = Inr cli' \<and> map fst (ipamInformers cli') = map fst (ipamInformers cli)
    \<and> list_all (\<lambda>(ns, i). running i \<and> \<not> inf_closed i) (ipamInformers cli')"
proof -
  let ?g = "\<lambda>i. i\<lparr>ipamInformer := map_option (\<lambda>si. si\<lparr>si_running := True\<rparr>) (ipamInformer i)\<rparr>"
  have "inf_start synced i = Inr (?g i)" if "(ns, i) \<in> set (ipamInformers cli)" for ns i
    using assms that by (fastforce simp: inf_start_def list_all_iff)
  from each_informer_map [of "ipamInformers cli" "inf_start synced" ?g, OF this]
  have "cli_Start synced cli = Inr (cli\<lparr>ipamInformers := map (\<lambda>(ns, i). (ns, ?g i)) (ipamInformers cli)\<rparr>)"
    by (simp add: cli_Start_def)
  moreover have "list_all (\<lambda>(ns, i). running i \<and> \<not> inf_closed i) (map (\<lambda>(ns, i). (ns, ?g i)) (ipamInformers cli))"
    using assms by (fastforce simp: list_all_iff running_def)
  ultimately show ?thesis by (auto simp: case_prod_unfold o_def)
qed

lemma cli_Stop_open:
  assumes "list_all (\<lambda>(ns, i). \<not> inf_closed i) (ipamInformers cli)"
  shows "\<exists>cli'. cli_Stop cli = Inr cli' \<and> map fst (ipamInformers cli') = map fst (ipamInformers cli)
    \<and> list_all (\<lambda>(ns, i). \<not> running i \<and> inf_closed i) (ipamInformers cli')"
proof -
  let ?g = "\<lambda>i. i\<lparr>inf_closed := True, ipamInformer := map_option (\<lambda>si. si\<lparr>si_running := False\<rparr>) (ipamInformer i)\<rparr>"
  have "inf_stop i = Inr (?g i)" if "(ns, i) \<in> set (ipamInformers cli)" for ns i
    using assms that by (fastforce simp: inf_stop_def list_all_iff)
  from each_informer_map [of "ipamInformers cli" inf_stop ?g, OF this]
  have "cli_Stop cli = Inr (cli\<lparr>ipamInformers := map (\<lambda>(ns, i). (ns, ?g i)) (ipamInformers cli)\<rparr>)"
    by (simp add: cli_Stop_def)
  moreover have "list_all (\<lambda>(ns, i). \<not> running i \<and> inf_closed i) (map (\<lambda>(ns, i). (ns, ?g i)) (ipamInformers cli))"
    by (auto simp: list_all_iff running_def split: option.splits)
  ultimately show ?thesis by (auto simp: case_prod_unfold o_def)
qed

lemma cli_Stop_closed:
  assumes "ipamInformers cli \<noteq> []" and "list_all (\<lambda>(ns, i). inf_closed i) (ipamInformers cli)"
  shows "cli_Stop cli = Inl CloseOfClosedChannel"
  using assms by (cases "ipamInformers cli") (auto simp: cli_Stop_def inf_stop_def)

end
