(* ===== verification/Vlogger.thy ===== *)
theory Vlogger
  imports GoStrings
begin

text \<open>
  The logger: \<open>pkg/vlogger\<close> (\<open>log.go\<close>, \<open>log_null.go\<close>) and \<open>pkg/vlogger/console\<close>. The package
  keeps one logger per level in an array of interface values; usually they are all the
  same object, so logger objects live in a heap (a list, a pointer is an index) and a
  nil interface is \<open>None\<close>. Go's standard \<open>log\<close> package is the state \<open>std_log\<close>: where lines
  are written to and the lines written so far. \<open>fmt.Sprintf\<close> is the argument \<open>sprintf\<close> of the
  formatting functions.
\<close>

section \<open>Levels\<close>

definition LL_DEBUG :: int where "LL_DEBUG = 0"
definition LL_INFO :: int where "LL_INFO = 1"
definition LL_WARNING :: int where "LL_WARNING = 2"
definition LL_ERROR :: int where "LL_ERROR = 3"
definition LL_CRITICAL :: int where "LL_CRITICAL = 4"
definition LL_LOGLEVEL_SIZE :: int where "LL_LOGLEVEL_SIZE = 5"
definition LL_MIN_LEVEL :: int where "LL_MIN_LEVEL = LL_DEBUG"
definition LL_MAX_LEVEL :: int where "LL_MAX_LEVEL = LL_LOGLEVEL_SIZE - 1"

lemmas level_defs = LL_DEBUG_def LL_INFO_def LL_WARNING_def LL_ERROR_def LL_CRITICAL_def
  LL_LOGLEVEL_SIZE_def LL_MIN_LEVEL_def LL_MAX_LEVEL_def

definition LogLevel_String :: "int \<Rightarrow> string" where
  "LogLevel_String ll =
     (if ll = LL_DEBUG then ''debug'' else if ll = LL_INFO then ''info''
      else if ll = LL_WARNING then ''warning'' else if ll = LL_ERROR then ''error''
      else if ll = LL_CRITICAL then ''critical'' else ''invalid'')"

definition NewLogLevel :: "string \<Rightarrow> int option" where
  "NewLogLevel s0 =
     (let s = to_lower s0 in
      if s = [] then None
      else if s = ''debug'' then Some LL_DEBUG
      else if s = ''info'' then Some LL_INFO
      else if s = ''warning'' then Some LL_WARNING
      else if s = ''error'' then Some LL_ERROR
      else if s = ''critical'' then Some LL_CRITICAL
      else None)"

definition MarshalJSON :: "int \<Rightarrow> string" where
  "MarshalJSON ll = [dquote] @ LogLevel_String ll @ [dquote]"

text \<open>The new value of the level, \<open>None\<close> for the error.\<close>

definition UnmarshalJSON :: "string \<Rightarrow> int option" where
  "UnmarshalJSON data = NewLogLevel (str_trim dquote data)"

section \<open>The standard log package and the console logger\<close>

datatype writer = Stdout | Stderr

record std_log =
  log_writer :: writer
  log_prefix :: string
  log_flags :: int
  log_lines :: "(writer \<times> string) list"

definition std_start :: std_log where
  "std_start = \<lparr>log_writer = Stderr, log_prefix = [], log_flags = 3, log_lines = []\<rparr>"

definition SetOutput :: "writer \<Rightarrow> std_log \<Rightarrow> std_log" where
  "SetOutput w st = st\<lparr>log_writer := w\<rparr>"

text \<open>\<open>log.Println(tag, msg)\<close>; the header the flags ask for is not part of the text.\<close>

definition Println :: "string \<Rightarrow> string \<Rightarrow> std_log \<Rightarrow> std_log" where
  "Println tag msg st =
     st\<lparr>log_lines := log_lines st @ [(log_writer st, log_prefix st @ tag @ '' '' @ msg)]\<rparr>"

text \<open>The priorities of \<open>log/syslog\<close>: smaller is more important.\<close>

definition LOG_CRIT :: int where "LOG_CRIT = 2"
definition LOG_ERR :: int where "LOG_ERR = 3"
definition LOG_WARNING :: int where "LOG_WARNING = 4"
definition LOG_INFO :: int where "LOG_INFO = 6"
definition LOG_DEBUG :: int where "LOG_DEBUG = 7"

lemmas priority_defs = LOG_CRIT_def LOG_ERR_def LOG_WARNING_def LOG_INFO_def LOG_DEBUG_def

definition logLevelToSyslogLevel :: "int list" where
  "logLevelToSyslogLevel = [LOG_DEBUG, LOG_INFO, LOG_WARNING, LOG_ERR, LOG_CRIT]"

record consoleLogger =
  slLogLevel :: int

definition NewConsoleLogger :: consoleLogger where
  "NewConsoleLogger = \<lparr>slLogLevel = LOG_DEBUG\<rparr>"

definition NewConsoleLoggerExt :: "string \<Rightarrow> int \<Rightarrow> std_log \<Rightarrow> consoleLogger \<times> std_log" where
  "NewConsoleLoggerExt pre flags st =
     (NewConsoleLogger, st\<lparr>log_prefix := pre, log_flags := flags\<rparr>)"

definition toSTDOUT :: "string \<Rightarrow> std_log \<Rightarrow> std_log" where
  "toSTDOUT msg st = SetOutput Stderr (Println ''[INFO]'' msg (SetOutput Stdout st))"

definition console_Debug :: "consoleLogger \<Rightarrow> string \<Rightarrow> std_log \<Rightarrow> std_log" where
  "console_Debug cl msg st = (if slLogLevel cl \<ge> LOG_DEBUG then Println ''[DEBUG]'' msg st else st)"

definition console_Info :: "consoleLogger \<Rightarrow> string \<Rightarrow> std_log \<Rightarrow> std_log" where
  "console_Info cl msg st = (if slLogLevel cl \<ge> LOG_INFO then toSTDOUT msg st else st)"

definition console_Warning :: "consoleLogger \<Rightarrow> string \<Rightarrow> std_log \<Rightarrow> std_log" where
  "console_Warning cl msg st = (if slLogLevel cl \<ge> LOG_WARNING then Println ''[WARNING]'' msg st else st)"

definition console_Error :: "consoleLogger \<Rightarrow> string \<Rightarrow> std_log \<Rightarrow> std_log" where
  "console_Error cl msg st = (if slLogLevel cl \<ge> LOG_ERR then Println ''[ERROR]'' msg st else st)"

definition console_Critical :: "consoleLogger \<Rightarrow> string \<Rightarrow> std_log \<Rightarrow> std_log" where
  "console_Critical cl msg st = (if slLogLevel cl \<ge> LOG_CRIT then Println ''[CRITICAL]'' msg st else st)"

text \<open>The formatting variants format only what is printed.\<close>

definition console_Debugf where
  "console_Debugf sprintf cl format params st =
     (if slLogLevel cl \<ge> LOG_DEBUG then Println ''[DEBUG]'' (sprintf format params) st else st)"

definition console_Infof where
  "console_Infof sprintf cl format params st =
     (if slLogLevel cl \<ge> LOG_INFO then toSTDOUT (sprintf format params) st else st)"

definition console_Warningf where
  "console_Warningf sprintf cl format params st =
     (if slLogLevel cl \<ge> LOG_WARNING then Println ''[WARNING]'' (sprintf format params) st else st)"

definition console_Errorf where
  "console_Errorf sprintf cl format params st =
     (if slLogLevel cl \<ge> LOG_ERR then Println ''[ERROR]'' (sprintf format params) st else st)"

definition console_Criticalf where
  "console_Criticalf sprintf cl format params st =
     (if slLogLevel cl \<ge> LOG_CRIT then Println ''[CRITICAL]'' (sprintf format params) st else st)"

definition console_SetLogLevel :: "consoleLogger \<Rightarrow> int \<Rightarrow> consoleLogger" where
  "console_SetLogLevel cl p = cl\<lparr>slLogLevel := p\<rparr>"

definition console_GetLogLevel :: "consoleLogger \<Rightarrow> int" where
  "console_GetLogLevel cl = slLogLevel cl"

lemmas console_defs = console_Debug_def console_Info_def console_Warning_def console_Error_def
  console_Critical_def console_Debugf_def console_Infof_def console_Warningf_def
  console_Errorf_def console_Criticalf_def

section \<open>The null logger\<close>

record nullLogger =
  null_slLogLevel :: int

definition newNullLogger :: nullLogger where
  "newNullLogger = \<lparr>null_slLogLevel = LOG_DEBUG\<rparr>"

definition null_log :: "nullLogger \<Rightarrow> string \<Rightarrow> std_log \<Rightarrow> std_log" where
  "null_log cl msg st = st"

definition null_SetLogLevel :: "nullLogger \<Rightarrow> int \<Rightarrow> nullLogger" where
  "null_SetLogLevel cl p = cl\<lparr>null_slLogLevel := p\<rparr>"

definition null_GetLogLevel :: "nullLogger \<Rightarrow> int" where
  "null_GetLogLevel cl = null_slLogLevel cl"

section \<open>The package state\<close>

text \<open>What an interface value may hold, and the calls through the interface.\<close>

datatype logger_obj = NullLogger nullLogger | ConsoleLogger consoleLogger

record vlog_state =
  loggers :: "logger_obj list"
  vlog :: "nat option list"
  logLevel :: int
  std :: std_log

definition through :: "(consoleLogger \<Rightarrow> std_log \<Rightarrow> std_log) \<Rightarrow> int \<Rightarrow> vlog_state \<Rightarrow> vlog_state go" where
  "through call level st =
     (case vlog st ! nat level of
        None \<Rightarrow> Inl NilDeref
      | Some p \<Rightarrow>
          (case loggers st ! p of
             NullLogger nl \<Rightarrow> Inr (st\<lparr>std := null_log nl [] (std st)\<rparr>)
           | ConsoleLogger cl \<Rightarrow> Inr (st\<lparr>std := call cl (std st)\<rparr>)))"

definition vlog_Debug where "vlog_Debug msg = through (\<lambda>cl. console_Debug cl msg) LL_DEBUG"
definition vlog_Info where "vlog_Info msg = through (\<lambda>cl. console_Info cl msg) LL_INFO"
definition vlog_Warning where "vlog_Warning msg = through (\<lambda>cl. console_Warning cl msg) LL_WARNING"
definition vlog_Error where "vlog_Error msg = through (\<lambda>cl. console_Error cl msg) LL_ERROR"
definition vlog_Critical where "vlog_Critical msg = through (\<lambda>cl. console_Critical cl msg) LL_CRITICAL"

definition vlog_Debugf where
  "vlog_Debugf sprintf format params = through (\<lambda>cl. console_Debugf sprintf cl format params) LL_DEBUG"
definition vlog_Infof where
  "vlog_Infof sprintf format params = through (\<lambda>cl. console_Infof sprintf cl format params) LL_INFO"
definition vlog_Warningf where
  "vlog_Warningf sprintf format params = through (\<lambda>cl. console_Warningf sprintf cl format params) LL_WARNING"
definition vlog_Errorf where
  "vlog_Errorf sprintf format params = through (\<lambda>cl. console_Errorf sprintf cl format params) LL_ERROR"
definition vlog_Criticalf where
  "vlog_Criticalf sprintf format params = through (\<lambda>cl. console_Criticalf sprintf cl format params) LL_CRITICAL"

lemmas vlog_defs = vlog_Debug_def vlog_Info_def vlog_Warning_def vlog_Error_def vlog_Critical_def
  vlog_Debugf_def vlog_Infof_def vlog_Warningf_def vlog_Errorf_def vlog_Criticalf_def

text \<open>\<open>RegisterLogger\<close>: the loop from the minimal to the maximal level.\<close>

fun register_levels :: "nat \<Rightarrow> int \<Rightarrow> nat option \<Rightarrow> vlog_state \<Rightarrow> vlog_state go" where
  "register_levels 0 level log st = Inr st"
| "register_levels (Suc n) level log st =
     (if level < 0 \<or> int (length (vlog st)) \<le> level then Inl IndexOutOfRange
      else register_levels n (level + 1) log (st\<lparr>vlog := (vlog st)[nat level := log]\<rparr>))"

definition RegisterLogger :: "int \<Rightarrow> int \<Rightarrow> nat option \<Rightarrow> vlog_state \<Rightarrow> vlog_state go" where
  "RegisterLogger minLogLevel maxLogLevel log st =
     register_levels (nat (maxLogLevel - minLogLevel + 1)) minLogLevel log st"

fun set_level :: "int \<Rightarrow> logger_obj \<Rightarrow> logger_obj" where
  "set_level p (NullLogger nl) = NullLogger (null_SetLogLevel nl p)"
| "set_level p (ConsoleLogger cl) = ConsoleLogger (console_SetLogLevel cl p)"

fun set_all_levels :: "int \<Rightarrow> nat option list \<Rightarrow> logger_obj list \<Rightarrow> logger_obj list" where
  "set_all_levels p [] ls = ls"
| "set_all_levels p (None # refs) ls = set_all_levels p refs ls"
| "set_all_levels p (Some r # refs) ls = set_all_levels p refs (ls[r := set_level p (ls ! r)])"

definition SetLogLevel :: "int \<Rightarrow> vlog_state \<Rightarrow> vlog_state go" where
  "SetLogLevel level st =
     (let st1 = st\<lparr>logLevel := level\<rparr> in
      if level < 0 \<or> int (length logLevelToSyslogLevel) \<le> level then Inl IndexOutOfRange
      else Inr (st1\<lparr>loggers := set_all_levels (logLevelToSyslogLevel ! nat level) (vlog st1) (loggers st1)\<rparr>))"

definition GetLogLevel :: "vlog_state \<Rightarrow> int" where
  "GetLogLevel st = logLevel st"

text \<open>\<open>Close\<close> calls the \<open>Close\<close> of the logger of every level; both are empty functions.\<close>

definition null_Close :: "nullLogger \<Rightarrow> nullLogger" where
  "null_Close cl = cl"

definition console_Close :: "consoleLogger \<Rightarrow> consoleLogger" where
  "console_Close cl = cl"

fun close_logger :: "logger_obj \<Rightarrow> logger_obj" where
  "close_logger (NullLogger nl) = NullLogger (null_Close nl)"
| "close_logger (ConsoleLogger cl) = ConsoleLogger (console_Close cl)"

fun close_all :: "nat option list \<Rightarrow> logger_obj list \<Rightarrow> logger_obj list" where
  "close_all [] ls = ls"
| "close_all (None # refs) ls = close_all refs ls"
| "close_all (Some r # refs) ls = close_all refs (ls[r := close_logger (ls ! r)])"

definition vlog_Close :: "vlog_state \<Rightarrow> vlog_state" where
  "vlog_Close st = st\<lparr>loggers := close_all (vlog st) (loggers st)\<rparr>"

definition vlog_Fatal :: "string \<Rightarrow> vlog_state \<Rightarrow> vlog_state go" where
  "vlog_Fatal msg st = go_bind (vlog_Critical msg st) (\<lambda>st1. let st2 = vlog_Close st1 in Inl (ExitProcess 1))"

definition vlog_Fatalf where
  "vlog_Fatalf sprintf format params st =
     go_bind (vlog_Criticalf sprintf format params st) (\<lambda>st1. let st2 = vlog_Close st1 in Inl (ExitProcess 1))"

definition vlog_Panic :: "string \<Rightarrow> vlog_state \<Rightarrow> vlog_state go" where
  "vlog_Panic msg st = go_bind (vlog_Critical msg st) (\<lambda>st1. Inl (UserPanic msg))"

definition vlog_Panicf where
  "vlog_Panicf sprintf format params st =
     (let msg = sprintf format params in go_bind (vlog_Critical msg st) (\<lambda>st1. Inl (UserPanic msg)))"

text \<open>The state after the package's \<open>init\<close>: one null logger for all levels.\<close>

definition vlog_zero :: vlog_state where
  "vlog_zero = \<lparr>loggers = [], vlog = replicate 5 None, logLevel = LL_DEBUG, std = std_start\<rparr>"

definition vlog_init :: "vlog_state go" where
  "vlog_init =
     RegisterLogger LL_MIN_LEVEL LL_MAX_LEVEL (Some (length (loggers vlog_zero)))
       (vlog_zero\<lparr>loggers := loggers vlog_zero @ [NullLogger newNullLogger]\<rparr>)"

end
