(* ===== verification/Levels.thy ===== *)
theory Levels
  imports Vlogger
begin

text \<open>
  What the logger guarantees. \<open>leveled_logger\<close> is the contract of the \<open>Logger\<close> interface: a
  priority that can be set and read, and one line per call or none; the null logger and the
  console logger fulfil it. Then the filter of the package: after \<open>SetLogLevel\<close> exactly the
  calls of at least that level print, each one line.
\<close>

section \<open>The contract of a logger\<close>

definition level_tag :: "int \<Rightarrow> string" where
  "level_tag k =
     (if k = LL_DEBUG then ''[DEBUG]'' else if k = LL_INFO then ''[INFO]''
      else if k = LL_WARNING then ''[WARNING]'' else if k = LL_ERROR then ''[ERROR]''
      else ''[CRITICAL]'')"

definition level_writer :: "int \<Rightarrow> writer" where
  "level_writer k = (if k = LL_INFO then Stdout else Stderr)"

definition level_ok :: "int \<Rightarrow> bool" where
  "level_ok k \<longleftrightarrow> LL_MIN_LEVEL \<le> k \<and> k \<le> LL_MAX_LEVEL"

definition priority :: "int \<Rightarrow> int" where
  "priority k = logLevelToSyslogLevel ! nat k"

lemma level_ok_cases:
  assumes "level_ok k"
  obtains "k = LL_DEBUG" | "k = LL_INFO" | "k = LL_WARNING" | "k = LL_ERROR" | "k = LL_CRITICAL"
proof -
  have "k = 0 \<or> k = 1 \<or> k = 2 \<or> k = 3 \<or> k = 4" using assms by (auto simp: level_ok_def level_defs)
  with that show thesis by (auto simp: level_defs)
qed

locale leveled_logger =
  fixes emit :: "int \<Rightarrow> 'l \<Rightarrow> string \<Rightarrow> std_log \<Rightarrow> std_log"
    and set_priority :: "'l \<Rightarrow> int \<Rightarrow> 'l"
    and get_priority :: "'l \<Rightarrow> int"
    and passes :: "int \<Rightarrow> 'l \<Rightarrow> bool"
  assumes get_set: "get_priority (set_priority l p) = p"
    and emits: "level_ok k \<Longrightarrow> log_writer st = Stderr \<Longrightarrow> emit k l msg st =
        st\<lparr>log_lines := log_lines st @
          (if passes k l then [(level_writer k, log_prefix st @ level_tag k @ '' '' @ msg)] else [])\<rparr>"
begin

text \<open>The writer is the standard error again, and nothing that was printed changes.\<close>

lemma emit_writer: "level_ok k \<Longrightarrow> log_writer st = Stderr \<Longrightarrow> log_writer (emit k l msg st) = Stderr"
  by (simp add: emits)

lemma emit_all_lines:
  "list_all (\<lambda>(k, l, msg). level_ok k) calls \<Longrightarrow> log_writer st = Stderr \<Longrightarrow>
     log_lines (fold (\<lambda>(k, l, msg). emit k l msg) calls st) = log_lines st @
       map (\<lambda>(k, l, msg). (level_writer k, log_prefix st @ level_tag k @ '' '' @ msg))
         (filter (\<lambda>(k, l, msg). passes k l) calls)"
  by (induction calls arbitrary: st) (auto simp: emits)

end

definition console_emit :: "int \<Rightarrow> consoleLogger \<Rightarrow> string \<Rightarrow> std_log \<Rightarrow> std_log" where
  "console_emit k =
     (if k = LL_DEBUG then console_Debug else if k = LL_INFO then console_Info
      else if k = LL_WARNING then console_Warning else if k = LL_ERROR then console_Error
      else console_Critical)"

interpretation console: leveled_logger console_emit console_SetLogLevel console_GetLogLevel
  "\<lambda>k cl. priority k \<le> slLogLevel cl"
proof
  show "console_GetLogLevel (console_SetLogLevel l p) = p" for l p
    by (simp add: console_GetLogLevel_def console_SetLogLevel_def)
  show "console_emit k l msg st = st\<lparr>log_lines := log_lines st @
      (if priority k \<le> slLogLevel l then [(level_writer k, log_prefix st @ level_tag k @ '' '' @ msg)] else [])\<rparr>"
    if "level_ok k" "log_writer st = Stderr" for k st l msg
    using that(1) by (cases rule: level_ok_cases; cases st; use that(2) in
      \<open>simp add: console_emit_def console_defs level_defs level_writer_def level_tag_def priority_def
         logLevelToSyslogLevel_def Println_def toSTDOUT_def SetOutput_def\<close>)
qed

interpretation null: leveled_logger "\<lambda>k. null_log" null_SetLogLevel null_GetLogLevel "\<lambda>k nl. False"
  by unfold_locales (simp_all add: null_GetLogLevel_def null_SetLogLevel_def null_log_def)

section \<open>Registering loggers\<close>

lemma register_levels_ok:
  "0 \<le> lo \<Longrightarrow> lo + int n \<le> int (length (vlog st)) \<Longrightarrow>
     register_levels n lo log st = Inr (st\<lparr>vlog := take (nat lo) (vlog st) @ replicate n log
        @ drop (nat lo + n) (vlog st)\<rparr>)"
proof (induction n arbitrary: lo st)
  case (Suc n)
  let ?st = "st\<lparr>vlog := (vlog st)[nat lo := log]\<rparr>"
  have less: "nat lo < length (vlog st)" using Suc.prems by linarith
  have "register_levels n (lo + 1) log ?st = Inr (?st\<lparr>vlog := take (nat (lo + 1)) (vlog ?st)
      @ replicate n log @ drop (nat (lo + 1) + n) (vlog ?st)\<rparr>)"
    using Suc.prems by (intro Suc.IH) simp_all
  moreover have "nat (lo + 1) = Suc (nat lo)" using Suc.prems(1) by simp
  moreover have "take (Suc (nat lo)) ((vlog st)[nat lo := log]) = take (nat lo) (vlog st) @ [log]"
    using less by (simp add: take_Suc_conv_app_nth)
  ultimately show ?case using Suc.prems less by simp
qed simp

lemma register_all:
  assumes "length (vlog st) = 5"
  shows "RegisterLogger LL_MIN_LEVEL LL_MAX_LEVEL log st = Inr (st\<lparr>vlog := replicate 5 log\<rparr>)"
  using register_levels_ok [of 0 5 st log] assms by (simp add: RegisterLogger_def level_defs)

lemma register_levels_bounds:
  "0 < n \<Longrightarrow> lo < 0 \<or> int (length (vlog st)) < lo + int n \<Longrightarrow>
     register_levels n lo log st = Inl IndexOutOfRange"
  by (induction n arbitrary: lo st) (auto simp: Suc_le_eq)

section \<open>The level filter\<close>

lemma set_all_same:
  assumes "r < length ls"
  shows "set_all_levels p (replicate n (Some r)) ls =
     (if n = 0 then ls else ls[r := set_level p (ls ! r)])"
  using assms
proof (induction n arbitrary: ls)
  case (Suc n)
  have twice: "set_level p (set_level p l) = set_level p l" for l
    by (cases l) (simp_all add: null_SetLogLevel_def console_SetLogLevel_def)
  show ?case using Suc by (simp add: twice)
qed simp

definition vlog_call :: "int \<Rightarrow> string \<Rightarrow> vlog_state \<Rightarrow> vlog_state go" where
  "vlog_call k =
     (if k = LL_DEBUG then vlog_Debug else if k = LL_INFO then vlog_Info
      else if k = LL_WARNING then vlog_Warning else if k = LL_ERROR then vlog_Error
      else vlog_Critical)"

lemma vlog_call_console:
  assumes "level_ok k" and "vlog st ! nat k = Some p" and "loggers st ! p = ConsoleLogger cl"
  shows "vlog_call k msg st = Inr (st\<lparr>std := console_emit k cl msg (std st)\<rparr>)"
  using assms(1) by (cases rule: level_ok_cases; use assms(2,3) in
    \<open>simp add: vlog_call_def vlog_defs through_def console_emit_def level_defs\<close>)

lemma priority_le: "level_ok k \<Longrightarrow> level_ok ll \<Longrightarrow> priority k \<le> priority ll \<longleftrightarrow> ll \<le> k"
  by (elim level_ok_cases; simp add: priority_def logLevelToSyslogLevel_def level_defs priority_defs)

lemma SetLogLevel_console:
  assumes "level_ok ll" and "vlog st = replicate 5 (Some p)" and "p < length (loggers st)"
    and "loggers st ! p = ConsoleLogger cl"
  shows "SetLogLevel ll st = Inr (st\<lparr>logLevel := ll,
     loggers := (loggers st)[p := ConsoleLogger (cl\<lparr>slLogLevel := priority ll\<rparr>)]\<rparr>)"
  using assms set_all_same [OF assms(3), of "priority ll" 5]
  by (simp add: SetLogLevel_def level_ok_def level_defs logLevelToSyslogLevel_def [THEN arg_cong, of length]
      console_SetLogLevel_def Let_def flip: priority_def)

text \<open>The state \<open>verifyArgs\<close> sets up: a console logger for all levels.\<close>

definition console_state :: "vlog_state go" where
  "console_state =
     go_bind vlog_init (\<lambda>st.
       RegisterLogger LL_MIN_LEVEL LL_MAX_LEVEL (Some (length (loggers st)))
         (st\<lparr>loggers := loggers st @ [ConsoleLogger NewConsoleLogger]\<rparr>))"

lemma console_state_eq:
  "console_state = Inr \<lparr>loggers = [NullLogger newNullLogger, ConsoleLogger NewConsoleLogger],
     vlog = replicate 5 (Some 1), logLevel = LL_DEBUG, std = std_start\<rparr>"
  by (simp add: console_state_def vlog_init_def vlog_zero_def register_all)

lemma filter_console:
  assumes "level_ok ll" and "level_ok k"
  shows "\<exists>st st'. go_bind console_state (SetLogLevel ll) = Inr st \<and> logLevel st = ll
    \<and> vlog_call k msg st = Inr st'
    \<and> log_lines (std st') =
        (if ll \<le> k then [(level_writer k, level_tag k @ '' '' @ msg)] else [])
    \<and> log_writer (std st') = Stderr"
proof -
  let ?st = "\<lparr>loggers = [NullLogger newNullLogger, ConsoleLogger NewConsoleLogger],
     vlog = replicate 5 (Some 1), logLevel = LL_DEBUG, std = std_start\<rparr>"
  let ?st1 = "?st\<lparr>logLevel := ll, loggers :=
     (loggers ?st)[1 := ConsoleLogger (NewConsoleLogger\<lparr>slLogLevel := priority ll\<rparr>)]\<rparr>"
  have set: "SetLogLevel ll ?st = Inr ?st1"
    using SetLogLevel_console [OF assms(1), of ?st 1 NewConsoleLogger] by simp
  have "nat k < 5" using assms(2) by (auto simp: level_ok_def level_defs)
  then have "vlog_call k msg ?st1 = Inr (?st1\<lparr>std :=
      console_emit k (NewConsoleLogger\<lparr>slLogLevel := priority ll\<rparr>) msg std_start\<rparr>)"
    using vlog_call_console [OF assms(2), of ?st1 1] by simp
  with set show ?thesis
    using console.emits [OF assms(2), of std_start] priority_le [OF assms(2,1)]
    by (simp add: console_state_eq std_start_def)
qed

section \<open>Levels as text\<close>

lemma to_lower_plain: "list_all (\<lambda>c. to_lower [c] = [c]) s \<Longrightarrow> to_lower s = s"
  by (induction s) (auto simp: to_lower_def)

lemma level_text:
  "UnmarshalJSON (MarshalJSON ll) = (if level_ok ll then Some ll else None)"
proof -
  have parsed: "map (\<lambda>s. NewLogLevel (str_trim dquote ([dquote] @ s @ [dquote])))
      [''debug'', ''info'', ''warning'', ''error'', ''critical'', ''invalid''] =
    [Some LL_DEBUG, Some LL_INFO, Some LL_WARNING, Some LL_ERROR, Some LL_CRITICAL, None]"
    by code_simp
  show ?thesis
  proof (cases "level_ok ll")
    case True
    then show ?thesis
      by (cases rule: level_ok_cases; use parsed in
        \<open>simp add: UnmarshalJSON_def MarshalJSON_def LogLevel_String_def level_defs level_ok_def\<close>)
  next
    case False
    then have "LogLevel_String ll = ''invalid''"
      by (auto simp: LogLevel_String_def level_ok_def level_defs)
    with False parsed show ?thesis by (simp add: UnmarshalJSON_def MarshalJSON_def)
  qed
qed

end
