(* ===== verification/Program.thy ===== *)
theory Program
  imports Answers Events Watching Levels
begin

text \<open>
  The program: the construction of the orchestrator (\<open>pkg/orchestration\<close>), the start and
  stop of the controller (\<open>pkg/controller\<close>), and \<open>cmd/f5-ipam-controller/main.go\<close>, which
  checks the arguments and wires the parts together. The \<open>Orchestrator\<close> interface is a
  record of functions; a pointer to a client is an option, and an interface around it
  another one, as a nil pointer in an interface is not a nil interface.
\<close>

section \<open>The orchestrator's client\<close>

text \<open>The event handlers are the three of \<open>Orchestration\<close>; channels are numbered.\<close>

datatype event_handlers = K8sHandlers

record k8s_client = K8sIPAMClient +
  ipamCli :: "event_handlers IPAMClient"
  reqChan :: "nat option"
  respChan :: "nat option"
  workers :: "string list"  \<comment> \<open>the goroutines started\<close>

type_synonym k8s_ptr = "k8s_client option"

text \<open>
  \<open>NewIPAMK8SClient\<close>: \<open>in_cluster\<close> is what \<open>rest.InClusterConfig\<close> and the client
  constructors yield; without a configuration \<open>log.Fatalf\<close> ends the process.
\<close>

definition NewIPAMK8SClient ::
    "client_setup option \<Rightarrow> (string list \<Rightarrow> string list) \<Rightarrow> k8s_ptr go" where
  "NewIPAMK8SClient in_cluster ord =
     (case in_cluster of
        None \<Rightarrow> Inl (ExitProcess 1)
      | Some cs \<Rightarrow>
          (case NewIPAMClient cs ord K8sHandlers [DefaultNamespace] of
             None \<Rightarrow> Inr None
           | Some cli \<Rightarrow>
               Inr (Some \<lparr>rscQueue = wq_new, rq_keys = [], ipamCli = cli,
                         reqChan = None, respChan = None, workers = []\<rparr>)))"

definition NewOrchestrator ::
    "client_setup option \<Rightarrow> (string list \<Rightarrow> string list) \<Rightarrow> k8s_ptr option go" where
  "NewOrchestrator in_cluster ord = go_bind (NewIPAMK8SClient in_cluster ord) (\<lambda>p. Inr (Some p))"

definition SetupCommunicationChannels :: "k8s_ptr \<Rightarrow> nat \<Rightarrow> nat \<Rightarrow> k8s_ptr go" where
  "SetupCommunicationChannels k8sc req resp =
     (case k8sc of
        None \<Rightarrow> Inl NilDeref
      | Some k \<Rightarrow> Inr (Some (k\<lparr>reqChan := Some req, respChan := Some resp\<rparr>)))"

definition k8s_Start :: "(string \<Rightarrow> bool) \<Rightarrow> k8s_ptr \<Rightarrow> k8s_ptr go" where
  "k8s_Start synced k8sc =
     (case k8sc of
        None \<Rightarrow> Inl NilDeref
      | Some k \<Rightarrow>
          go_bind (cli_Start synced (ipamCli k)) (\<lambda>cli.
            Inr (Some (k\<lparr>ipamCli := cli,
                        workers := workers k @ [''customResourceWorker'', ''responseWorker'']\<rparr>))))"

definition k8s_Stop :: "k8s_ptr \<Rightarrow> k8s_ptr go" where
  "k8s_Stop k8sc =
     (case k8sc of
        None \<Rightarrow> Inl NilDeref
      | Some k \<Rightarrow> go_bind (cli_Stop (ipamCli k)) (\<lambda>cli. Inr (Some (k\<lparr>ipamCli := cli\<rparr>))))"

section \<open>The Orchestrator interface\<close>

record 'o orchestrator_iface =
  or_SetupCommunicationChannels :: "'o \<Rightarrow> nat \<Rightarrow> nat \<Rightarrow> 'o go"
  or_Start :: "'o \<Rightarrow> 'o go"
  or_Stop :: "'o \<Rightarrow> 'o go"

definition k8s_orchestrator :: "(string \<Rightarrow> bool) \<Rightarrow> k8s_ptr orchestrator_iface" where
  "k8s_orchestrator synced =
     \<lparr>or_SetupCommunicationChannels = SetupCommunicationChannels,
      or_Start = k8s_Start synced,
      or_Stop = k8s_Stop\<rparr>"

text \<open>
  What the controller relies on: a new orchestrator can be given channels, then started,
  then stopped, and keeps its channels.
\<close>

locale orchestrator =
  fixes O_ops :: "'o orchestrator_iface"
    and fresh :: "'o \<Rightarrow> bool"
    and connected :: "'o \<Rightarrow> nat \<Rightarrow> nat \<Rightarrow> bool"
    and working :: "'o \<Rightarrow> bool"
  assumes connects: "fresh orc \<Longrightarrow> \<exists>o1. or_SetupCommunicationChannels O_ops orc req resp = Inr o1
       \<and> fresh o1 \<and> connected o1 req resp"
    and starts: "fresh orc \<Longrightarrow> \<exists>o1. or_Start O_ops orc = Inr o1 \<and> working o1
       \<and> (\<forall>req resp. connected orc req resp \<longrightarrow> connected o1 req resp)"
    and stops: "working orc \<Longrightarrow> \<exists>o1. or_Stop O_ops orc = Inr o1 \<and> \<not> working o1"

section \<open>Start and stop of the controller\<close>

record ('m, 'o) process =
  Orchestrator :: "'o option"
  core :: "'m Controller"
  loop_running :: bool

definition req_chan :: nat where "req_chan = 0"
definition resp_chan :: nat where "resp_chan = 1"

definition ctlr_Start :: "'o orchestrator_iface \<Rightarrow> ('m, 'o) process \<Rightarrow> ('m, 'o) process go" where
  "ctlr_Start O_ops p =
     (case Orchestrator p of
        None \<Rightarrow> Inl NilDeref
      | Some orc \<Rightarrow>
          go_bind (or_SetupCommunicationChannels O_ops orc req_chan resp_chan) (\<lambda>o1.
          go_bind (or_Start O_ops o1) (\<lambda>o2.
            Inr (p\<lparr>Orchestrator := Some o2, loop_running := True\<rparr>))))"

definition ctlr_Stop :: "'o orchestrator_iface \<Rightarrow> ('m, 'o) process \<Rightarrow> ('m, 'o) process go" where
  "ctlr_Stop O_ops p =
     (case Orchestrator p of
        None \<Rightarrow> Inl NilDeref
      | Some orc \<Rightarrow> go_bind (or_Stop O_ops orc) (\<lambda>o1. Inr (p\<lparr>Orchestrator := Some o1\<rparr>)))"

context orchestrator
begin

lemma start_connects:
  assumes "Orchestrator p = Some orc" and "fresh orc"
  shows "\<exists>o2. ctlr_Start O_ops p = Inr (p\<lparr>Orchestrator := Some o2, loop_running := True\<rparr>)
    \<and> working o2 \<and> connected o2 req_chan resp_chan"
proof -
  obtain o1 where o1: "or_SetupCommunicationChannels O_ops orc req_chan resp_chan = Inr o1" "fresh o1"
    "connected o1 req_chan resp_chan" using connects [OF assms(2)] by blast
  obtain o2 where "or_Start O_ops o1 = Inr o2" "working o2" "connected o2 req_chan resp_chan"
    using starts [OF o1(2)] o1(3) by blast
  with assms(1) o1(1) show ?thesis by (intro exI [of _ o2]) (simp add: ctlr_Start_def)
qed

lemma stop_after_start:
  assumes "Orchestrator p = Some orc" and "working orc"
  shows "\<exists>p'. ctlr_Stop O_ops p = Inr p'"
  using stops [OF assms(2)] assms(1) by (auto simp: ctlr_Stop_def)

end

text \<open>The Kubernetes client is such an orchestrator if its informers sync.\<close>

fun k8s_fresh :: "(string \<Rightarrow> bool) \<Rightarrow> k8s_ptr \<Rightarrow> bool" where
  "k8s_fresh synced None = False"
| "k8s_fresh synced (Some k) \<longleftrightarrow>
     list_all (\<lambda>(ns, i). \<not> inf_closed i \<and>
       (case ipamInformer i of None \<Rightarrow> False | Some si \<Rightarrow> synced (si_namespace si))) (ipamInformers (ipamCli k))"

fun k8s_connected :: "k8s_ptr \<Rightarrow> nat \<Rightarrow> nat \<Rightarrow> bool" where
  "k8s_connected None req resp = False"
| "k8s_connected (Some k) req resp \<longleftrightarrow> reqChan k = Some req \<and> respChan k = Some resp"

fun k8s_working :: "k8s_ptr \<Rightarrow> bool" where
  "k8s_working None = False"
| "k8s_working (Some k) \<longleftrightarrow>
     workers k = [''customResourceWorker'', ''responseWorker''] \<and> ipamInformers (ipamCli k) \<noteq> []
     \<and> list_all (\<lambda>(ns, i). running i \<and> \<not> inf_closed i) (ipamInformers (ipamCli k))"

fun k8s_new :: "(string \<Rightarrow> bool) \<Rightarrow> k8s_ptr \<Rightarrow> bool" where
  "k8s_new synced p \<longleftrightarrow> k8s_fresh synced p \<and> workers (the p) = [] \<and> ipamInformers (ipamCli (the p)) \<noteq> []"

interpretation k8s: orchestrator "k8s_orchestrator synced" "k8s_new synced" k8s_connected k8s_working
proof
  fix orc :: k8s_ptr and req resp
  show "\<exists>o1. or_SetupCommunicationChannels (k8s_orchestrator synced) orc req resp = Inr o1
       \<and> k8s_new synced o1 \<and> k8s_connected o1 req resp" if "k8s_new synced orc"
    using that by (cases orc) (auto simp: k8s_orchestrator_def SetupCommunicationChannels_def)
  show "\<exists>o1. or_Start (k8s_orchestrator synced) orc = Inr o1 \<and> k8s_working o1
       \<and> (\<forall>req resp. k8s_connected orc req resp \<longrightarrow> k8s_connected o1 req resp)" if new: "k8s_new synced orc"
  proof -
    obtain k where k: "orc = Some k" "workers k = []" "ipamInformers (ipamCli k) \<noteq> []"
      using new by (cases orc) auto
    have "list_all (\<lambda>(ns, i). \<not> inf_closed i \<and> (\<exists>si. ipamInformer i = Some si \<and> synced (si_namespace si)))
        (ipamInformers (ipamCli k))"
      using new k(1) by (auto simp: list_all_iff split: option.splits)
    from cli_Start_synced [OF this] obtain cli' where cli': "cli_Start synced (ipamCli k) = Inr cli'"
      "map fst (ipamInformers cli') = map fst (ipamInformers (ipamCli k))"
      "list_all (\<lambda>(ns, i). running i \<and> \<not> inf_closed i) (ipamInformers cli')" by blast
    then have "ipamInformers cli' \<noteq> []" using k(3) by auto
    with k cli' show ?thesis by (auto simp: k8s_orchestrator_def k8s_Start_def)
  qed
  show "\<exists>o1. or_Stop (k8s_orchestrator synced) orc = Inr o1 \<and> \<not> k8s_working o1" if work: "k8s_working orc"
  proof -
    obtain k where k: "orc = Some k" "ipamInformers (ipamCli k) \<noteq> []"
      "list_all (\<lambda>(ns, i). running i \<and> \<not> inf_closed i) (ipamInformers (ipamCli k))"
      using work by (cases orc) auto
    then have "list_all (\<lambda>(ns, i). \<not> inf_closed i) (ipamInformers (ipamCli k))" by (auto simp: list_all_iff)
    from cli_Stop_open [OF this] obtain cli' where cli': "cli_Stop (ipamCli k) = Inr cli'"
      "map fst (ipamInformers cli') = map fst (ipamInformers (ipamCli k))"
      "list_all (\<lambda>(ns, i). \<not> running i \<and> inf_closed i) (ipamInformers cli')" by blast
    then have "ipamInformers cli' \<noteq> []" using k(2) by auto
    with cli'(3) have "\<not> list_all (\<lambda>(ns, i). running i \<and> \<not> inf_closed i) (ipamInformers cli')"
      by (cases "ipamInformers cli'") auto
    with k cli'(1) show ?thesis by (auto simp: k8s_orchestrator_def k8s_Stop_def)
  qed
qed

section \<open>The command\<close>

record cmd_flags =
  flag_logLevel :: string
  flag_orch :: string
  flag_provider :: string
  flag_iprange :: string

definition DefaultProvider :: string where
  "DefaultProvider = F5IPAMProvider"

text \<open>The defaults of the flag definitions.\<close>

definition default_flags :: cmd_flags where
  "default_flags = \<lparr>flag_logLevel = ''INFO'', flag_orch = [], flag_provider = DefaultProvider,
     flag_iprange = []\<rparr>"

text \<open>
  \<open>verifyArgs\<close>: the error, the flags and the logger. The first error prints the pointer
  \<open>logLevel\<close>, not the text it points to; \<open>ptr\<close> is how \<open>%v\<close> prints it.
\<close>

definition verifyArgs ::
    "string \<Rightarrow> cmd_flags \<Rightarrow> vlog_state \<Rightarrow> (string option \<times> cmd_flags \<times> vlog_state) go" where
  "verifyArgs ptr flags st =
     go_bind (RegisterLogger LL_MIN_LEVEL LL_MAX_LEVEL (Some (length (loggers st)))
                (st\<lparr>loggers := loggers st @ [ConsoleLogger NewConsoleLogger]\<rparr>)) (\<lambda>st1.
       case NewLogLevel (flag_logLevel flags) of
         None \<Rightarrow> Inr (Some (''Unknown log level requested: '' @ ptr @ [CHR 0x0A]
                   @ ''    Valid log levels are: DEBUG, INFO, WARNING, ERROR, CRITICAL''), flags, st1)
       | Some ll \<Rightarrow>
           go_bind (SetLogLevel ll st1) (\<lambda>st2.
             if length (flag_orch flags) = 0 then Inr (Some ''orchestration is required'', flags, st2)
             else
               (let flags1 = flags\<lparr>flag_orch := to_lower (flag_orch flags),
                                  flag_provider := to_lower (flag_provider flags)\<rparr> in
                if length (flag_iprange flags1) = 0 \<and> flag_provider flags1 = DefaultProvider
                then Inr (Some (''IP Range not provider for Provider: '' @ DefaultProvider), flags1, st2)
                else Inr (None, flags1\<lparr>flag_iprange :=
                       str_trim (CHR 0x27) (str_trim dquote (flag_iprange flags1))\<rparr>, st2))))"

text \<open>
  \<open>main\<close> up to the wait for a signal: what it runs with. \<open>env\<close> holds what it depends on.
\<close>

record 'db main_env =
  env_parse_ok :: bool
  env_flags :: cmd_flags
  env_ptr :: string
  env_cluster :: "client_setup option"
  env_order :: "string list \<Rightarrow> string list"
  env_synced :: "string \<Rightarrow> bool"
  env_driver :: "'db sqlite_driver"

definition main_start :: "'db main_env \<Rightarrow> ('db ipam_ptr, k8s_ptr) process go" where
  "main_start env =
     (if \<not> env_parse_ok env then Inl (ExitProcess 1)
      else
        go_bind vlog_init (\<lambda>st.
        go_bind (verifyArgs (env_ptr env) (env_flags env) st) (\<lambda>(err, flags, st1).
          if err \<noteq> None then Inl (ExitProcess 1)
          else
            go_bind (NewOrchestrator (env_cluster env) (env_order env)) (\<lambda>orcr.
              if orcr = None then Inl (ExitProcess 1)
              else
                go_bind (NewManager (env_driver env)
                    \<lparr>Provider = flag_provider flags, Range = flag_iprange flags\<rparr>) (\<lambda>mgr.
                  ctlr_Start (k8s_orchestrator (env_synced env))
                    \<lparr>Orchestrator = orcr, core = NewController mgr, loop_running = False\<rparr>)))))"

text \<open>\<open>main\<close> after a signal.\<close>

definition main_stop :: "'db main_env \<Rightarrow> ('db ipam_ptr, k8s_ptr) process \<Rightarrow> ('db ipam_ptr, k8s_ptr) process go" where
  "main_stop env p = ctlr_Stop (k8s_orchestrator (env_synced env)) p"

end
