(* ===== verification/Wiring.thy ===== *)
theory Wiring
  imports Requests Program
begin

text \<open>
  Lemmas on the start of the process: which arguments are accepted, what the logger then
  prints, the orchestrator and the manager that are built, and how they are connected.
\<close>

section \<open>Arguments\<close>

text \<open>The parameters a configured range comes with: as it is, or quoted.\<close>

definition quotes :: "string set" where
  "quotes = {[], [dquote], [CHR 0x27]}"

lemma range_text_chars:
  assumes "c \<in> set (range_text es)"
  shows "is_digit c \<or> c \<in> {CHR ''.'', CHR ''/'', CHR ''-'', CHR '',''}"
proof -
  have "set (str_join '','' ss) \<subseteq> {CHR '',''} \<union> \<Union> (set ` set ss)" for ss
    by (induction "'',''" ss rule: str_join.induct) auto
  with assms entry_text_char show ?thesis by (fastforce simp: range_text_def)
qed

lemma range_no_quote: "dquote \<notin> set (range_text es)" "CHR 0x27 \<notin> set (range_text es)"
  by (auto dest!: range_text_chars simp: is_digit_def dquote_def)

lemma str_trim_quoted: "c \<notin> set s \<Longrightarrow> str_trim c (c # s @ [c]) = s"
proof -
  assume c: "c \<notin> set s"
  have drop: "dropWhile (\<lambda>x. x = c) t = t" if "c \<notin> set t" for t
    using that by (cases t) auto
  have "s \<noteq> [] \<Longrightarrow> dropWhile (\<lambda>x. x = c) (s @ [c]) = s @ [c]" using c by (cases s) auto
  then show ?thesis using c by (cases "s = []") (simp_all add: str_trim_def drop)
qed

lemma trim_range:
  assumes "q \<in> quotes"
  shows "str_trim CHR 0x27 (str_trim dquote (q @ range_text es @ q)) = range_text es"
proof -
  have "str_trim dquote (CHR 0x27 # range_text es @ [CHR 0x27]) = CHR 0x27 # range_text es @ [CHR 0x27]"
    using range_no_quote by (intro str_trim_plain) (auto simp: dquote_def)
  then show ?thesis using assms range_no_quote by (auto simp: quotes_def str_trim_plain str_trim_quoted)
qed

definition args_ok :: "cmd_flags \<Rightarrow> bool" where
  "args_ok flags \<longleftrightarrow> NewLogLevel (flag_logLevel flags) \<noteq> None \<and> flag_orch flags \<noteq> [] \<and>
     (flag_iprange flags \<noteq> [] \<or> to_lower (flag_provider flags) \<noteq> DefaultProvider)"

lemma NewLogLevel_ok: "NewLogLevel s = Some ll \<Longrightarrow> level_ok ll"
  by (auto simp: NewLogLevel_def Let_def level_ok_def level_defs split: if_splits)

abbreviation "init_state \<equiv> \<lparr>loggers = [NullLogger newNullLogger], vlog = replicate 5 (Some 0),
   logLevel = LL_DEBUG, std = std_start\<rparr>"

lemma vlog_init_eq: "vlog_init = Inr init_state"
  by (simp add: vlog_init_def vlog_zero_def register_all)

definition level_state :: "int \<Rightarrow> vlog_state" where
  "level_state ll = \<lparr>loggers = [NullLogger newNullLogger,
       ConsoleLogger (NewConsoleLogger\<lparr>slLogLevel := priority ll\<rparr>)],
     vlog = replicate 5 (Some 1), logLevel = ll, std = std_start\<rparr>"

lemma verifyArgs_eq:
  "\<exists>err flags1 st. verifyArgs ptr flags init_state = Inr (err, flags1, st) \<and> (err = None \<longleftrightarrow> args_ok flags)
     \<and> (\<forall>ll. NewLogLevel (flag_logLevel flags) = Some ll \<longrightarrow> st = level_state ll)
     \<and> (err = None \<longrightarrow> flag_orch flags1 = to_lower (flag_orch flags)
          \<and> flag_provider flags1 = to_lower (flag_provider flags)
          \<and> flag_iprange flags1 = str_trim (CHR 0x27) (str_trim dquote (flag_iprange flags)))"
proof -
  let ?st = "\<lparr>loggers = [NullLogger newNullLogger, ConsoleLogger NewConsoleLogger],
     vlog = replicate 5 (Some 1), logLevel = LL_DEBUG, std = std_start\<rparr>"
  have reg: "RegisterLogger LL_MIN_LEVEL LL_MAX_LEVEL (Some (length (loggers init_state)))
      (init_state\<lparr>loggers := loggers init_state @ [ConsoleLogger NewConsoleLogger]\<rparr>) = Inr ?st"
    by (subst register_all) simp_all
  show ?thesis
  proof (cases "NewLogLevel (flag_logLevel flags)")
    case None
    then show ?thesis unfolding verifyArgs_def reg by (simp add: args_ok_def)
  next
    case (Some ll)
    have "SetLogLevel ll ?st = Inr (level_state ll)"
      using SetLogLevel_console [OF NewLogLevel_ok [OF Some], of ?st 1 NewConsoleLogger]
      by (simp add: level_state_def)
    with Some show ?thesis unfolding verifyArgs_def reg by (auto simp: args_ok_def Let_def)
  qed
qed

lemma level_state_prints:
  assumes "level_ok ll" and "level_ok k"
  shows "\<exists>st. vlog_call k msg (level_state ll) = Inr st
    \<and> log_lines (std st) = (if ll \<le> k then [(level_writer k, level_tag k @ '' '' @ msg)] else [])
    \<and> log_writer (std st) = Stderr"
proof -
  have "nat k < 5" using assms(2) by (auto simp: level_ok_def level_defs)
  then have "vlog_call k msg (level_state ll) = Inr (level_state ll\<lparr>std :=
      console_emit k (NewConsoleLogger\<lparr>slLogLevel := priority ll\<rparr>) msg std_start\<rparr>)"
    using vlog_call_console [OF assms(2), of "level_state ll" 1] by (simp add: level_state_def)
  then show ?thesis
    using console.emits [OF assms(2), of std_start] priority_le [OF assms(2,1)]
    by (simp add: level_state_def std_start_def)
qed

section \<open>The orchestrator\<close>

definition order_of :: "(string list \<Rightarrow> string list) \<Rightarrow> bool" where
  "order_of ord \<longleftrightarrow> (\<forall>xs. mset (ord xs) = mset xs)"

definition started_client :: k8s_client where
  "started_client = \<lparr>rscQueue = wq_new, rq_keys = [],
     ipamCli = \<lparr>namespaces = [DefaultNamespace], ipamInformers =
       [(DefaultNamespace, addEventHandlers (newNamespacedInformer DefaultNamespace) K8sHandlers)]\<rparr>,
     reqChan = None, respChan = None, workers = []\<rparr>"

lemma NewIPAMK8SClient_new:
  assumes "setupClients cs = None" and "order_of ord"
  shows "NewIPAMK8SClient (Some cs) ord = Inr (Some started_client)"
proof -
  have "mset (ord [DefaultNamespace]) = {#DefaultNamespace#}" using assms(2) by (simp add: order_of_def)
  then have ord: "ord [DefaultNamespace] = [DefaultNamespace]" by simp
  have "setup_informers K8sHandlers [DefaultNamespace] \<lparr>namespaces = [DefaultNamespace], ipamInformers = []\<rparr> =
      (None, ipamCli started_client)"
    by (subst setup_specific) (simp_all add: DefaultNamespace_def started_client_def)
  then show ?thesis
    using assms(1) ord by (simp add: NewIPAMK8SClient_def NewIPAMClient_def setupInformersWithEventHandlers_def
        started_client_def)
qed

lemma started_new: "synced DefaultNamespace \<Longrightarrow> k8s_new synced (Some started_client)"
  by (simp add: started_client_def new_informer)

lemma failed_client:
  "setupClients cs = Some e \<Longrightarrow> NewIPAMK8SClient (Some cs) ord = Inr None"
  by (simp add: NewIPAMK8SClient_def NewIPAMClient_def)

section \<open>The whole start\<close>

lemma main_start_args:
  assumes "env_parse_ok env" and "args_ok (env_flags env)"
  shows "main_start env =
     go_bind (NewOrchestrator (env_cluster env) (env_order env)) (\<lambda>orcr.
       if orcr = None then Inl (ExitProcess 1)
       else go_bind (NewManager (env_driver env) \<lparr>Provider = to_lower (flag_provider (env_flags env)),
              Range = str_trim (CHR 0x27) (str_trim dquote (flag_iprange (env_flags env)))\<rparr>) (\<lambda>mgr.
         ctlr_Start (k8s_orchestrator (env_synced env))
           \<lparr>Orchestrator = orcr, core = NewController mgr, loop_running = False\<rparr>))"
proof -
  obtain flags1 st where v: "verifyArgs (env_ptr env) (env_flags env) init_state = Inr (None, flags1, st)"
    "flag_provider flags1 = to_lower (flag_provider (env_flags env))"
    "flag_iprange flags1 = str_trim (CHR 0x27) (str_trim dquote (flag_iprange (env_flags env)))"
    using verifyArgs_eq [of "env_ptr env" "env_flags env"] assms(2) by auto
  show ?thesis by (simp add: main_start_def assms(1) vlog_init_eq v cong: if_cong)
qed

lemma main_start_bad_args:
  assumes "\<not> env_parse_ok env \<or> \<not> args_ok (env_flags env)"
  shows "main_start env = Inl (ExitProcess 1)"
proof (cases "env_parse_ok env")
  case True
  with assms verifyArgs_eq [of "env_ptr env" "env_flags env"] obtain e flags1 st where
    "verifyArgs (env_ptr env) (env_flags env) init_state = Inr (Some e, flags1, st)" by auto
  with True show ?thesis by (simp add: main_start_def vlog_init_eq)
qed (simp add: main_start_def)

end
