(* ===== verification/Running.thy ===== *)
theory Running
  imports Examples Wiring
begin

text \<open>
  Properties of the process: how it starts, fails to start and stops, what the client watches
  and writes, and what the logger prints.
\<close>

section \<open>Start and stop\<close>

text \<open>C19: With accepted arguments, a configured list of IPv4 ranges (quoted or not), a healthy
  database, clients that can be made and a cache that syncs, the program starts: the
  orchestrator watches and its workers run, it is connected to the controller's channels,
  the request loop runs, and the controller's manager holds exactly the configured pool.
  A signal then stops it without a panic.\<close>

theorem main_starts:
  assumes "reliable_sqlite (env_driver env) tbl has"
    and "es \<noteq> []" and "list_all valid_entry es"
    and "env_parse_ok env" and "NewLogLevel (flag_logLevel (env_flags env)) = Some ll"
    and "flag_orch (env_flags env) \<noteq> []" and "to_lower (flag_provider (env_flags env)) = F5IPAMProvider"
    and "q \<in> quotes" and "flag_iprange (env_flags env) = q @ range_text es @ q"
    and "env_cluster env = Some cs" and "setupClients cs = None" and "order_of (env_order env)"
    and "env_synced env DefaultNamespace"
  shows "\<exists>p orc m p'. main_start env = Inr p
    \<and> Orchestrator p = Some orc \<and> k8s_working orc \<and> k8s_connected orc req_chan resp_chan
    \<and> loop_running p \<and> core p = NewController (Some m)
    \<and> mgr_wf tbl m \<and> mgr_book tbl m = first_book es
    \<and> main_stop env p = Inr p'"
proof -
  let ?env = "env_flags env"
  have "range_text es \<noteq> []" using parseIPRange_text [OF assms(2)] by (auto simp: parseIPRange_def)
  then have args: "args_ok ?env" using assms(5,6,9) by (simp add: args_ok_def)
  obtain m where m: "NewManager (env_driver env) (f5_params es) = Inr (Some m)" "mgr_wf tbl m"
    "mgr_book tbl m = first_book es"
    using reliable_sqlite.NewManager_book [OF assms(1-3)] by blast
  have orc: "NewOrchestrator (env_cluster env) (env_order env) = Inr (Some (Some started_client))"
    using NewIPAMK8SClient_new [OF assms(11,12)] assms(10) by (simp add: NewOrchestrator_def)
  let ?p = "\<lparr>Orchestrator = Some (Some started_client), core = NewController (Some m), loop_running = False\<rparr>"
  obtain o2 where start: "ctlr_Start (k8s_orchestrator (env_synced env)) ?p =
      Inr (?p\<lparr>Orchestrator := Some o2, loop_running := True\<rparr>)" "k8s_working o2" "k8s_connected o2 req_chan resp_chan"
    using k8s.start_connects [of ?p "Some started_client" "env_synced env"] started_new [of "env_synced env", OF assms(13)] by auto
  obtain p' where stop: "main_stop env (?p\<lparr>Orchestrator := Some o2, loop_running := True\<rparr>) = Inr p'"
    using k8s.stop_after_start [of "?p\<lparr>Orchestrator := Some o2, loop_running := True\<rparr>" o2 "env_synced env"] start(2)
    by (auto simp: main_stop_def)
  have "main_start env = Inr (?p\<lparr>Orchestrator := Some o2, loop_running := True\<rparr>)"
    using m(1) orc start(1) by (simp add: main_start_args [OF assms(4) args] assms(7,9) trim_range [OF assms(8)])
  with start(2,3) m(2,3) stop show ?thesis by fastforce
qed

definition ex_env :: "string \<Rightarrow> client_setup \<Rightarrow> ref_db main_env" where
  "ex_env iprange cs = \<lparr>env_parse_ok = True,
     env_flags = default_flags\<lparr>flag_orch := ''kubernetes'', flag_iprange := iprange\<rparr>, env_ptr = ''0xc000010250'',
     env_cluster = Some cs, env_order = id, env_synced = (\<lambda>_. True), env_driver = ref_driver\<rparr>"

definition no_errors :: client_setup where
  "no_errors = \<lparr>kube_client_err = None, cr_client_err = None, rest_client_err = None\<rparr>"

lemma ex_env_args:
  "env_parse_ok (ex_env ipr cs)" "NewLogLevel (flag_logLevel (env_flags (ex_env ipr cs))) = Some LL_INFO"
  "flag_orch (env_flags (ex_env ipr cs)) \<noteq> []" "flag_iprange (env_flags (ex_env ipr cs)) = ipr"
  "to_lower (flag_provider (env_flags (ex_env ipr cs))) = F5IPAMProvider"
  "env_cluster (ex_env ipr cs) = Some cs" "env_order (ex_env ipr cs) = id"
  "env_synced (ex_env ipr cs) ns" "env_driver (ex_env ipr cs) = ref_driver"
proof -
  have "to_lower F5IPAMProvider = F5IPAMProvider" "NewLogLevel ''INFO'' = Some LL_INFO" by code_simp+
  then show "env_parse_ok (ex_env ipr cs)" "NewLogLevel (flag_logLevel (env_flags (ex_env ipr cs))) = Some LL_INFO"
  "flag_orch (env_flags (ex_env ipr cs)) \<noteq> []" "flag_iprange (env_flags (ex_env ipr cs)) = ipr"
  "to_lower (flag_provider (env_flags (ex_env ipr cs))) = F5IPAMProvider"
  "env_cluster (ex_env ipr cs) = Some cs" "env_order (ex_env ipr cs) = id"
  "env_synced (ex_env ipr cs) ns" "env_driver (ex_env ipr cs) = ref_driver"
    by (simp_all add: ex_env_def default_flags_def DefaultProvider_def)
qed

lemma ex_order: "order_of id"
  by (simp add: order_of_def)

theorem main_starts_witness:
  "\<exists>p orc m p'. main_start (ex_env (dquote # range_text ex_entries @ [dquote]) no_errors) = Inr p
    \<and> Orchestrator p = Some orc \<and> k8s_working orc \<and> core p = NewController (Some m)
    \<and> mgr_book ref_tables m = first_book ex_entries
    \<and> main_stop (ex_env (dquote # range_text ex_entries @ [dquote]) no_errors) p = Inr p'"
proof -
  let ?env = "ex_env ([dquote] @ range_text ex_entries @ [dquote]) no_errors"
  have "[dquote] \<in> quotes" "setupClients no_errors = None" by (simp_all add: quotes_def setupClients_def no_errors_def)
  then show ?thesis
    using main_starts [of ?env ref_tables ref_has ex_entries LL_INFO "[dquote]" no_errors]
      ref.reliable_sqlite_axioms ex_entries_ok(1,2) ex_env_args ex_order by fastforce
qed

text \<open>C35: A process that cannot start: rejected arguments (an unknown log level, no orchestration,
  no range for the default provider) end it with exit code 1. A client that cannot be made
  does not: the constructor returns a nil pointer, which \<open>main\<close> compares with nil after it
  was put into an interface, so the check never holds and the start dereferences nil.\<close>

theorem main_start_fails:
  "(\<not> env_parse_ok env \<or> NewLogLevel (flag_logLevel (env_flags env)) = None \<or> flag_orch (env_flags env) = []
      \<or> flag_iprange (env_flags env) = [] \<and> to_lower (flag_provider (env_flags env)) = DefaultProvider
      \<longrightarrow> main_start env = Inl (ExitProcess 1))
   \<and> (env_parse_ok env \<and> args_ok (env_flags env) \<and> env_cluster env = Some cs \<and> setupClients cs = Some e
      \<and> NewManager (env_driver env) \<lparr>Provider = to_lower (flag_provider (env_flags env)),
          Range = str_trim (CHR 0x27) (str_trim dquote (flag_iprange (env_flags env)))\<rparr> = Inr mgr
      \<longrightarrow> main_start env = Inl NilDeref)"
proof (intro conjI impI, goal_cases)
  case 1
  then show ?case by (intro main_start_bad_args) (auto simp: args_ok_def)
next
  case 2
  then have "NewOrchestrator (env_cluster env) (env_order env) = Inr (Some None)"
    using failed_client [of cs e] by (simp add: NewOrchestrator_def)
  with 2 show ?case
    by (simp add: main_start_args ctlr_Start_def k8s_orchestrator_def SetupCommunicationChannels_def)
qed

theorem main_start_fails_witness:
  "main_start (ex_env [] no_errors) = Inl (ExitProcess 1)
   \<and> main_start (ex_env (range_text ex_entries) (no_errors\<lparr>kube_client_err := Some ''no host''\<rparr>)) = Inl NilDeref"
proof
  show "main_start (ex_env [] no_errors) = Inl (ExitProcess 1)"
    using main_start_fails [of "ex_env [] no_errors"] ex_env_args [of "[]" no_errors]
    by (auto simp: DefaultProvider_def)
  let ?cs = "no_errors\<lparr>kube_client_err := Some ''no host''\<rparr>"
  have trim: "str_trim CHR 0x27 (str_trim dquote (range_text ex_entries)) = range_text ex_entries"
    using trim_range [of "[]"] by (simp add: quotes_def)
  have "range_text ex_entries \<noteq> []" by code_simp
  then have "args_ok (env_flags (ex_env (range_text ex_entries) ?cs))"
    using ex_env_args [of "range_text ex_entries" ?cs] by (simp add: args_ok_def)
  moreover have "setupClients ?cs = Some (''Failed to create kubeClient: '' @ ''no host'')"
    by (simp add: setupClients_def)
  ultimately show "main_start (ex_env (range_text ex_entries) ?cs) = Inl NilDeref"
    using main_start_fails [of "ex_env (range_text ex_entries) ?cs"] ex_env_args [of "range_text ex_entries" ?cs]
      ex_mgr_start trim by (metis (no_types, lifting))
qed

text \<open>A range that is only quotes passes the argument check, as the quotes are removed after
  it: the program starts, with a manager that panics on the first request.\<close>

theorem quoted_empty_range:
  fixes env :: "'db main_env"
  assumes "env_parse_ok env" and "args_ok (env_flags env)"
    and "to_lower (flag_provider (env_flags env)) = F5IPAMProvider"
    and "flag_iprange (env_flags env) = [dquote, dquote] \<or> flag_iprange (env_flags env) = [CHR 0x27, CHR 0x27]"
    and "env_cluster env = Some cs" and "setupClients cs = None" and "order_of (env_order env)"
    and "env_synced env DefaultNamespace"
  shows "\<exists>p. main_start env = Inr p \<and> loop_running p
    \<and> controller_round (ipam_manager (env_driver env)) (core p) (create_request md h c []) = Inl NilDeref
    \<and> controller_round (ipam_manager (env_driver env)) (core p) (delete_request md h c ip) = Inl NilDeref"
proof -
  let ?p = "\<lparr>Orchestrator = Some (Some started_client), core = NewController (Some None), loop_running = False\<rparr>
     :: ('db ipam_ptr, k8s_ptr) process"
  have mgr: "NewManager (env_driver env) \<lparr>Provider = F5IPAMProvider, Range = []\<rparr> = Inr (Some None)"
    by (simp add: NewManager_def NewIPAMManager_def NewProvider_def parseIPRange_def)
  have orc: "NewOrchestrator (env_cluster env) (env_order env) = Inr (Some (Some started_client))"
    using NewIPAMK8SClient_new [OF assms(6,7)] assms(5) by (simp add: NewOrchestrator_def)
  obtain o2 where start: "ctlr_Start (k8s_orchestrator (env_synced env)) ?p =
      Inr (?p\<lparr>Orchestrator := Some o2, loop_running := True\<rparr>)"
    using k8s.start_connects [of ?p "Some started_client" "env_synced env"] started_new [of "env_synced env", OF assms(8)]
    by auto
  have "str_trim CHR 0x27 (str_trim dquote (flag_iprange (env_flags env))) = []"
    using assms(4) by (auto simp: str_trim_def dquote_def)
  then have "main_start env = Inr (?p\<lparr>Orchestrator := Some o2, loop_running := True\<rparr>)"
    using mgr orc start by (simp add: main_start_args [OF assms(1,2)] assms(3))
  then show ?thesis
    by (simp add: controller_round_def NewController_def handle_request_def handle_create_def
        handle_delete_def ipam_manager_def ipmgr_GetIPAddress_def with_provider_def)
qed

theorem quoted_empty_range_witness:
  "\<exists>p. main_start (ex_env [dquote, dquote] no_errors) = Inr p
    \<and> controller_round (ipam_manager ref_driver) (core p) (create_request NoMetadata ''a.com'' ex_cidr []) = Inl NilDeref"
proof -
  have "setupClients no_errors = None" by (simp add: setupClients_def no_errors_def)
  moreover have "args_ok (env_flags (ex_env [dquote, dquote] no_errors))"
    using ex_env_args [of "[dquote, dquote]" no_errors] by (simp add: args_ok_def)
  ultimately show ?thesis
    using quoted_empty_range [of "ex_env [dquote, dquote] no_errors" no_errors NoMetadata "''a.com''" ex_cidr "[]"]
      ex_env_args [of "[dquote, dquote]" no_errors] ex_order by auto
qed

text \<open>C30: The life of the orchestrator: a new client has one informer, for the default namespace;
  started, it watches and runs both workers once the cache syncs, and waits for ever if the
  cache never does; stopped, it no longer watches; a second stop closes a closed channel,
  which panics.\<close>

theorem orchestrator_lifecycle:
  assumes "setupClients cs = None" and "order_of ord"
  shows "\<exists>p0 p1. NewIPAMK8SClient (Some cs) ord = Inr p0
    \<and> SetupCommunicationChannels p0 req resp = Inr p1
    \<and> map fst (ipamInformers (ipamCli (the p1))) = [DefaultNamespace]
    \<and> (\<not> synced DefaultNamespace \<longrightarrow> k8s_Start synced p1 = Inl Diverges)
    \<and> (synced DefaultNamespace \<longrightarrow> (\<exists>p2 p3. k8s_Start synced p1 = Inr p2 \<and> k8s_working p2
         \<and> k8s_connected p2 req resp
         \<and> k8s_Stop p2 = Inr p3 \<and> \<not> k8s_working p3 \<and> k8s_Stop p3 = Inl CloseOfClosedChannel))"
proof -
  let ?inf = "addEventHandlers (newNamespacedInformer DefaultNamespace) K8sHandlers"
  let ?k = "started_client\<lparr>reqChan := Some req, respChan := Some resp\<rparr>"
  let ?run = "?inf\<lparr>ipamInformer := map_option (\<lambda>si. si\<lparr>si_running := True\<rparr>) (ipamInformer ?inf)\<rparr>"
  let ?done = "?run\<lparr>inf_closed := True, ipamInformer := map_option (\<lambda>si. si\<lparr>si_running := False\<rparr>) (ipamInformer ?run)\<rparr>"
  have infs: "ipamInformers (ipamCli started_client) = [(DefaultNamespace, ?inf)]" by (simp add: started_client_def)
  have "\<not> synced DefaultNamespace \<Longrightarrow> k8s_Start synced (Some ?k) = Inl Diverges"
    by (simp add: k8s_Start_def cli_Start_def infs inf_start_def new_informer)
  moreover have "\<exists>p2 p3. k8s_Start synced (Some ?k) = Inr p2 \<and> k8s_working p2 \<and> k8s_connected p2 req resp
         \<and> k8s_Stop p2 = Inr p3 \<and> \<not> k8s_working p3 \<and> k8s_Stop p3 = Inl CloseOfClosedChannel"
    if "synced DefaultNamespace"
  proof -
    have "k8s_Start synced (Some ?k) = Inr (Some (?k\<lparr>ipamCli := (ipamCli ?k)\<lparr>ipamInformers := [(DefaultNamespace, ?run)]\<rparr>,
        workers := [''customResourceWorker'', ''responseWorker'']\<rparr>))" (is "_ = Inr ?p2")
      using that by (simp add: k8s_Start_def cli_Start_def infs inf_start_def new_informer) (simp add: started_client_def)
    moreover have "k8s_Stop ?p2 = Inr (Some (?k\<lparr>ipamCli := (ipamCli ?k)\<lparr>ipamInformers := [(DefaultNamespace, ?done)]\<rparr>,
        workers := [''customResourceWorker'', ''responseWorker'']\<rparr>))" (is "_ = Inr ?p3")
      by (simp add: k8s_Stop_def cli_Stop_def inf_stop_def new_informer)
    moreover have "k8s_Stop ?p3 = Inl CloseOfClosedChannel"
      by (simp add: k8s_Stop_def cli_Stop_def inf_stop_def)
    ultimately show ?thesis by (simp add: new_informer running_def)
  qed
  ultimately show ?thesis
    using NewIPAMK8SClient_new [OF assms] infs by (simp add: SetupCommunicationChannels_def)
qed

text \<open>C31: What the client watches: whatever order the map of namespaces is visited in, without the
  empty name it watches exactly the given namespaces, each through one informer with one
  set of handlers; the empty name alone watches all. Together with others it is refused:
  setting up the informers reports an error, but the constructor only logs it and returns
  a client that watches a part.\<close>

theorem watched_namespaces:
  assumes "setupClients cs = None" and "order_of ord"
  shows "\<exists>cli. NewIPAMClient cs ord h nss = Some cli \<and> watch_ok (ipamInformers cli)
    \<and> ([] \<notin> set nss \<longrightarrow> set (map fst (ipamInformers cli)) = set nss)
    \<and> (set nss = {[]} \<longrightarrow> map fst (ipamInformers cli) = [[]])
    \<and> ([] \<in> set nss \<and> set nss \<noteq> {[]} \<longrightarrow> set (map fst (ipamInformers cli)) \<subset> set nss
        \<and> fst (setupInformersWithEventHandlers ord h \<lparr>namespaces = remdups nss, ipamInformers = []\<rparr>) \<noteq> None)"
proof -
  let ?new = "\<lparr>namespaces = remdups nss, ipamInformers = []\<rparr> :: 'a IPAMClient" and ?nss = "ord (remdups nss)"
  have "mset ?nss = mset (remdups nss)" using assms(2) by (simp add: order_of_def)
  then have ord: "distinct ?nss" "set ?nss = set nss"
    by (metis distinct_remdups mset_eq_imp_distinct_iff, metis mset_eq_setD set_remdups)
  let ?out = "setup_informers h ?nss ?new"
  have new: "NewIPAMClient cs ord h nss = Some (snd ?out)" "setupInformersWithEventHandlers ord h ?new = ?out"
    using assms(1) by (simp_all add: NewIPAMClient_def setupInformersWithEventHandlers_def)
  have ok: "watch_ok (ipamInformers (snd ?out))" by (rule watch_ok_setup) (simp add: watch_ok_def)
  have sub: "fst ` set (ipamInformers (snd ?out)) \<subseteq> set nss"
    using setup_within [of h ?nss ?new] ord(2) by simp
  have specific: "set (map fst (ipamInformers (snd ?out))) = set nss" if "[] \<notin> set nss"
    using setup_specific [of ?nss ?new h] ord that by simp
  have single: "map fst (ipamInformers (snd ?out)) = [[]]" if "set nss = {[]}"
  proof -
    have "length ?nss = 1" using distinct_card [OF ord(1)] ord(2) that by simp
    then obtain x where x: "?nss = [x]" by (auto simp: length_Suc_conv)
    moreover have "x = []" using ord(2) that by (simp add: x)
    ultimately have "?nss = [[]]" by simp
    then show ?thesis by (simp add: addNamespacedInformer_def watchingAllNamespaces_def)
  qed
  have mixed: "fst ?out \<noteq> None" "fst ` set (ipamInformers (snd ?out)) \<subset> set nss"
    if "[] \<in> set nss" "set nss \<noteq> {[]}"
  proof -
    have "{[]} \<subset> set nss" using that by blast
    from psubset_card_mono [OF finite_set this] have "length ?nss > 1"
      using distinct_card [OF ord(1)] ord(2) by simp
    moreover have "?nss \<noteq> []" using ord(2) that(1) by (metis empty_iff list.set(1))
    ultimately show "fst ?out \<noteq> None" using setup_mixed [of ?nss ?new h] ord that(1) by auto
    have "map fst (ipamInformers (snd ?out)) = [[]]" if "[] \<in> fst ` set (ipamInformers (snd ?out))"
      using ok that by (simp add: watch_ok_def)
    then have "fst ` set (ipamInformers (snd ?out)) = {[]}" if "[] \<in> fst ` set (ipamInformers (snd ?out))"
      using that arg_cong [of _ _ set] by fastforce
    then have "fst ` set (ipamInformers (snd ?out)) \<noteq> set nss" using \<open>[] \<in> set nss\<close> \<open>set nss \<noteq> {[]}\<close> by blast
    with sub show "fst ` set (ipamInformers (snd ?out)) \<subset> set nss" by blast
  qed
  show ?thesis using new ok specific single mixed by (intro exI [of _ "snd ?out"]) simp
qed

theorem orchestrator_lifecycle_witness:
  "\<exists>p0 p1 p2 p3. NewIPAMK8SClient (Some \<lparr>kube_client_err = None, cr_client_err = None, rest_client_err = None\<rparr>) rev = Inr p0
    \<and> SetupCommunicationChannels p0 0 1 = Inr p1 \<and> k8s_Start (\<lambda>_. True) p1 = Inr p2
    \<and> k8s_Stop p2 = Inr p3 \<and> k8s_Stop p3 = Inl CloseOfClosedChannel"
  using orchestrator_lifecycle [of "\<lparr>kube_client_err = None, cr_client_err = None, rest_client_err = None\<rparr>" rev 0 1
      "\<lambda>_. True"] by (auto simp: setupClients_def order_of_def)

theorem watched_namespaces_witness:
  "\<exists>cli. NewIPAMClient \<lparr>kube_client_err = None, cr_client_err = None, rest_client_err = None\<rparr> rev ()
      [''kube-system'', [], ''default''] = Some cli \<and> watch_ok (ipamInformers cli)
    \<and> set (map fst (ipamInformers cli)) \<subset> {''kube-system'', [], ''default''}"
  using watched_namespaces [of "\<lparr>kube_client_err = None, cr_client_err = None, rest_client_err = None\<rparr>" rev "()"
      "[''kube-system'', [], ''default'']"] by (auto simp: setupClients_def order_of_def)

text \<open>C32: The calls of the client over an API server that answers as documented are what the
  answer worker needs: the answers for a resource, written through them, change its status
  list as the list specification says and no other status.\<close>

theorem rest_answers_written:
  assumes "rest_server c do stored"
    and "list_all (\<lambda>resp. Metadata (Request resp) = Meta \<lparr>meta_name = nm, meta_namespace = ns\<rparr>) resps"
    and "map_option status_of (stored api (ns, nm)) = Some (map Some sts)"
  shows "\<exists>api'. processResponse (client_api c do) api resps = Inr api'
    \<and> (\<forall>k. map_option status_of (stored api' k) =
        (if k = (ns, nm) then Some (map Some (fold status_after resps sts))
         else map_option status_of (stored api k)))"
  by (rule rest_server.client_responses [OF assms])

theorem rest_answers_written_witness:
  "\<exists>api'. processResponse (client_api ref_client ref_rest) [ex_rsc [] []]
        [reply (create_request ex_meta ''a.com'' ex_cidr []) ''192.168.1.1'' True] = Inr api'
    \<and> map_option status_of (rest_find api' (''kube-system'', ''ipam'')) =
        Some [Some \<lparr>ips_Host = ''a.com'', ips_Cidr = ex_cidr, ips_IP = ''192.168.1.1''\<rparr>]"
proof -
  let ?resps = "[reply (create_request ex_meta ''a.com'' ex_cidr []) ''192.168.1.1'' True]"
  have resps: "list_all (\<lambda>resp. Metadata (Request resp) = ex_meta) ?resps" by (simp add: reply_def)
  have "name_ok ''kube-system''" "name_ok ''ipam''" by code_simp+
  then have old: "map_option status_of (rest_find [ex_rsc [] []] (''kube-system'', ''ipam'')) = Some (map Some [])"
    using ex_rsc_stored by (simp add: rest_find_def)
  note written = rest_answers_written [of ref_client ref_rest rest_find "''ipam''" "''kube-system''" ?resps
      "[ex_rsc [] []]" "[]", OF ref_rest.rest_server_axioms resps old]
  from written
  obtain api' where run: "processResponse (client_api ref_client ref_rest) [ex_rsc [] []] ?resps = Inr api'"
    and st: "\<forall>k. map_option status_of (rest_find api' k) =
        (if k = (''kube-system'', ''ipam'') then Some (map Some (fold status_after ?resps []))
         else map_option status_of (rest_find [ex_rsc [] []] k))"
    by blast
  have "fold status_after ?resps [] = [\<lparr>ips_Host = ''a.com'', ips_Cidr = ex_cidr, ips_IP = ''192.168.1.1''\<rparr>]"
    by (simp add: status_after_def status_put_def reply_def)
  with run st [rule_format, of "(''kube-system'', ''ipam'')"] show ?thesis by auto
qed

section \<open>The logger\<close>

text \<open>C33: Once the arguments are accepted, the package logs at the requested level: a call prints
  one line, with the tag of its level, exactly when its level is at least the requested one,
  informational lines to the standard output and all others to the standard error, and the
  writer is the standard error again. The flags are lower-cased and unquoted.\<close>

theorem accepted_args_filter:
  assumes "NewLogLevel (flag_logLevel flags) = Some ll" and "flag_orch flags \<noteq> []"
    and "flag_iprange flags \<noteq> [] \<or> to_lower (flag_provider flags) \<noteq> DefaultProvider" and "level_ok k"
  shows "\<exists>flags1 st0 st st1. vlog_init = Inr st0 \<and> verifyArgs ptr flags st0 = Inr (None, flags1, st)
    \<and> flag_provider flags1 = to_lower (flag_provider flags)
    \<and> flag_iprange flags1 = str_trim (CHR 0x27) (str_trim dquote (flag_iprange flags))
    \<and> GetLogLevel st = ll
    \<and> vlog_call k msg st = Inr st1
    \<and> log_lines (std st1) = (if ll \<le> k then [(level_writer k, level_tag k @ '' '' @ msg)] else [])
    \<and> log_writer (std st1) = Stderr"
proof -
  have "args_ok flags" using assms(1-3) by (simp add: args_ok_def)
  with verifyArgs_eq [of ptr flags] assms(1) obtain flags1 where
    "verifyArgs ptr flags init_state = Inr (None, flags1, level_state ll)"
    "flag_provider flags1 = to_lower (flag_provider flags)"
    "flag_iprange flags1 = str_trim (CHR 0x27) (str_trim dquote (flag_iprange flags))" by auto
  moreover have "GetLogLevel (level_state ll) = ll" by (simp add: GetLogLevel_def level_state_def)
  ultimately show ?thesis
    using level_state_prints [OF NewLogLevel_ok [OF assms(1)] assms(4), of msg] vlog_init_eq by fastforce
qed

theorem accepted_args_filter_witness:
  "\<exists>flags1 st0 st st1. vlog_init = Inr st0
    \<and> verifyArgs ''0xc000010250'' (default_flags\<lparr>flag_orch := ''Kubernetes'', flag_iprange := ''x''\<rparr>) st0 = Inr (None, flags1, st)
    \<and> vlog_call LL_DEBUG ''hidden'' st = Inr st1 \<and> log_lines (std st1) = []"
proof -
  have "NewLogLevel ''INFO'' = Some LL_INFO" by code_simp
  moreover have "level_ok LL_DEBUG" "\<not> LL_INFO \<le> LL_DEBUG" by (simp_all add: level_ok_def level_defs)
  ultimately show ?thesis
    using accepted_args_filter [of "default_flags\<lparr>flag_orch := ''Kubernetes'', flag_iprange := ''x''\<rparr>" LL_INFO LL_DEBUG
        "''0xc000010250''" "''hidden''"]
    by (auto simp: default_flags_def)
qed

text \<open>The text of a level parses back to it, in any letter case; every other value is written
  as a text that does not parse.\<close>

theorem level_text_roundtrip:
  "UnmarshalJSON (MarshalJSON ll) = (if LL_MIN_LEVEL \<le> ll \<and> ll \<le> LL_MAX_LEVEL then Some ll else None)
   \<and> NewLogLevel (to_lower s) = NewLogLevel s"
proof -
  have "to_lower (to_lower s) = to_lower s"
    by (simp add: to_lower_def Let_def)
  then show ?thesis using level_text [of ll] by (simp add: level_ok_def NewLogLevel_def)
qed

end
