(* ===== verification/Deepcopy.thy ===== *)
theory Deepcopy
  imports Fic
begin

text \<open>
  The copy functions of \<open>pkg/ipamapis/apis/fic/v1/zz_generated.deepcopy.go\<close>, on an explicit
  heap: the lists of a resource are slices of pointers, so a copied struct shares its
  arrays and cells with the original unless they are copied too. A slice is an array with
  an offset and a length, \<open>None\<close> the nil slice. The struct a pointer leads to is given by its
  value, as the functions write to a new one only.
\<close>

section \<open>Memory\<close>

record 'a mem =
  cells :: "'a list"
  arrays :: "nat option list list"

type_synonym slice = "(nat \<times> nat \<times> nat) option"

record heap =
  h_hosts :: "HostSpec mem"
  h_ips :: "IPSpec mem"

record spec_v =
  v_HostSpecs :: slice

record status_v =
  v_IPStatus :: slice

text \<open>The metadata that is modelled are strings, which are copied with the struct.\<close>

record f5ipam_v =
  v_Name :: string
  v_Namespace :: string
  v_ResourceVersion :: string
  v_Spec :: spec_v
  v_Status :: status_v

section \<open>The copy functions\<close>

definition mem_new :: "'a mem \<Rightarrow> 'a \<Rightarrow> nat \<times> 'a mem" where
  "mem_new m x = (length (cells m), m\<lparr>cells := cells m @ [x]\<rparr>)"

text \<open>\<open>for i := range *in { if (*in)[i] != nil { *out = new(T); **out = **in } }\<close>\<close>

fun copy_pointers :: "'a mem \<Rightarrow> nat option list \<Rightarrow> nat option list \<times> 'a mem" where
  "copy_pointers m [] = ([], m)"
| "copy_pointers m (None # ps) =
     (case copy_pointers m ps of (qs, m1) \<Rightarrow> (None # qs, m1))"
| "copy_pointers m (Some p # ps) =
     (case mem_new m (cells m ! p) of (q, m1) \<Rightarrow>
        (case copy_pointers m1 ps of (qs, m2) \<Rightarrow> (Some q # qs, m2)))"

definition slice_items :: "'a mem \<Rightarrow> nat \<times> nat \<times> nat \<Rightarrow> nat option list" where
  "slice_items m s = (case s of (a, i, n) \<Rightarrow> take n (drop i (arrays m ! a)))"

text \<open>\<open>make\<close> and the loop: a new array for a slice that is not nil.\<close>

definition copy_slice :: "'a mem \<Rightarrow> slice \<Rightarrow> slice \<times> 'a mem" where
  "copy_slice m s =
     (case s of
        None \<Rightarrow> (None, m)
      | Some d \<Rightarrow>
          (case copy_pointers m (slice_items m d) of (qs, m1) \<Rightarrow>
             (Some (length (arrays m1), 0, length qs), m1\<lparr>arrays := arrays m1 @ [qs]\<rparr>)))"

definition HostSpec_DeepCopyInto :: "HostSpec \<Rightarrow> HostSpec" where
  "HostSpec_DeepCopyInto x = x"

definition IPSpec_DeepCopyInto :: "IPSpec \<Rightarrow> IPSpec" where
  "IPSpec_DeepCopyInto x = x"

definition HostSpec_DeepCopy :: "heap \<Rightarrow> nat option \<Rightarrow> nat option \<times> heap" where
  "HostSpec_DeepCopy h p =
     (case p of
        None \<Rightarrow> (None, h)
      | Some a \<Rightarrow> (case mem_new (h_hosts h) (HostSpec_DeepCopyInto (cells (h_hosts h) ! a)) of (q, m) \<Rightarrow>
                     (Some q, h\<lparr>h_hosts := m\<rparr>)))"

definition IPSpec_DeepCopy :: "heap \<Rightarrow> nat option \<Rightarrow> nat option \<times> heap" where
  "IPSpec_DeepCopy h p =
     (case p of
        None \<Rightarrow> (None, h)
      | Some a \<Rightarrow> (case mem_new (h_ips h) (IPSpec_DeepCopyInto (cells (h_ips h) ! a)) of (q, m) \<Rightarrow>
                     (Some q, h\<lparr>h_ips := m\<rparr>)))"

definition F5IPAMSpec_DeepCopyInto :: "heap \<Rightarrow> spec_v \<Rightarrow> spec_v \<times> heap" where
  "F5IPAMSpec_DeepCopyInto h x =
     (case copy_slice (h_hosts h) (v_HostSpecs x) of (s, m) \<Rightarrow>
        (x\<lparr>v_HostSpecs := s\<rparr>, h\<lparr>h_hosts := m\<rparr>))"

definition F5IPAMStatus_DeepCopyInto :: "heap \<Rightarrow> status_v \<Rightarrow> status_v \<times> heap" where
  "F5IPAMStatus_DeepCopyInto h x =
     (case copy_slice (h_ips h) (v_IPStatus x) of (s, m) \<Rightarrow>
        (x\<lparr>v_IPStatus := s\<rparr>, h\<lparr>h_ips := m\<rparr>))"

definition F5IPAM_DeepCopyInto :: "heap \<Rightarrow> f5ipam_v \<Rightarrow> f5ipam_v \<times> heap" where
  "F5IPAM_DeepCopyInto h x =
     (case F5IPAMSpec_DeepCopyInto h (v_Spec x) of (sp, h1) \<Rightarrow>
        (case F5IPAMStatus_DeepCopyInto h1 (v_Status x) of (st, h2) \<Rightarrow>
           (x\<lparr>v_Spec := sp, v_Status := st\<rparr>, h2)))"

text \<open>\<open>if in == nil { return nil }; out := new(T); in.DeepCopyInto(out); return out\<close>\<close>

definition deep_copy :: "(heap \<Rightarrow> 'v \<Rightarrow> 'v \<times> heap) \<Rightarrow> heap \<Rightarrow> 'v option \<Rightarrow> 'v option \<times> heap" where
  "deep_copy into h p =
     (case p of None \<Rightarrow> (None, h) | Some x \<Rightarrow> (case into h x of (y, h1) \<Rightarrow> (Some y, h1)))"

definition F5IPAMSpec_DeepCopy where "F5IPAMSpec_DeepCopy = deep_copy F5IPAMSpec_DeepCopyInto"
definition F5IPAMStatus_DeepCopy where "F5IPAMStatus_DeepCopy = deep_copy F5IPAMStatus_DeepCopyInto"
definition F5IPAM_DeepCopy where "F5IPAM_DeepCopy = deep_copy F5IPAM_DeepCopyInto"

text \<open>The list: its items are structs in an array.\<close>

record f5list_v =
  v_ListVersion :: string
  v_Items :: "f5ipam_v list option"

fun copy_items :: "heap \<Rightarrow> f5ipam_v list \<Rightarrow> f5ipam_v list \<times> heap" where
  "copy_items h [] = ([], h)"
| "copy_items h (x # xs) =
     (case F5IPAM_DeepCopyInto h x of (y, h1) \<Rightarrow>
        (case copy_items h1 xs of (ys, h2) \<Rightarrow> (y # ys, h2)))"

definition F5IPAMList_DeepCopyInto :: "heap \<Rightarrow> f5list_v \<Rightarrow> f5list_v \<times> heap" where
  "F5IPAMList_DeepCopyInto h x =
     (case v_Items x of
        None \<Rightarrow> (x, h)
      | Some xs \<Rightarrow> (case copy_items h xs of (ys, h1) \<Rightarrow> (x\<lparr>v_Items := Some ys\<rparr>, h1)))"

definition F5IPAMList_DeepCopy where "F5IPAMList_DeepCopy = deep_copy F5IPAMList_DeepCopyInto"

text \<open>The \<open>runtime.Object\<close> variants return a nil interface for a nil pointer.\<close>

definition F5IPAM_DeepCopyObject :: "heap \<Rightarrow> f5ipam_v option \<Rightarrow> f5ipam_v option option \<times> heap" where
  "F5IPAM_DeepCopyObject h p =
     (case F5IPAM_DeepCopy h p of (c, h1) \<Rightarrow> (if c \<noteq> None then Some c else None, h1))"

definition F5IPAMList_DeepCopyObject :: "heap \<Rightarrow> f5list_v option \<Rightarrow> f5list_v option option \<times> heap" where
  "F5IPAMList_DeepCopyObject h p =
     (case F5IPAMList_DeepCopy h p of (c, h1) \<Rightarrow> (if c \<noteq> None then Some c else None, h1))"

section \<open>What a slice reads and reaches\<close>

definition view_slice :: "'a mem \<Rightarrow> slice \<Rightarrow> 'a option list option" where
  "view_slice m s = map_option (\<lambda>d. map (map_option ((!) (cells m))) (slice_items m d)) s"

definition slice_ok :: "'a mem \<Rightarrow> slice \<Rightarrow> bool" where
  "slice_ok m s \<longleftrightarrow> (case s of None \<Rightarrow> True
     | Some (a, i, n) \<Rightarrow> a < length (arrays m) \<and> i + n \<le> length (arrays m ! a)
         \<and> (\<forall>p. Some p \<in> set (slice_items m (a, i, n)) \<longrightarrow> p < length (cells m)))"

text \<open>The arrays and cells a slice leads to, and memories that differ outside of them only.\<close>

definition slice_arrays :: "slice \<Rightarrow> nat set" where
  "slice_arrays s = (case s of None \<Rightarrow> {} | Some (a, i, n) \<Rightarrow> {a})"

definition slice_cells :: "'a mem \<Rightarrow> slice \<Rightarrow> nat set" where
  "slice_cells m s = (case s of None \<Rightarrow> {} | Some d \<Rightarrow> {p. Some p \<in> set (slice_items m d)})"

definition same_mem :: "'a mem \<Rightarrow> 'a mem \<Rightarrow> nat set \<Rightarrow> nat set \<Rightarrow> bool" where
  "same_mem m m' A C \<longleftrightarrow> (\<forall>a\<in>A. arrays m' ! a = arrays m ! a) \<and> (\<forall>c\<in>C. cells m' ! c = cells m ! c)"

lemma view_frame:
  assumes "same_mem m m' (slice_arrays s) (slice_cells m s)"
  shows "view_slice m' s = view_slice m s"
proof (cases s)
  case (Some d)
  obtain a i n where d: "d = (a, i, n)" by (cases d)
  have items: "slice_items m' d = slice_items m d"
    using assms Some d by (simp add: same_mem_def slice_arrays_def slice_items_def)
  have "map_option ((!) (cells m')) x = map_option ((!) (cells m)) x" if "x \<in> set (slice_items m d)" for x
    using assms Some that by (cases x) (auto simp: same_mem_def slice_cells_def)
  then show ?thesis by (simp add: Some view_slice_def items cong: map_cong)
qed (simp add: view_slice_def)

text \<open>Copying only adds to the memory.\<close>

definition extends :: "'a mem \<Rightarrow> 'a mem \<Rightarrow> bool" where
  "extends m m' \<longleftrightarrow> (\<exists>cs as. cells m' = cells m @ cs \<and> arrays m' = arrays m @ as)"

lemma extends_refl [simp]: "extends m m"
  by (simp add: extends_def)

lemma extends_trans [trans]: "extends m m' \<Longrightarrow> extends m' m'' \<Longrightarrow> extends m m''"
  by (auto simp: extends_def)

lemma extends_same:
  assumes "extends m m'" "slice_ok m s"
  shows "same_mem m m' (slice_arrays s) (slice_cells m s)"
  using assms by (auto simp: extends_def same_mem_def slice_ok_def slice_arrays_def slice_cells_def
      nth_append split: option.splits prod.splits)

lemma extends_ok: "extends m m' \<Longrightarrow> slice_ok m s \<Longrightarrow> slice_ok m' s"
  by (fastforce simp: extends_def slice_ok_def slice_items_def nth_append split: option.splits prod.splits)

lemma copy_pointers_fresh:
  assumes "copy_pointers m ps = (qs, m')" and "\<forall>p. Some p \<in> set ps \<longrightarrow> p < length (cells m)"
  shows "arrays m' = arrays m" and "\<exists>cs. cells m' = cells m @ cs"
    and "length qs = length ps"
    and "map (map_option ((!) (cells m'))) qs = map (map_option ((!) (cells m))) ps"
    and "\<forall>q. Some q \<in> set qs \<longrightarrow> length (cells m) \<le> q \<and> q < length (cells m')"
  unfolding atomize_conj
  using assms
proof (induction m ps arbitrary: qs m' rule: copy_pointers.induct)
  case (1 m)
  then show ?case by simp
next
  case (2 m ps)
  obtain qs1 m1 where c: "copy_pointers m ps = (qs1, m1)" by (cases "copy_pointers m ps")
  from "2.IH" [OF c] "2.prems" c show ?case by auto
next
  case (3 m p ps)
  let ?m = "m\<lparr>cells := cells m @ [cells m ! p]\<rparr>"
  obtain qs1 m1 where c: "copy_pointers ?m ps = (qs1, m1)" by (cases "copy_pointers ?m ps")
  have eq: "qs = Some (length (cells m)) # qs1" "m' = m1" using "3.prems"(1) c by (simp_all add: mem_new_def)
  have bound: "\<forall>p. Some p \<in> set ps \<longrightarrow> p < length (cells ?m)" using "3.prems"(2) by (auto simp: less_Suc_eq)
  have IH: "arrays m1 = arrays ?m" "\<exists>cs. cells m1 = cells ?m @ cs" "length qs1 = length ps"
    "map (map_option ((!) (cells m1))) qs1 = map (map_option ((!) (cells ?m))) ps"
    "\<forall>q. Some q \<in> set qs1 \<longrightarrow> length (cells ?m) \<le> q \<and> q < length (cells m1)"
    using "3.IH" [OF mem_new_def [symmetric] c bound] by simp_all
  obtain cs where cs: "cells m1 = cells m @ (cells m ! p) # cs" using IH(2) by auto
  have "map (map_option ((!) (cells ?m))) ps = map (map_option ((!) (cells m))) ps"
    using "3.prems"(2) by (auto simp: nth_append map_option_case split: option.splits)
  with IH cs show ?case by (force simp: eq)
qed

lemma copy_slice_fresh:
  assumes "copy_slice m s = (s', m')" and "slice_ok m s"
  shows "extends m m'" and "slice_ok m' s'" and "view_slice m' s' = view_slice m s"
    and "slice_arrays s' \<inter> {..<length (arrays m)} = {}"
    and "slice_cells m' s' \<inter> {..<length (cells m)} = {}"
    and "s' = None \<longleftrightarrow> s = None"
proof -
  have "extends m m' \<and> slice_ok m' s' \<and> view_slice m' s' = view_slice m s
    \<and> slice_arrays s' \<inter> {..<length (arrays m)} = {} \<and> slice_cells m' s' \<inter> {..<length (cells m)} = {}
    \<and> (s' = None \<longleftrightarrow> s = None)"
  proof (cases s)
    case None
    then show ?thesis using assms(1)
      by (auto simp: copy_slice_def slice_ok_def slice_arrays_def slice_cells_def)
  next
    case (Some d)
    obtain qs m1 where c: "copy_pointers m (slice_items m d) = (qs, m1)" by (cases "copy_pointers m (slice_items m d)")
    have "\<forall>p. Some p \<in> set (slice_items m d) \<longrightarrow> p < length (cells m)"
      using assms(2) Some by (auto simp: slice_ok_def split: prod.splits)
    note f = copy_pointers_fresh [OF c this]
    have eq: "s' = Some (length (arrays m), 0, length qs)" "m' = m1\<lparr>arrays := arrays m @ [qs]\<rparr>"
      using assms(1) Some c f(1) by (simp_all add: copy_slice_def)
    have items: "slice_items m' (length (arrays m), 0, length qs) = qs" by (simp add: eq slice_items_def)
    obtain cs where cs: "cells m' = cells m @ cs" using f(2) eq(2) by auto
    have ext: "extends m m'" using cs f(1) by (auto simp: extends_def eq(2))
    have view: "view_slice m' s' = view_slice m s"
      using f(4) items by (simp add: view_slice_def eq(1) Some) (simp add: eq(2))
    have fresh: "slice_arrays s' = {length (arrays m)}" "slice_cells m' s' = {q. Some q \<in> set qs}"
      using items by (simp_all add: eq(1) slice_arrays_def slice_cells_def)
    have "slice_ok m' s'"
      using f(5) items f(1) unfolding slice_ok_def eq(1) by (simp add: eq(2) nth_append)
    moreover have "slice_cells m' s' \<inter> {..<length (cells m)} = {}" using f(5) by (force simp: fresh(2))
    moreover have "slice_arrays s' \<inter> {..<length (arrays m)} = {}" by (simp add: fresh(1))
    ultimately show ?thesis using ext view eq(1) Some by blast
  qed
  then show "extends m m'" "slice_ok m' s'" "view_slice m' s' = view_slice m s"
    "slice_arrays s' \<inter> {..<length (arrays m)} = {}" "slice_cells m' s' \<inter> {..<length (cells m)} = {}"
    "s' = None \<longleftrightarrow> s = None" by blast+
qed

section \<open>Copy and original are separate\<close>

lemma same_mem_anti: "same_mem m m' A C \<Longrightarrow> B \<subseteq> A \<Longrightarrow> D \<subseteq> C \<Longrightarrow> same_mem m m' B D"
  by (auto simp: same_mem_def)

lemma copy_slice_separate:
  assumes c: "copy_slice m s = (s', m')" and ok: "slice_ok m s"
  shows "same_mem m' m2 (- slice_arrays s) (- slice_cells m' s) \<Longrightarrow> view_slice m2 s' = view_slice m s"
    and "same_mem m' m2 (- slice_arrays s') (- slice_cells m' s') \<Longrightarrow> view_slice m2 s = view_slice m s"
    and "view_slice m' s = view_slice m s"
proof -
  note f = copy_slice_fresh [OF c ok]
  note same = extends_same [OF f(1) ok]
  show orig: "view_slice m' s = view_slice m s" by (rule view_frame [OF same])
  have arr: "slice_arrays s \<subseteq> {..<length (arrays m)}" "slice_cells m s \<subseteq> {..<length (cells m)}"
    using ok by (auto simp: slice_ok_def slice_arrays_def slice_cells_def split: option.splits prod.splits)
  have "slice_cells m' s = slice_cells m s"
    using same by (auto simp: same_mem_def slice_arrays_def slice_cells_def slice_items_def split: option.splits prod.splits)
  then have dis: "slice_arrays s' \<subseteq> - slice_arrays s" "slice_cells m' s' \<subseteq> - slice_cells m' s"
    using f(4,5) arr by auto
  show "view_slice m2 s' = view_slice m s" if "same_mem m' m2 (- slice_arrays s) (- slice_cells m' s)"
    using view_frame [OF same_mem_anti [OF that dis]] f(3) by simp
  show "view_slice m2 s = view_slice m s" if "same_mem m' m2 (- slice_arrays s') (- slice_cells m' s')"
  proof -
    have "slice_arrays s \<subseteq> - slice_arrays s'" "slice_cells m' s \<subseteq> - slice_cells m' s'" using dis by auto
    from view_frame [OF same_mem_anti [OF that this]] orig show ?thesis by simp
  qed
qed

definition view_obj where
  "view_obj h x = (v_Name x, v_Namespace x, v_ResourceVersion x,
     view_slice (h_hosts h) (v_HostSpecs (v_Spec x)), view_slice (h_ips h) (v_IPStatus (v_Status x)))"

definition obj_ok :: "heap \<Rightarrow> f5ipam_v \<Rightarrow> bool" where
  "obj_ok h x \<longleftrightarrow> slice_ok (h_hosts h) (v_HostSpecs (v_Spec x)) \<and> slice_ok (h_ips h) (v_IPStatus (v_Status x))"

text \<open>\<open>h2\<close> is \<open>h\<close> after any writes to the arrays and cells the object leads to.\<close>

definition written_through :: "f5ipam_v \<Rightarrow> heap \<Rightarrow> heap \<Rightarrow> bool" where
  "written_through x h h2 \<longleftrightarrow>
     (let hs = v_HostSpecs (v_Spec x); ss = v_IPStatus (v_Status x) in
      same_mem (h_hosts h) (h_hosts h2) (- slice_arrays hs) (- slice_cells (h_hosts h) hs) \<and>
      same_mem (h_ips h) (h_ips h2) (- slice_arrays ss) (- slice_cells (h_ips h) ss))"

definition heap_extends :: "heap \<Rightarrow> heap \<Rightarrow> bool" where
  "heap_extends h h' \<longleftrightarrow> extends (h_hosts h) (h_hosts h') \<and> extends (h_ips h) (h_ips h')"

lemma DeepCopyInto_slices:
  assumes "F5IPAM_DeepCopyInto h x = (y, h')"
  shows "copy_slice (h_hosts h) (v_HostSpecs (v_Spec x)) = (v_HostSpecs (v_Spec y), h_hosts h')"
    and "copy_slice (h_ips h) (v_IPStatus (v_Status x)) = (v_IPStatus (v_Status y), h_ips h')"
    and "v_Name y = v_Name x \<and> v_Namespace y = v_Namespace x \<and> v_ResourceVersion y = v_ResourceVersion x"
  using assms by (auto simp: F5IPAM_DeepCopyInto_def F5IPAMSpec_DeepCopyInto_def
      F5IPAMStatus_DeepCopyInto_def split: prod.splits)

lemma DeepCopyInto_separate:
  assumes c: "F5IPAM_DeepCopyInto h x = (y, h')" and ok: "obj_ok h x"
  shows "view_obj h' y = view_obj h x" and "view_obj h' x = view_obj h x"
    and "written_through x h' h2 \<Longrightarrow> view_obj h2 y = view_obj h x"
    and "written_through y h' h2 \<Longrightarrow> view_obj h2 x = view_obj h x"
    and "heap_extends h h'" and "obj_ok h' y"
proof -
  note s = DeepCopyInto_slices [OF c]
  have oks: "slice_ok (h_hosts h) (v_HostSpecs (v_Spec x))" "slice_ok (h_ips h) (v_IPStatus (v_Status x))"
    using ok by (simp_all add: obj_ok_def)
  note f1 = copy_slice_fresh [OF s(1) oks(1)] and f2 = copy_slice_fresh [OF s(2) oks(2)]
  note p1 = copy_slice_separate [OF s(1) oks(1)] and p2 = copy_slice_separate [OF s(2) oks(2)]
  show "view_obj h' y = view_obj h x" "view_obj h' x = view_obj h x" "heap_extends h h'" "obj_ok h' y"
    using f1 f2 p1(3) p2(3) s(3) by (simp_all add: view_obj_def heap_extends_def obj_ok_def)
  show "view_obj h2 y = view_obj h x" if "written_through x h' h2"
    using that p1(1) p2(1) s(3) by (simp add: written_through_def Let_def view_obj_def)
  show "view_obj h2 x = view_obj h x" if "written_through y h' h2"
    using that p1(2) p2(2) by (simp add: written_through_def Let_def view_obj_def)
qed

lemma heap_extends_trans: "heap_extends h h1 \<Longrightarrow> heap_extends h1 h2 \<Longrightarrow> heap_extends h h2"
  by (auto simp: heap_extends_def intro: extends_trans)

lemma heap_extends_obj:
  assumes "heap_extends h h'" "obj_ok h x"
  shows "obj_ok h' x" and "view_obj h' x = view_obj h x"
  using assms by (auto simp: heap_extends_def obj_ok_def view_obj_def
      intro: extends_ok view_frame [OF extends_same])

text \<open>The items of a list, one after the other.\<close>

lemma copy_items_view:
  assumes "copy_items h xs = (ys, h')" and "list_all (obj_ok h) xs"
  shows "heap_extends h h' \<and> map (view_obj h') ys = map (view_obj h) xs \<and> list_all (obj_ok h') ys"
  using assms
proof (induction xs arbitrary: h ys)
  case Nil
  then show ?case by (simp add: heap_extends_def)
next
  case (Cons x xs)
  obtain y h1 where y: "F5IPAM_DeepCopyInto h x = (y, h1)" by (cases "F5IPAM_DeepCopyInto h x")
  obtain zs where zs: "copy_items h1 xs = (zs, h')" "ys = y # zs"
    using Cons.prems(1) y by (auto split: prod.splits)
  have okx: "obj_ok h x" and okxs: "list_all (obj_ok h) xs" using Cons.prems(2) by simp_all
  note d = DeepCopyInto_separate [OF y okx]
  have "list_all (obj_ok h1) xs" using okxs heap_extends_obj [OF d(5)] by (simp add: list_all_iff)
  from Cons.IH [OF zs(1) this] have IH: "heap_extends h1 h'" "map (view_obj h') zs = map (view_obj h1) xs"
    "list_all (obj_ok h') zs" by simp_all
  have "map (view_obj h1) xs = map (view_obj h) xs"
    using okxs heap_extends_obj(2) [OF d(5)] by (simp add: list_all_iff)
  with IH d heap_extends_obj [OF IH(1) d(6)] heap_extends_trans [OF d(5) IH(1)] show ?case
    by (simp add: zs(2))
qed

text \<open>
  The resource as the other theories have it, a value: a nil slice and an empty one read
  the same. Functions on such values work on a copy as on the original.
\<close>

definition as_list :: "'a list option \<Rightarrow> 'a list" where
  "as_list xs = (case xs of None \<Rightarrow> [] | Some ys \<Rightarrow> ys)"

definition resource_of :: "heap \<Rightarrow> f5ipam_v \<Rightarrow> F5IPAM" where
  "resource_of h x = \<lparr>Name = v_Name x, Namespace = v_Namespace x, ResourceVersion = v_ResourceVersion x,
     Spec = \<lparr>HostSpecs = as_list (view_slice (h_hosts h) (v_HostSpecs (v_Spec x)))\<rparr>,
     RscStatus = \<lparr>IPStatus = as_list (view_slice (h_ips h) (v_IPStatus (v_Status x)))\<rparr>\<rparr>"

lemma resource_of_view: "view_obj h x = view_obj h' x' \<Longrightarrow> resource_of h x = resource_of h' x'"
  by (simp add: view_obj_def resource_of_def)

section \<open>The property\<close>

text \<open>C29: A deep copy reads the same as the original and shares nothing with it: whatever is later
  written through the pointers of the original, the copy still reads what the original
  read, and the other way round. A nil pointer is copied to nil.\<close>

theorem deep_copy_separate:
  assumes "obj_ok h x"
  shows "F5IPAM_DeepCopy h None = (None, h)
    \<and> (\<exists>y h'. F5IPAM_DeepCopy h (Some x) = (Some y, h')
         \<and> view_obj h' y = view_obj h x \<and> view_obj h' x = view_obj h x \<and> obj_ok h' y
         \<and> (\<forall>h2. written_through x h' h2 \<longrightarrow> view_obj h2 y = view_obj h x)
         \<and> (\<forall>h2. written_through y h' h2 \<longrightarrow> view_obj h2 x = view_obj h x))"
proof -
  obtain y h' where c: "F5IPAM_DeepCopyInto h x = (y, h')" by (cases "F5IPAM_DeepCopyInto h x")
  then have "F5IPAM_DeepCopy h (Some x) = (Some y, h')" by (simp add: F5IPAM_DeepCopy_def deep_copy_def)
  with DeepCopyInto_separate [OF c assms] show ?thesis by (auto simp: F5IPAM_DeepCopy_def deep_copy_def)
qed

definition ex_heap :: heap where
  "ex_heap = \<lparr>h_hosts = \<lparr>cells = [\<lparr>hs_Host = ''a.com'', hs_Cidr = ''n''\<rparr>], arrays = [[Some 0, None]]\<rparr>,
     h_ips = \<lparr>cells = [], arrays = []\<rparr>\<rparr>"

definition ex_obj :: f5ipam_v where
  "ex_obj = \<lparr>v_Name = ''ipam'', v_Namespace = ''kube-system'', v_ResourceVersion = [],
     v_Spec = \<lparr>v_HostSpecs = Some (0, 0, 2)\<rparr>, v_Status = \<lparr>v_IPStatus = None\<rparr>\<rparr>"

text \<open>The host of the original is renamed; the copy keeps it.\<close>

theorem deep_copy_separate_witness:
  "\<exists>y h' (h2 :: heap). F5IPAM_DeepCopy ex_heap (Some ex_obj) = (Some y, h')
    \<and> cells (h_hosts h2) ! 0 = \<lparr>hs_Host = ''b.com'', hs_Cidr = ''n''\<rparr>
    \<and> view_slice (h_hosts h2) (v_HostSpecs (v_Spec ex_obj)) = Some [Some \<lparr>hs_Host = ''b.com'', hs_Cidr = ''n''\<rparr>, None]
    \<and> view_slice (h_hosts h2) (v_HostSpecs (v_Spec y)) = Some [Some \<lparr>hs_Host = ''a.com'', hs_Cidr = ''n''\<rparr>, None]"
proof -
  let ?b = "\<lparr>hs_Host = ''b.com'', hs_Cidr = ''n''\<rparr>"
  have ok: "obj_ok ex_heap ex_obj"
    by (auto simp: obj_ok_def slice_ok_def ex_heap_def ex_obj_def slice_items_def)
  from deep_copy_separate [OF ok] obtain y h' where
    c: "F5IPAM_DeepCopy ex_heap (Some ex_obj) = (Some y, h')"
    and v: "view_obj h' ex_obj = view_obj ex_heap ex_obj"
    and w: "\<And>h2. written_through ex_obj h' h2 \<Longrightarrow> view_obj h2 y = view_obj ex_heap ex_obj" by blast
  have h': "arrays (h_hosts h') ! 0 = [Some 0, None]" "0 < length (cells (h_hosts h'))"
    using c by (auto simp: F5IPAM_DeepCopy_def deep_copy_def F5IPAM_DeepCopyInto_def F5IPAMSpec_DeepCopyInto_def
        F5IPAMStatus_DeepCopyInto_def copy_slice_def ex_heap_def ex_obj_def slice_items_def mem_new_def)
  let ?h2 = "h'\<lparr>h_hosts := (h_hosts h')\<lparr>cells := (cells (h_hosts h'))[0 := ?b]\<rparr>\<rparr>"
  have "written_through ex_obj h' ?h2"
    using h' by (auto simp: written_through_def Let_def same_mem_def slice_arrays_def slice_cells_def
        ex_obj_def slice_items_def nth_list_update)
  then have "view_obj ?h2 y = view_obj ex_heap ex_obj" by (rule w)
  then have "view_slice (h_hosts ?h2) (v_HostSpecs (v_Spec y)) =
      view_slice (h_hosts ex_heap) (v_HostSpecs (v_Spec ex_obj))" by (simp add: view_obj_def)
  also have "\<dots> = Some [Some \<lparr>hs_Host = ''a.com'', hs_Cidr = ''n''\<rparr>, None]"
    by (simp add: view_slice_def slice_items_def ex_heap_def ex_obj_def)
  finally have copy: "view_slice (h_hosts ?h2) (v_HostSpecs (v_Spec y)) =
      Some [Some \<lparr>hs_Host = ''a.com'', hs_Cidr = ''n''\<rparr>, None]" .
  have orig: "cells (h_hosts ?h2) ! 0 = ?b"
    "view_slice (h_hosts ?h2) (v_HostSpecs (v_Spec ex_obj)) = Some [Some ?b, None]"
    using h' by (simp_all add: view_slice_def slice_items_def ex_obj_def)
  show ?thesis
    by (rule exI [of _ y], rule exI [of _ h'], rule exI [of _ ?h2]) (intro conjI c orig copy)
qed

end
