(* ===== verification/Listing.thy ===== *)
theory Listing
  imports Watching
begin

text \<open>
  The two clients of the program side by side: the hand-written one (\<open>pkg/ipammachinery\<close>)
  sends what the generated one would send, and the informers list and watch the
  collection whose objects the hand-written client writes.
\<close>

section \<open>The two clients\<close>

text \<open>
  The encoder of the generated client (no conversion, over the scheme of the clientset) and that
  of the hand-written one (with conversion, over a scheme of its own) write both kinds of objects
  under the same group, version and kind.
\<close>

lemma SchemeGroupVersion_CRD: "SchemeGroupVersion = (CRDGroup, CRDVersion)"
  by (simp add: SchemeGroupVersion_def CRDGroup_def CRDVersion_def)

lemma object_kinds:
  "ObjectKinds (addKnownTypes []) ob = [((CRDGroup, CRDVersion), object_kind ob)]"
  "ObjectKinds clientset_Scheme (Obj_F5IPAM r) = [((CRDGroup, CRDVersion), ''F5IPAM'')]"
  "ObjectKinds clientset_Scheme (Obj_DeleteOptions d) =
     [(([], ''v1''), ''DeleteOptions''), ((CRDGroup, CRDVersion), ''DeleteOptions'')]"
  by (cases ob; simp add: ObjectKinds_def addKnownTypes_def AddToGroupVersion_def)
    (simp_all add: ObjectKinds_def clientset_Scheme_def fic_addKnownTypes_def AddToGroupVersion_def SchemeGroupVersion_CRD)

lemma encoders_agree:
  "EncoderForVersion (WithoutConversion clientset_Scheme) write (CRDGroup, CRDVersion) =
     EncoderForVersion (NewCodecFactory (addKnownTypes [])) write (CRDGroup, CRDVersion)"
proof
  fix ob
  show "EncoderForVersion (WithoutConversion clientset_Scheme) write (CRDGroup, CRDVersion) ob =
      EncoderForVersion (NewCodecFactory (addKnownTypes [])) write (CRDGroup, CRDVersion) ob"
    by (cases ob) (simp_all add: WithVersionEncoder_Encode_def codec_Encode_def object_kinds KindForGroupVersionKinds_def CRDGroup_def)
qed

text \<open>The two clients differ in the user agent and in the timeout, which needs a transport that is
  not the default one.\<close>

definition typed_agent :: "string \<Rightarrow> rest_config \<Rightarrow> string" where
  "typed_agent ua cfg = (if rc_UserAgent cfg = [] then ua else rc_UserAgent cfg)"

definition typed_timeout :: "rest_config \<Rightarrow> 64 word" where
  "typed_timeout cfg = (if 0 <s rc_Timeout cfg then rc_Timeout cfg else 0)"

definition retuned :: "string \<Rightarrow> 64 word \<Rightarrow> 'e RESTClient \<Rightarrow> 'e RESTClient" where
  "retuned agent t c = c\<lparr>rcl_timeout := t, rcl_UserAgent := agent\<rparr>"

definition retuned_call :: "string \<Rightarrow> 64 word \<Rightarrow> 'e http_call \<Rightarrow> 'e http_call" where
  "retuned_call agent t call = call\<lparr>hc_timeout := (if t \<noteq> 0 then Some t else None), hc_UserAgent := agent\<rparr>"

lemma same_client:
  assumes "rc_ContentType cfg \<in> {[], ''application/json''}" and "ua \<noteq> []"
  shows "RESTClientFor lib (setConfigDefaults ua cfg) =
     map_sum id (retuned (typed_agent ua cfg) (typed_timeout cfg)) (NewRESTClient lib cfg)"
proof -
  have fields: "rc_GroupVersion (setConfigDefaults ua cfg) = Some (CRDGroup, CRDVersion)"
    "rc_Serializer (setConfigDefaults ua cfg) = Some (WithoutConversion clientset_Scheme)"
    "rc_Host (setConfigDefaults ua cfg) = rc_Host cfg"
    "rc_APIPath (setConfigDefaults ua cfg) = ''/apis''" "rc_ContentType (setConfigDefaults ua cfg) = rc_ContentType cfg"
    "rc_QPS (setConfigDefaults ua cfg) = rc_QPS cfg" "rc_Burst (setConfigDefaults ua cfg) = rc_Burst cfg"
    "rc_Timeout (setConfigDefaults ua cfg) = rc_Timeout cfg" "rc_RateLimiter (setConfigDefaults ua cfg) = rc_RateLimiter cfg"
    "rc_AcceptContentTypes (setConfigDefaults ua cfg) = rc_AcceptContentTypes cfg"
    "rc_UserAgent (setConfigDefaults ua cfg) = typed_agent ua cfg"
    by (simp_all add: setConfigDefaults_def SchemeGroupVersion_CRD typed_agent_def Let_def)
  have hand: "rc_ContentType (rest_client_config cfg) = ''application/json''"
    "rc_RateLimiter (rest_client_config cfg) = rc_RateLimiter cfg" "rc_Host (rest_client_config cfg) = rc_Host cfg"
    "rc_GroupVersion (rest_client_config cfg) = Some (CRDGroup, CRDVersion)" "rc_APIPath (rest_client_config cfg) = ''/apis''"
    "rc_Serializer (rest_client_config cfg) = Some (NewCodecFactory (addKnownTypes []))"
    "rc_Burst (rest_client_config cfg) = rc_Burst cfg" "rc_UserAgent (rest_client_config cfg) = rc_UserAgent cfg"
    "rc_QPS (rest_client_config cfg) = rc_QPS cfg" "rc_Timeout (rest_client_config cfg) = rc_Timeout cfg"
    "rc_AcceptContentTypes (rest_client_config cfg) = rc_AcceptContentTypes cfg"
    "(if ''application/json'' = [] then ''application/json'' else ''application/json'') = ''application/json''"
    by (simp_all add: rest_client_config_def)
  have ct: "(if rc_ContentType cfg = [] then ''application/json'' else rc_ContentType cfg) = ''application/json''"
    using assms(1) by auto
  have agent: "typed_agent ua cfg \<noteq> []" using assms(2) by (simp add: typed_agent_def)
  have "rest_NewRESTClient lib b v (WithoutConversion clientset_Scheme) (setConfigDefaults ua cfg) q n t =
      map_sum id (retuned (typed_agent ua cfg) t) (rest_NewRESTClient lib b v (NewCodecFactory (addKnownTypes [])) (rest_client_config cfg) q n t')"
    for b v q n t t'
    unfolding rest_NewRESTClient_def fields hand ct Let_def option.case encoders_agree
    by (simp add: retuned_def split: option.split)
  then show ?thesis
    unfolding NewRESTClient_def RESTClientFor_def fields hand option.case typed_timeout_def
    by (simp add: agent split: option.split)
qed

text \<open>Both are in all their requests, which are otherwise the same.\<close>

definition retuned_request :: "string \<Rightarrow> 64 word \<Rightarrow> 'e Request \<Rightarrow> 'e Request" where
  "retuned_request agent t r = r\<lparr>rr_client := retuned agent t (rr_client r), rr_timeout := t\<rparr>"

lemma retuned_steps:
  "client_Verb (retuned agent t c) v = retuned_request agent t (client_Verb c v)"
  "req_Namespace ns (retuned_request agent t r) = retuned_request agent t (req_Namespace ns r)"
  "req_Resource rs (retuned_request agent t r) = retuned_request agent t (req_Resource rs r)"
  "req_Name nm (retuned_request agent t r) = retuned_request agent t (req_Name nm r)"
  "req_Body ob (retuned_request agent t r) = retuned_request agent t (req_Body ob r)"
  by (simp_all add: client_Verb_def req_Namespace_def req_Resource_def req_Name_def req_Body_def unless_err_def
      req_SetHeader_def retuned_request_def retuned_def Let_def split: option.split)

lemma retuned_req_call: "req_call (retuned_request agent t r) = map_sum id (retuned_call agent t) (req_call r)"
proof -
  have same: "rr_err (retuned_request agent t r) = rr_err r" "rr_verb (retuned_request agent t r) = rr_verb r"
    "rr_namespaceSet (retuned_request agent t r) = rr_namespaceSet r" "rr_namespace (retuned_request agent t r) = rr_namespace r"
    "rr_resourceName (retuned_request agent t r) = rr_resourceName r" "rr_pathPrefix (retuned_request agent t r) = rr_pathPrefix r"
    "rr_resource (retuned_request agent t r) = rr_resource r" "rr_subresource (retuned_request agent t r) = rr_subresource r"
    "rr_params (retuned_request agent t r) = rr_params r" "rr_headers (retuned_request agent t r) = rr_headers r"
    "rr_body (retuned_request agent t r) = rr_body r" "rr_timeout (retuned_request agent t r) = t"
    "rcl_UserAgent (rr_client (retuned_request agent t r)) = agent"
    by (simp_all add: retuned_request_def retuned_def)
  have "req_path (retuned_request agent t r) = req_path r"
    unfolding req_path_def same by (rule refl)
  then have http: "req_http (retuned_request agent t r) = retuned_call agent t (req_http r)"
    by (simp add: req_http_def retuned_call_def same)
  show ?thesis by (auto simp: req_call_def http same split: option.split)
qed

lemma retuned_requests:
  "req_call (Create_request (retuned agent t c) ns r) = map_sum id (retuned_call agent t) (req_call (Create_request c ns r))"
  "req_call (Update_request (retuned agent t c) ns r) = map_sum id (retuned_call agent t) (req_call (Update_request c ns r))"
  "req_call (Delete_request (retuned agent t c) ns nm options) =
     map_sum id (retuned_call agent t) (req_call (Delete_request c ns nm options))"
  "req_call (Get_request (retuned agent t c) ns nm) = map_sum id (retuned_call agent t) (req_call (Get_request c ns nm))"
  by (simp_all add: Create_request_def Update_request_def Delete_request_def Get_request_def retuned_steps retuned_req_call)

text \<open>C21: The hand-written REST client and the generated typed client are made from one configuration
  whose content type is JSON or left open (the hand-written client always uses JSON). They are
  made or refused together, and the create, update, delete and get (with empty options) of the
  typed client send the requests of the hand-written one, body and headers included, or fail
  with its errors, but for two things: the typed client names a user agent in any case (else the
  default one, which is never empty), the hand-written one only that of the configuration, and the timeout of the configuration, which
  a default transport drops, is always kept by the typed client. With a user agent in the
  configuration both clients are the same.\<close>

theorem hand_written_client_agrees:
  assumes "rc_ContentType cfg \<in> {[], ''application/json''}" and "ua \<noteq> []"
  shows "(\<exists>e. K8sV1_NewForConfig lib ua cfg = Inl e \<and> NewRESTClient lib cfg = Inl e)
    \<or> (\<exists>k c. K8sV1_NewForConfig lib ua cfg = Inr k \<and> NewRESTClient lib cfg = Inr c
       \<and> (\<forall>ns nm r options. let typed = map_sum id (retuned_call (typed_agent ua cfg) (typed_timeout cfg)) in
            ipams_call (K8sV1Client_F5IPAMs (Some k) ns) (Op_Create (Some r)) = Inr (typed (req_call (Create_request c ns r)))
          \<and> ipams_call (K8sV1Client_F5IPAMs (Some k) ns) (Op_Update (Some r)) = Inr (typed (req_call (Update_request c ns r)))
          \<and> ipams_call (K8sV1Client_F5IPAMs (Some k) ns) (Op_Delete nm options) = Inr (typed (req_call (Delete_request c ns nm options)))
          \<and> ipams_call (K8sV1Client_F5IPAMs (Some k) ns) (Op_Get nm \<lparr>go_ResourceVersion = []\<rparr>) = Inr (typed (req_call (Get_request c ns nm))))
       \<and> rcl_UserAgent c = rc_UserAgent cfg \<and> (rc_UserAgent cfg \<noteq> [] \<longrightarrow> restClient k = Some c))"
proof (cases "NewRESTClient lib cfg")
  case (Inl e)
  with same_client [OF assms, of lib] show ?thesis by (simp add: K8sV1_NewForConfig_def)
next
  case (Inr c)
  let ?c = "retuned (typed_agent ua cfg) (typed_timeout cfg) c"
  have none: "req_VersionedParams [] r = r" for r :: "'a Request" by (simp add: req_VersionedParams_def unless_err_def)
  have k: "K8sV1_NewForConfig lib ua cfg = Inr \<lparr>restClient = Some ?c\<rparr>"
    using same_client [OF assms, of lib] Inr by (simp add: K8sV1_NewForConfig_def)
  have c: "rcl_UserAgent c = rc_UserAgent cfg" "rc_UserAgent cfg \<noteq> [] \<Longrightarrow> rcl_timeout c = typed_timeout cfg"
    using Inr by (auto simp: NewRESTClient_def RESTClientFor_def rest_NewRESTClient_def rest_client_config_def
        typed_timeout_def Let_def split: option.splits)
  have "?c = c" if "rc_UserAgent cfg \<noteq> []"
    using c(2) [OF that] that by (simp add: retuned_def typed_agent_def flip: c(1))
  with Inr k c(1) show ?thesis
    by (simp add: ipams_call_def K8sV1Client_F5IPAMs_def newF5IPAMs_def K8sV1Client_RESTClient_def method_defs
        get_params_def text_param_def none Let_def
        flip: retuned_requests)
      (simp add: Create_request_def Update_request_def Delete_request_def Get_request_def)
qed

text \<open>A library whose transport is the default one, and a configuration with a timeout.\<close>

definition ref_lib :: "rest_object rest_lib" where
  "ref_lib = \<lparr>lib_host_path = (\<lambda>host. Some []), lib_default_transport = Some True,
     lib_serializer = (\<lambda>ct. Some (\<lambda>gvk ob. Some ob))\<rparr>"

definition ref_config :: rest_config where
  "ref_config = \<lparr>rc_Host = ''10.0.0.1'', rc_APIPath = [], rc_GroupVersion = None, rc_ContentType = [],
     rc_AcceptContentTypes = [], rc_Serializer = None, rc_UserAgent = [], rc_QPS = 0, rc_Burst = 0,
     rc_RateLimiter = None, rc_Timeout = 5000000000\<rparr>"

theorem hand_written_client_agrees_witness:
  "\<exists>k c call. K8sV1_NewForConfig ref_lib ''agent'' ref_config = Inr k \<and> NewRESTClient ref_lib ref_config = Inr c
     \<and> req_call (Get_request c ''kube-system'' ''ipam'') = Inr call \<and> hc_timeout call = None
     \<and> ipams_call (K8sV1Client_F5IPAMs (Some k) ''kube-system'') (Op_Get ''ipam'' \<lparr>go_ResourceVersion = []\<rparr>) =
        Inr (Inr (call\<lparr>hc_timeout := Some 5000000000, hc_UserAgent := ''agent''\<rparr>))"
proof -
  obtain c where c: "NewRESTClient ref_lib ref_config = Inr c" "rcl_timeout c = 0"
    by (simp add: NewRESTClient_def RESTClientFor_def rest_client_config_def ref_lib_def ref_config_def
        rest_NewRESTClient_def Let_def)
  have ok: "name_ok ''kube-system''" "name_ok ''ipam''" by code_simp+
  have "rc_ContentType ref_config \<in> {[], ''application/json''}" by (simp add: ref_config_def)
  from hand_written_client_agrees [OF this, of "''agent''" ref_lib] obtain k where
    "K8sV1_NewForConfig ref_lib ''agent'' ref_config = Inr k"
    "ipams_call (K8sV1Client_F5IPAMs (Some k) ''kube-system'') (Op_Get ''ipam'' \<lparr>go_ResourceVersion = []\<rparr>) =
      Inr (map_sum id (retuned_call (typed_agent ''agent'' ref_config) (typed_timeout ref_config))
        (req_call (Get_request c ''kube-system'' ''ipam'')))"
    unfolding c(1) by (auto simp: Let_def)
  moreover have "typed_agent ''agent'' ref_config = ''agent''" "typed_timeout ref_config = 5000000000"
    by (simp_all add: typed_agent_def typed_timeout_def ref_config_def word_sless_alt)
  ultimately show ?thesis
    using c get_sends [OF ok, of c] by (simp add: retuned_call_def get_call_def)
qed

section \<open>What the informers of the program list and watch\<close>

lemma query_value:
  "map_of (list_params opts) ''watch'' = (if lo_Watch opts then Some [''true''] else None)"
  "map_of (list_params opts) ''labelSelector'' = (if lo_LabelSelector opts = [] then None else Some [lo_LabelSelector opts])"
  by (auto simp: list_params_def text_param_def bool_param_def map_add_def split: option.splits)

text \<open>C24: The informer of a namespace lists and watches through the typed client: both requests
  read the collection of the namespace (that of all namespaces for the empty name), which
  is the path under which the hand-written client reads and writes the objects, with the
  options of the caller but without a label selector, and the watch asks for events.\<close>

theorem informers_cover_written_objects:
  assumes "k8sV1 cs = Some k" and "restClient k = Some c" and "IsValidPathSegmentName ns"
    and "ipamInformer (newNamespacedInformer ns) = Some si"
  shows "\<exists>l w. informer_ListFunc (Some cs) (si_source si) options = Inr (Inr l)
    \<and> informer_WatchFunc (Some cs) (si_source si) options = Inr (Inr w)
    \<and> hc_verb l = ''GET'' \<and> hc_verb w = ''GET'' \<and> hc_path w = hc_path l
    \<and> hc_path l = abs_path (client_segs c @ collection_segs ns)
    \<and> hc_query l = list_params (options\<lparr>lo_LabelSelector := []\<rparr>)
    \<and> hc_query w = list_params (options\<lparr>lo_LabelSelector := [], lo_Watch := True\<rparr>)
    \<and> map_of (hc_query l) ''labelSelector'' = None \<and> map_of (hc_query w) ''labelSelector'' = None
    \<and> map_of (hc_query w) ''watch'' = Some [''true'']
    \<and> (\<forall>nm. name_ok ns \<and> name_ok nm \<longrightarrow> (\<exists>call. req_call (Get_request c ns nm) = Inr call
         \<and> hc_path call = hc_path l @ slash # nm))"
proof -
  have si: "si_source si = NewFilteredF5IPAMInformer ns 0 (Some everything)"
    using assms(4) by (auto simp: newNamespacedInformer_def)
  let ?c = "K8sV1Client_F5IPAMs (Some k) ns" and ?o = "everything options"
  have c: "ipams_client ?c = Some c" "ipams_ns ?c = ns"
    using assms(2) by (simp_all add: K8sV1Client_F5IPAMs_def newF5IPAMs_def K8sV1Client_RESTClient_def)
  have ok: "args_ok c (ipams_ns ?c) (Op_List ?o)" "args_ok c (ipams_ns ?c) (Op_Watch ?o)"
    "\<not> namespace_missing (ipams_ns ?c) (Op_List ?o)" "\<not> namespace_missing (ipams_ns ?c) (Op_Watch ?o)"
    using assms(3) by (simp_all add: args_ok_def c encodes_def namespace_missing_def)
  obtain l where l: "ipams_call ?c (Op_List ?o) = Inr (Inr l)" "hc_verb l = ''GET''" "hc_query l = list_params ?o"
    "hc_path l = abs_path (client_segs c @ collection_segs ns)"
    using typed_call_ok [OF c(1) ok(1) _ ok(3)] by (auto simp: c op_segs_def item_segs_def)
  obtain w where w: "ipams_call ?c (Op_Watch ?o) = Inr (Inr w)" "hc_verb w = ''GET''"
    "hc_query w = list_params (?o\<lparr>lo_Watch := True\<rparr>)" "hc_path w = abs_path (client_segs c @ collection_segs ns)"
    using typed_call_ok [OF c(1) ok(2) _ ok(4)] by (auto simp: c op_segs_def item_segs_def)
  have item: "abs_path (ss @ [nm]) = abs_path ss @ slash # nm" if "ss \<noteq> []" for ss nm
    using that str_join_append [of ss "[nm]" "[slash]"] by (simp add: abs_path_def)
  have items: "\<exists>call. req_call (Get_request c ns nm) = Inr call \<and> hc_path call = hc_path l @ slash # nm"
    if "name_ok ns" "name_ok nm" for nm
  proof -
    have "ns \<noteq> []" using that(1) by (simp add: name_ok_def)
    then have "item_path c ns nm = hc_path l @ slash # nm"
      using item [of "client_segs c @ collection_segs ns" nm] by (simp add: item_path_def l(4) collection_segs_def)
    then show ?thesis using get_sends [OF that, of c] by (simp add: get_call_def)
  qed
  have "informer_ListFunc (Some cs) (si_source si) options = Inr (Inr l)"
    "informer_WatchFunc (Some cs) (si_source si) options = Inr (Inr w)"
    using l(1) w(1) assms(1)
    by (simp_all add: informer_ListFunc_def informer_WatchFunc_def clientset_K8sV1_def si tweaked_def)
  with l w items show ?thesis by (simp add: query_value everything_def)
qed

theorem informers_cover_written_objects_witness:
  "\<exists>l w. informer_ListFunc (Some (clientset_New (\<lambda>_. ()) (Some ref_client))) (NewFilteredF5IPAMInformer ''kube-system'' 0 (Some everything))
        \<lparr>lo_LabelSelector = ''app=x'', lo_FieldSelector = [], lo_Watch = False, lo_AllowWatchBookmarks = False,
         lo_ResourceVersion = [], lo_TimeoutSeconds = None, lo_Limit = 500, lo_Continue = []\<rparr> = Inr (Inr l)
    \<and> hc_path l = ''/apis/fic.f5.com/v1/namespaces/kube-system/f5ipams''
    \<and> informer_WatchFunc (Some (clientset_New (\<lambda>_. ()) (Some ref_client))) (NewFilteredF5IPAMInformer ''kube-system'' 0 (Some everything))
        \<lparr>lo_LabelSelector = ''app=x'', lo_FieldSelector = [], lo_Watch = False, lo_AllowWatchBookmarks = False,
         lo_ResourceVersion = [], lo_TimeoutSeconds = None, lo_Limit = 500, lo_Continue = []\<rparr> = Inr (Inr w)
    \<and> map_of (hc_query w) ''watch'' = Some [''true'']"
proof -
  let ?cs = "clientset_New (\<lambda>_. ()) (Some ref_client)"
  have cs: "k8sV1 ?cs = Some \<lparr>restClient = Some ref_client\<rparr>" by (simp add: clientset_New_def K8sV1_New_def)
  have valid: "IsValidPathSegmentName ''kube-system''" by code_simp
  have inf: "ipamInformer (newNamespacedInformer ''kube-system'') =
      Some \<lparr>si_source = NewFilteredF5IPAMInformer ''kube-system'' 0 (Some everything), si_handlers = [], si_running = False\<rparr>"
    by (simp add: newNamespacedInformer_def)
  have "abs_path (client_segs ref_client @ collection_segs ''kube-system'') =
      ''/apis/fic.f5.com/v1/namespaces/kube-system/f5ipams''"
    by (simp add: ref_client_segs collection_segs_def abs_path_def slash_def)
  with informers_cover_written_objects [OF cs _ valid inf] show ?thesis by fastforce
qed

end
