(* ===== verification/Lister.thy ===== *)
theory Lister
  imports Clientset
begin

text \<open>
  The cache of an informer (\<open>thread_safe_store.go\<close>, \<open>store.go\<close>, \<open>index.go\<close> and \<open>listers.go\<close> of
  the vendored \<open>client-go/tools/cache\<close>) and the generated lister on it
  (\<open>pkg/ipamapis/client/listers/fic/v1\<close>). The store keeps objects by key and, for every
  indexer, the keys by indexed value; the lister reads objects of a namespace through the
  index. Go maps are maps, sets of strings are sets; \<open>ord\<close> is the order in which a set is
  visited. The indexers of a store are a list, as each one only touches its own index.
\<close>

section \<open>The indexed store\<close>

type_synonym index = "string \<rightharpoonup> string set"
type_synonym 'o index_func = "'o \<Rightarrow> string list option"  \<comment> \<open>\<open>None\<close>: an error\<close>
type_synonym 'o indexers = "(string \<times> 'o index_func) list"

record 'o threadSafeMap =
  ts_items :: "string \<rightharpoonup> 'o"
  ts_indexers :: "'o indexers"
  ts_indices :: "string \<rightharpoonup> index"

definition NewThreadSafeStore :: "'o indexers \<Rightarrow> 'o threadSafeMap" where
  "NewThreadSafeStore idxs = \<lparr>ts_items = Map.empty, ts_indexers = idxs, ts_indices = Map.empty\<rparr>"

definition del_value :: "string \<Rightarrow> string \<Rightarrow> index \<Rightarrow> index" where
  "del_value key v idx =
     (case idx v of
        None \<Rightarrow> idx
      | Some S \<Rightarrow> if S - {key} = {} then idx(v := None) else idx(v \<mapsto> S - {key}))"

definition add_value :: "string \<Rightarrow> string \<Rightarrow> index \<Rightarrow> index" where
  "add_value key v idx = idx(v \<mapsto> insert key (case idx v of None \<Rightarrow> {} | Some S \<Rightarrow> S))"

text \<open>A failing index function makes the store panic.\<close>

fun delete_indices :: "string \<Rightarrow> 'o \<Rightarrow> 'o indexers \<Rightarrow> (string \<rightharpoonup> index) \<Rightarrow> (string \<rightharpoonup> index) go" where
  "delete_indices key ob [] ixs = Inr ixs"
| "delete_indices key ob ((nm, f) # fs) ixs =
     (case f ob of
        None \<Rightarrow> Inl (UserPanic ''unable to calculate an index entry'')
      | Some vs \<Rightarrow>
          delete_indices key ob fs
            (case ixs nm of None \<Rightarrow> ixs | Some idx \<Rightarrow> ixs(nm \<mapsto> fold (del_value key) vs idx)))"

definition deleteFromIndices :: "'o \<Rightarrow> string \<Rightarrow> 'o threadSafeMap \<Rightarrow> 'o threadSafeMap go" where
  "deleteFromIndices ob key c =
     go_bind (delete_indices key ob (ts_indexers c) (ts_indices c)) (\<lambda>ixs. Inr (c\<lparr>ts_indices := ixs\<rparr>))"

fun insert_indices :: "string \<Rightarrow> 'o \<Rightarrow> 'o indexers \<Rightarrow> (string \<rightharpoonup> index) \<Rightarrow> (string \<rightharpoonup> index) go" where
  "insert_indices key ob [] ixs = Inr ixs"
| "insert_indices key ob ((nm, f) # fs) ixs =
     (case f ob of
        None \<Rightarrow> Inl (UserPanic ''unable to calculate an index entry'')
      | Some vs \<Rightarrow>
          insert_indices key ob fs
            (ixs(nm \<mapsto> fold (add_value key) vs (case ixs nm of None \<Rightarrow> Map.empty | Some idx \<Rightarrow> idx))))"

definition updateIndices :: "'o option \<Rightarrow> 'o \<Rightarrow> string \<Rightarrow> 'o threadSafeMap \<Rightarrow> 'o threadSafeMap go" where
  "updateIndices oldObj newObj key c0 =
     go_bind (case oldObj of None \<Rightarrow> Inr c0 | Some old \<Rightarrow> deleteFromIndices old key c0) (\<lambda>c.
     go_bind (insert_indices key newObj (ts_indexers c) (ts_indices c)) (\<lambda>ixs. Inr (c\<lparr>ts_indices := ixs\<rparr>)))"

definition ts_Add :: "string \<Rightarrow> 'o \<Rightarrow> 'o threadSafeMap \<Rightarrow> 'o threadSafeMap go" where
  "ts_Add key ob c =
     (let oldObject = ts_items c key
      in updateIndices oldObject ob key (c\<lparr>ts_items := (ts_items c)(key \<mapsto> ob)\<rparr>))"

definition ts_Update :: "string \<Rightarrow> 'o \<Rightarrow> 'o threadSafeMap \<Rightarrow> 'o threadSafeMap go" where
  "ts_Update key ob c =
     (let oldObject = ts_items c key
      in updateIndices oldObject ob key (c\<lparr>ts_items := (ts_items c)(key \<mapsto> ob)\<rparr>))"

definition ts_Delete :: "string \<Rightarrow> 'o threadSafeMap \<Rightarrow> 'o threadSafeMap go" where
  "ts_Delete key c =
     (case ts_items c key of
        None \<Rightarrow> Inr c
      | Some ob \<Rightarrow> go_bind (deleteFromIndices ob key c) (\<lambda>c1. Inr (c1\<lparr>ts_items := (ts_items c1)(key := None)\<rparr>)))"

definition ts_Get :: "string \<Rightarrow> 'o threadSafeMap \<Rightarrow> 'o option" where
  "ts_Get key c = ts_items c key"

definition ts_List :: "(string set \<Rightarrow> string list) \<Rightarrow> 'o threadSafeMap \<Rightarrow> 'o list" where
  "ts_List ord c = map (\<lambda>key. the (ts_items c key)) (ord (dom (ts_items c)))"

text \<open>\<open>Replace\<close>: the entries of the new map are visited in some order \<open>keys\<close>.\<close>

fun index_all :: "string list \<Rightarrow> 'o threadSafeMap \<Rightarrow> 'o threadSafeMap go" where
  "index_all [] c = Inr c"
| "index_all (key # keys) c =
     go_bind (updateIndices None (the (ts_items c key)) key c) (\<lambda>c1. index_all keys c1)"

definition ts_Replace :: "(string set \<Rightarrow> string list) \<Rightarrow> (string \<rightharpoonup> 'o) \<Rightarrow> 'o threadSafeMap \<Rightarrow> 'o threadSafeMap go" where
  "ts_Replace ord items c = index_all (ord (dom items)) (c\<lparr>ts_items := items, ts_indices := Map.empty\<rparr>)"

text \<open>
  \<open>Index\<close>: the objects that share an indexed value with \<open>ob\<close>; an unknown index and a failing
  index function are errors. An object missing under an indexed key would be nil.
\<close>

definition ts_Index :: "(string set \<Rightarrow> string list) \<Rightarrow> string \<Rightarrow> 'o \<Rightarrow> 'o threadSafeMap \<Rightarrow> 'o option list option" where
  "ts_Index ord indexName ob c =
     (case map_of (ts_indexers c) indexName of
        None \<Rightarrow> None
      | Some f \<Rightarrow>
          (case f ob of
             None \<Rightarrow> None
           | Some indexKeys \<Rightarrow>
               (let idx = (case ts_indices c indexName of None \<Rightarrow> Map.empty | Some i \<Rightarrow> i);
                    keys_of = (\<lambda>v. case idx v of None \<Rightarrow> {} | Some S \<Rightarrow> S);
                    returnKeySet = (case indexKeys of
                        [k] \<Rightarrow> keys_of k
                      | _ \<Rightarrow> fold (\<lambda>k S. S \<union> keys_of k) indexKeys {})
                in Some (map (ts_items c) (ord returnKeySet)))))"

section \<open>The cache of resources\<close>

definition MetaNamespaceKeyFunc :: "F5IPAM \<Rightarrow> string" where
  "MetaNamespaceKeyFunc r = (if Namespace r \<noteq> [] then Namespace r @ ''/'' @ Name r else Name r)"

definition NamespaceIndex :: string where
  "NamespaceIndex = ''namespace''"

definition MetaNamespaceIndexFunc :: "F5IPAM index_func" where
  "MetaNamespaceIndexFunc r = Some [Namespace r]"

text \<open>The indexer of the informers of the program.\<close>

definition NewIndexer :: "F5IPAM threadSafeMap" where
  "NewIndexer = NewThreadSafeStore [(NamespaceIndex, MetaNamespaceIndexFunc)]"

definition cache_Add :: "F5IPAM \<Rightarrow> F5IPAM threadSafeMap \<Rightarrow> F5IPAM threadSafeMap go" where
  "cache_Add r c = ts_Add (MetaNamespaceKeyFunc r) r c"

definition cache_Update :: "F5IPAM \<Rightarrow> F5IPAM threadSafeMap \<Rightarrow> F5IPAM threadSafeMap go" where
  "cache_Update r c = ts_Update (MetaNamespaceKeyFunc r) r c"

definition cache_Delete :: "F5IPAM \<Rightarrow> F5IPAM threadSafeMap \<Rightarrow> F5IPAM threadSafeMap go" where
  "cache_Delete r c = ts_Delete (MetaNamespaceKeyFunc r) c"

definition cache_Replace :: "(string set \<Rightarrow> string list) \<Rightarrow> F5IPAM list \<Rightarrow> F5IPAM threadSafeMap \<Rightarrow> F5IPAM threadSafeMap go" where
  "cache_Replace ord rs c =
     ts_Replace ord (fold (\<lambda>r items. items(MetaNamespaceKeyFunc r \<mapsto> r)) rs Map.empty) c"

definition cache_GetByKey :: "string \<Rightarrow> F5IPAM threadSafeMap \<Rightarrow> F5IPAM option" where
  "cache_GetByKey key c = ts_Get key c"

section \<open>The lister\<close>

text \<open>A label selector; the labels of a resource are not modelled, \<open>labels\<close> says what they are.\<close>

record selector =
  sel_Empty :: bool
  sel_Matches :: "(string \<times> string) list \<Rightarrow> bool"

text \<open>The operations of the interface \<open>Indexer\<close> the lister calls.\<close>

record 'c Indexer =
  ix_List :: "'c \<Rightarrow> F5IPAM list"
  ix_Index :: "string \<Rightarrow> F5IPAM \<Rightarrow> 'c \<Rightarrow> F5IPAM option list option"
  ix_GetByKey :: "string \<Rightarrow> 'c \<Rightarrow> F5IPAM option"

definition cache_indexer :: "(string set \<Rightarrow> string list) \<Rightarrow> F5IPAM threadSafeMap Indexer" where
  "cache_indexer ord = \<lparr>ix_List = ts_List ord, ix_Index = ts_Index ord, ix_GetByKey = cache_GetByKey\<rparr>"

definition ListAll :: "'c Indexer \<Rightarrow> (F5IPAM \<Rightarrow> (string \<times> string) list) \<Rightarrow> 'c \<Rightarrow> selector \<Rightarrow> F5IPAM list" where
  "ListAll I labels c sel = filter (\<lambda>m. sel_Empty sel \<or> sel_Matches sel (labels m)) (ix_List I c)"

text \<open>
  \<open>ListAllByNamespace\<close>: all for the empty name; else through the index, or over all objects if
  there is no such index. A nil object would fail the type assertion of the lister or, if
  its labels are asked for, be the error \<open>None\<close>.
\<close>

definition ListAllByNamespace :: "'c Indexer \<Rightarrow> (F5IPAM \<Rightarrow> (string \<times> string) list)
    \<Rightarrow> 'c \<Rightarrow> string \<Rightarrow> selector \<Rightarrow> F5IPAM list option go" where
  "ListAllByNamespace I labels c namespace sel =
     (if namespace = [] then Inr (Some (ListAll I labels c sel))
      else
        case ix_Index I NamespaceIndex (zero_F5IPAM\<lparr>Namespace := namespace\<rparr>) c of
          None \<Rightarrow> Inr (Some (filter (\<lambda>m. Namespace m = namespace \<and> sel_Matches sel (labels m)) (ix_List I c)))
        | Some ms \<Rightarrow>
            if None \<in> set ms then (if sel_Empty sel then Inl TypeAssertion else Inr None)
            else Inr (Some (filter (\<lambda>m. sel_Empty sel \<or> sel_Matches sel (labels m)) (map the ms))))"

record 'c f5IPAMLister =
  fl_indexer :: 'c

record 'c f5IPAMNamespaceLister =
  nl_indexer :: 'c
  nl_namespace :: string

definition NewF5IPAMLister :: "'c \<Rightarrow> 'c f5IPAMLister" where
  "NewF5IPAMLister indexer = \<lparr>fl_indexer = indexer\<rparr>"

definition Lister_List :: "'c Indexer \<Rightarrow> (F5IPAM \<Rightarrow> (string \<times> string) list) \<Rightarrow> 'c f5IPAMLister
    \<Rightarrow> selector \<Rightarrow> F5IPAM list" where
  "Lister_List I labels s sel = ListAll I labels (fl_indexer s) sel"

definition Lister_F5IPAMs :: "'c f5IPAMLister \<Rightarrow> string \<Rightarrow> 'c f5IPAMNamespaceLister" where
  "Lister_F5IPAMs s namespace = \<lparr>nl_indexer = fl_indexer s, nl_namespace = namespace\<rparr>"

definition NamespaceLister_List :: "'c Indexer \<Rightarrow> (F5IPAM \<Rightarrow> (string \<times> string) list)
    \<Rightarrow> 'c f5IPAMNamespaceLister \<Rightarrow> selector \<Rightarrow> F5IPAM list option go" where
  "NamespaceLister_List I labels s sel = ListAllByNamespace I labels (nl_indexer s) (nl_namespace s) sel"

datatype lister_error = NotFound "string \<times> string" string

definition NamespaceLister_Get :: "'c Indexer \<Rightarrow> 'c f5IPAMNamespaceLister \<Rightarrow> string \<Rightarrow> lister_error + F5IPAM" where
  "NamespaceLister_Get I s name =
     (case ix_GetByKey I (nl_namespace s @ ''/'' @ name) (nl_indexer s) of
        None \<Rightarrow> Inl (NotFound (fic_Resource ''f5ipam'') name)
      | Some r \<Rightarrow> Inr r)"

section \<open>The index agrees with the items\<close>

definition keys_with :: "'o index_func \<Rightarrow> string \<Rightarrow> (string \<rightharpoonup> 'o) \<Rightarrow> string set" where
  "keys_with f v items = {key. \<exists>ob vs. items key = Some ob \<and> f ob = Some vs \<and> v \<in> set vs}"

definition index_of :: "'o index_func \<Rightarrow> (string \<rightharpoonup> 'o) \<Rightarrow> index" where
  "index_of f items = (\<lambda>v. if keys_with f v items = {} then None else Some (keys_with f v items))"

definition stored_index :: "(string \<rightharpoonup> index) \<Rightarrow> string \<Rightarrow> index" where
  "stored_index ixs nm = (case ixs nm of None \<Rightarrow> Map.empty | Some idx \<Rightarrow> idx)"

definition indexers_ok :: "'o indexers \<Rightarrow> bool" where
  "indexers_ok idxs \<longleftrightarrow> distinct (map fst idxs) \<and> (\<forall>(nm, f)\<in>set idxs. \<forall>ob. f ob \<noteq> None)"

definition indices_ok :: "'o indexers \<Rightarrow> (string \<rightharpoonup> 'o) \<Rightarrow> (string \<rightharpoonup> index) \<Rightarrow> bool" where
  "indices_ok idxs items ixs \<longleftrightarrow> (\<forall>(nm, f)\<in>set idxs. stored_index ixs nm = index_of f items)"

text \<open>Removing and adding a key, value by value.\<close>

definition without :: "string \<Rightarrow> string set option \<Rightarrow> string set option" where
  "without key S0 = (case S0 of None \<Rightarrow> None | Some S \<Rightarrow> if S - {key} = {} then None else Some (S - {key}))"

lemma without_twice [simp]: "without key (without key S) = without key S"
  by (auto simp: without_def split: option.splits)

lemma fold_del_value: "fold (del_value key) vs idx w = (if w \<in> set vs then without key (idx w) else idx w)"
proof (induction vs arbitrary: idx)
  case (Cons v vs)
  have here: "del_value key v idx v = without key (idx v)"
    by (auto simp: del_value_def without_def split: option.splits)
  have other: "w \<noteq> v \<Longrightarrow> del_value key v idx w = idx w"
    by (auto simp: del_value_def split: option.splits)
  show ?case
    using Cons.IH [of "del_value key v idx"] here other by (cases "w = v") simp_all
qed simp

lemma fold_add_value: "fold (add_value key) vs idx w =
    (if w \<in> set vs then Some (insert key (case idx w of None \<Rightarrow> {} | Some S \<Rightarrow> S)) else idx w)"
proof (induction vs arbitrary: idx)
  case (Cons v vs)
  show ?case using Cons.IH [of "add_value key v idx"] by (auto simp: add_value_def)
qed simp

lemma keys_without: "keys_with f v (items(key := None)) = keys_with f v items - {key}"
  by (auto simp: keys_with_def)

lemma index_of_delete:
  assumes "items key = Some ob" and "f ob = Some vs"
  shows "fold (del_value key) vs (index_of f items) = index_of f (items(key := None))"
proof
  fix w
  have "key \<in> keys_with f w items \<Longrightarrow> w \<in> set vs" using assms by (auto simp: keys_with_def)
  then show "fold (del_value key) vs (index_of f items) w = index_of f (items(key := None)) w"
    by (auto simp: fold_del_value index_of_def keys_without without_def)
qed

lemma index_of_insert:
  assumes "items key = None" and "f ob = Some vs"
  shows "fold (add_value key) vs (index_of f items) = index_of f (items(key \<mapsto> ob))"
proof
  fix w
  have "keys_with f w (items(key \<mapsto> ob)) = (if w \<in> set vs then insert key (keys_with f w items) else keys_with f w items)"
    using assms by (auto simp: keys_with_def split: if_splits)
  then show "fold (add_value key) vs (index_of f items) w = index_of f (items(key \<mapsto> ob)) w"
    by (simp add: fold_add_value index_of_def)
qed

lemma index_of_absent: "items key = None \<Longrightarrow> items(key := None) = items"
  by auto

text \<open>The loops over the indexers.\<close>

lemma indexer_total: "indexers_ok ((nm, f) # idxs) \<Longrightarrow> \<exists>vs. f ob = Some vs"
  by (auto simp: indexers_ok_def)

lemma indices_ok_Nil [simp]: "indices_ok [] items ixs"
  by (simp add: indices_ok_def)

lemma indices_ok_Cons [simp]:
  "indices_ok ((nm, f) # idxs) items ixs \<longleftrightarrow> stored_index ixs nm = index_of f items \<and> indices_ok idxs items ixs"
  by (simp add: indices_ok_def)

lemma indices_ok_cong:
  assumes "\<forall>nm\<in>fst ` set idxs. ixs' nm = ixs nm"
  shows "indices_ok idxs items ixs' \<longleftrightarrow> indices_ok idxs items ixs"
  using assms by (induction idxs) (auto simp: indices_ok_def stored_index_def)

lemma stored_index_cong: "ixs' nm = ixs nm \<Longrightarrow> stored_index ixs' nm = stored_index ixs nm"
  by (simp add: stored_index_def)

lemma delete_indices_ok:
  assumes "indexers_ok idxs" and "items key = Some ob" and "indices_ok idxs items ixs"
  shows "\<exists>ixs'. delete_indices key ob idxs ixs = Inr ixs' \<and> indices_ok idxs (items(key := None)) ixs'
    \<and> (\<forall>nm. nm \<notin> fst ` set idxs \<longrightarrow> ixs' nm = ixs nm)"
  using assms(1,3)
proof (induction idxs arbitrary: ixs)
  case (Cons e idxs)
  obtain nm f where e: "e = (nm, f)" by (cases e)
  obtain vs where vs: "f ob = Some vs" using indexer_total [OF Cons.prems(1) [unfolded e]] by blast
  have nm: "nm \<notin> fst ` set idxs" and oks: "indexers_ok idxs" using Cons.prems(1) by (auto simp: indexers_ok_def e)
  define ixs1 where "ixs1 = (case ixs nm of None \<Rightarrow> ixs | Some idx \<Rightarrow> ixs(nm \<mapsto> fold (del_value key) vs idx))"
  have stored: "stored_index ixs nm = index_of f items" using Cons.prems(2) by (simp add: e)
  have emp: "fold (del_value key) vs Map.empty = Map.empty" by (rule ext) (simp add: fold_del_value without_def)
  have del: "fold (del_value key) vs (index_of f items) = index_of f (items(key := None))"
    using assms(2) vs by (rule index_of_delete)
  have here: "stored_index ixs1 nm = index_of f (items(key := None))"
    unfolding del [symmetric] stored [symmetric] ixs1_def
    using emp by (cases "ixs nm") (simp_all add: stored_index_def)
  have other: "ixs1 n = ixs n" if "n \<noteq> nm" for n using that by (cases "ixs nm") (simp_all add: ixs1_def)
  have "\<forall>n\<in>fst ` set idxs. ixs1 n = ixs n" using nm by (intro ballI other) auto
  from indices_ok_cong [OF this] Cons.prems(2) have "indices_ok idxs items ixs1" by (simp add: e)
  from Cons.IH [OF oks this] obtain ixs' where
    run: "delete_indices key ob idxs ixs1 = Inr ixs'" and ok: "indices_ok idxs (items(key := None)) ixs'"
    and keep: "\<forall>n. n \<notin> fst ` set idxs \<longrightarrow> ixs' n = ixs1 n" by blast
  have "ixs' nm = ixs1 nm" using keep nm by blast
  from stored_index_cong [of ixs' nm ixs1, OF this] here have "stored_index ixs' nm = index_of f (items(key := None))" by (rule trans)
  then have "indices_ok (e # idxs) (items(key := None)) ixs'" using ok by (simp only: e indices_ok_Cons)
  moreover have "delete_indices key ob (e # idxs) ixs = Inr ixs'" using run vs by (simp add: e ixs1_def)
  moreover have "\<forall>n. n \<notin> fst ` set (e # idxs) \<longrightarrow> ixs' n = ixs n" using keep other by (simp add: e)
  ultimately show ?case by blast
qed simp

lemma insert_indices_ok:
  assumes "indexers_ok idxs" and "items key = None" and "indices_ok idxs items ixs"
  shows "\<exists>ixs'. insert_indices key ob idxs ixs = Inr ixs' \<and> indices_ok idxs (items(key \<mapsto> ob)) ixs'
    \<and> (\<forall>nm. nm \<notin> fst ` set idxs \<longrightarrow> ixs' nm = ixs nm)"
  using assms(1,3)
proof (induction idxs arbitrary: ixs)
  case (Cons e idxs)
  obtain nm f where e: "e = (nm, f)" by (cases e)
  obtain vs where vs: "f ob = Some vs" using indexer_total [OF Cons.prems(1) [unfolded e]] by blast
  have nm: "nm \<notin> fst ` set idxs" and oks: "indexers_ok idxs" using Cons.prems(1) by (auto simp: indexers_ok_def e)
  define ixs1 where "ixs1 = ixs(nm \<mapsto> fold (add_value key) vs (stored_index ixs nm))"
  have stored: "stored_index ixs nm = index_of f items" using Cons.prems(2) by (simp add: e)
  have ins: "fold (add_value key) vs (index_of f items) = index_of f (items(key \<mapsto> ob))"
    using assms(2) vs by (rule index_of_insert)
  have here: "stored_index ixs1 nm = index_of f (items(key \<mapsto> ob))"
    unfolding ins [symmetric] stored [symmetric] ixs1_def by (simp add: stored_index_def)
  have other: "ixs1 n = ixs n" if "n \<noteq> nm" for n using that by (simp add: ixs1_def)
  have "\<forall>n\<in>fst ` set idxs. ixs1 n = ixs n" using nm by (intro ballI other) auto
  from indices_ok_cong [OF this] Cons.prems(2) have "indices_ok idxs items ixs1" by (simp add: e)
  from Cons.IH [OF oks this] obtain ixs' where
    run: "insert_indices key ob idxs ixs1 = Inr ixs'" and ok: "indices_ok idxs (items(key \<mapsto> ob)) ixs'"
    and keep: "\<forall>n. n \<notin> fst ` set idxs \<longrightarrow> ixs' n = ixs1 n" by blast
  have "ixs' nm = ixs1 nm" using keep nm by blast
  from stored_index_cong [of ixs' nm ixs1, OF this] here have "stored_index ixs' nm = index_of f (items(key \<mapsto> ob))" by (rule trans)
  then have "indices_ok (e # idxs) (items(key \<mapsto> ob)) ixs'" using ok by (simp only: e indices_ok_Cons)
  moreover have "insert_indices key ob (e # idxs) ixs = Inr ixs'"
    using run vs by (simp add: e ixs1_def stored_index_def)
  moreover have "\<forall>n. n \<notin> fst ` set (e # idxs) \<longrightarrow> ixs' n = ixs n" using keep other by (simp add: e)
  ultimately show ?case by blast
qed simp

section \<open>Every operation keeps the indices\<close>

definition ts_ok :: "'o threadSafeMap \<Rightarrow> bool" where
  "ts_ok c \<longleftrightarrow> indexers_ok (ts_indexers c) \<and> indices_ok (ts_indexers c) (ts_items c) (ts_indices c)"

lemma indices_ok_empty [simp]: "indices_ok idxs Map.empty Map.empty"
  by (auto simp: indices_ok_def stored_index_def index_of_def keys_with_def)

lemma updateIndices_ok:
  assumes "indexers_ok (ts_indexers c)" and "indices_ok (ts_indexers c) items (ts_indices c)"
    and "items key = oldObj"
  shows "\<exists>ixs. updateIndices oldObj ob key c = Inr (c\<lparr>ts_indices := ixs\<rparr>)
    \<and> indices_ok (ts_indexers c) (items(key \<mapsto> ob)) ixs"
proof (cases oldObj)
  case None
  with assms(3) have "items key = None" by simp
  from insert_indices_ok [OF assms(1) this assms(2), of ob] show ?thesis
    by (auto simp: updateIndices_def None)
next
  case (Some old)
  with assms(3) have "items key = Some old" by simp
  from delete_indices_ok [OF assms(1) this assms(2)] obtain ixs1 where
    del: "delete_indices key old (ts_indexers c) (ts_indices c) = Inr ixs1"
    "indices_ok (ts_indexers c) (items(key := None)) ixs1" by blast
  have absent: "(items(key := None)) key = None" by simp
  from insert_indices_ok [OF assms(1) absent del(2), of ob] del(1) show ?thesis
    by (auto simp: updateIndices_def deleteFromIndices_def Some)
qed

lemma ts_Add_ok:
  assumes "ts_ok c"
  shows "\<exists>c'. ts_Add key ob c = Inr c' \<and> ts_ok c' \<and> ts_indexers c' = ts_indexers c
    \<and> ts_items c' = (ts_items c)(key \<mapsto> ob)"
  using updateIndices_ok [of "c\<lparr>ts_items := (ts_items c)(key \<mapsto> ob)\<rparr>" "ts_items c" key "ts_items c key" ob] assms
  by (auto simp: ts_ok_def ts_Add_def Let_def)

lemma ts_Update_ok:
  assumes "ts_ok c"
  shows "\<exists>c'. ts_Update key ob c = Inr c' \<and> ts_ok c' \<and> ts_indexers c' = ts_indexers c
    \<and> ts_items c' = (ts_items c)(key \<mapsto> ob)"
  using ts_Add_ok [OF assms, of key ob] by (simp add: ts_Update_def ts_Add_def)

lemma ts_Delete_ok:
  assumes "ts_ok c"
  shows "\<exists>c'. ts_Delete key c = Inr c' \<and> ts_ok c' \<and> ts_indexers c' = ts_indexers c
    \<and> ts_items c' = (ts_items c)(key := None)"
proof (cases "ts_items c key")
  case None
  then have "(ts_items c)(key := None) = ts_items c" by auto
  then show ?thesis using assms by (simp add: ts_Delete_def None)
next
  case (Some ob)
  have "indexers_ok (ts_indexers c)" "indices_ok (ts_indexers c) (ts_items c) (ts_indices c)"
    using assms by (simp_all add: ts_ok_def)
  from delete_indices_ok [OF this(1) Some this(2)] this(1) show ?thesis
    by (auto simp: ts_Delete_def deleteFromIndices_def ts_ok_def Some)
qed

lemma index_all_ok:
  assumes "indexers_ok (ts_indexers c)" and "indices_ok (ts_indexers c) (ts_items c |` D) (ts_indices c)"
    and "distinct keys" and "set keys \<inter> D = {}" and "set keys \<subseteq> dom (ts_items c)"
  shows "\<exists>ixs. index_all keys c = Inr (c\<lparr>ts_indices := ixs\<rparr>)
    \<and> indices_ok (ts_indexers c) (ts_items c |` (D \<union> set keys)) ixs"
  using assms
proof (induction keys arbitrary: c D)
  case (Cons key keys)
  obtain ob where ob: "ts_items c key = Some ob" using Cons.prems(5) by auto
  have "(ts_items c |` D) key = None" using Cons.prems(4) by simp
  from updateIndices_ok [OF Cons.prems(1,2) this, of ob] obtain ixs where
    upd: "updateIndices None ob key c = Inr (c\<lparr>ts_indices := ixs\<rparr>)"
    and ok: "indices_ok (ts_indexers c) ((ts_items c |` D)(key \<mapsto> ob)) ixs" by blast
  have "(ts_items c |` D)(key \<mapsto> ob) = ts_items c |` insert key D"
    using ob by (auto simp: restrict_map_def)
  then have "\<exists>ixs'. index_all keys (c\<lparr>ts_indices := ixs\<rparr>) = Inr (c\<lparr>ts_indices := ixs'\<rparr>)
      \<and> indices_ok (ts_indexers c) (ts_items c |` (insert key D \<union> set keys)) ixs'"
    using Cons.IH [of "c\<lparr>ts_indices := ixs\<rparr>" "insert key D"] Cons.prems ok by simp
  with upd ob show ?case by simp
next
  case Nil
  then show ?case by (intro exI [of _ "ts_indices c"]) simp
qed

text \<open>An order of visiting a set: every member once.\<close>

definition visits :: "(string set \<Rightarrow> string list) \<Rightarrow> bool" where
  "visits ord \<longleftrightarrow> (\<forall>S. finite S \<longrightarrow> distinct (ord S) \<and> set (ord S) = S)"

lemma visitsD: "visits ord \<Longrightarrow> finite S \<Longrightarrow> distinct (ord S)" "visits ord \<Longrightarrow> finite S \<Longrightarrow> set (ord S) = S"
  by (simp_all add: visits_def)

lemma ts_Replace_ok:
  assumes "ts_ok c" and "visits ord" and "finite (dom items)"
  shows "\<exists>c'. ts_Replace ord items c = Inr c' \<and> ts_ok c' \<and> ts_indexers c' = ts_indexers c \<and> ts_items c' = items"
proof -
  let ?c = "c\<lparr>ts_items := items, ts_indices := Map.empty\<rparr>"
  have "items |` dom items = items" by (rule ext) (auto simp: restrict_map_def domIff)
  then show ?thesis
    using index_all_ok [of ?c "{}" "ord (dom items)"] assms(1) visitsD [OF assms(2,3)]
    by (auto simp: ts_Replace_def ts_ok_def)
qed

section \<open>The cache refines a map of identities\<close>

type_synonym ident = "string \<times> string"

definition ident_of :: "F5IPAM \<Rightarrow> ident" where
  "ident_of r = (Namespace r, Name r)"

definition plain_ident :: "ident \<Rightarrow> bool" where
  "plain_ident p \<longleftrightarrow> CHR ''/'' \<notin> set (fst p) \<and> CHR ''/'' \<notin> set (snd p)"

definition ident_key :: "ident \<Rightarrow> string" where
  "ident_key p = (if fst p \<noteq> [] then fst p @ ''/'' @ snd p else snd p)"

lemma MetaNamespaceKeyFunc_ident: "MetaNamespaceKeyFunc r = ident_key (ident_of r)"
  by (simp add: MetaNamespaceKeyFunc_def ident_key_def ident_of_def)

lemma two_parts:
  assumes "CHR ''/'' \<notin> set a" and "CHR ''/'' \<notin> set b"
  shows "a @ CHR ''/'' # x = b @ CHR ''/'' # y \<longleftrightarrow> a = b \<and> x = y"
proof -
  have until: "takeWhile (\<lambda>k. k \<noteq> CHR ''/'') (l @ CHR ''/'' # z) = l" if "CHR ''/'' \<notin> set l" for l z
    using that by (induction l) auto
  have "a = b" if "a @ CHR ''/'' # x = b @ CHR ''/'' # y"
    using until [OF assms(1), of x] until [OF assms(2), of y] that by simp
  then show ?thesis by auto
qed

lemma ident_key_inj:
  assumes "plain_ident p" and "plain_ident q" and "ident_key p = ident_key q"
  shows "p = q"
  using assms two_parts [of "fst p" "fst q" "snd p" "snd q"]
  by (cases p; cases q) (auto simp: plain_ident_def ident_key_def split: if_splits)

datatype cache_op = C_Add F5IPAM | C_Update F5IPAM | C_Delete F5IPAM | C_Replace "F5IPAM list"

fun op_objects :: "cache_op \<Rightarrow> F5IPAM set" where
  "op_objects (C_Add r) = {r}"
| "op_objects (C_Update r) = {r}"
| "op_objects (C_Delete r) = {r}"
| "op_objects (C_Replace rs) = set rs"

fun cache_step :: "(string set \<Rightarrow> string list) \<Rightarrow> cache_op \<Rightarrow> F5IPAM threadSafeMap \<Rightarrow> F5IPAM threadSafeMap go" where
  "cache_step ord (C_Add r) c = cache_Add r c"
| "cache_step ord (C_Update r) c = cache_Update r c"
| "cache_step ord (C_Delete r) c = cache_Delete r c"
| "cache_step ord (C_Replace rs) c = cache_Replace ord rs c"

fun cache_run :: "(string set \<Rightarrow> string list) \<Rightarrow> cache_op list \<Rightarrow> F5IPAM threadSafeMap \<Rightarrow> F5IPAM threadSafeMap go" where
  "cache_run ord [] c = Inr c"
| "cache_run ord (x # xs) c = go_bind (cache_step ord x c) (\<lambda>c1. cache_run ord xs c1)"

fun spec_step :: "cache_op \<Rightarrow> (ident \<rightharpoonup> F5IPAM) \<Rightarrow> (ident \<rightharpoonup> F5IPAM)" where
  "spec_step (C_Add r) m = m(ident_of r \<mapsto> r)"
| "spec_step (C_Update r) m = m(ident_of r \<mapsto> r)"
| "spec_step (C_Delete r) m = m(ident_of r := None)"
| "spec_step (C_Replace rs) m = fold (\<lambda>r n. n(ident_of r \<mapsto> r)) rs Map.empty"

text \<open>The items hold the map, every object under the key of its identity.\<close>

definition holds :: "(ident \<rightharpoonup> F5IPAM) \<Rightarrow> (string \<rightharpoonup> F5IPAM) \<Rightarrow> bool" where
  "holds m items \<longleftrightarrow> finite (dom items)
    \<and> (\<forall>p. plain_ident p \<longrightarrow> items (ident_key p) = m p)
    \<and> (\<forall>p r. m p = Some r \<longrightarrow> plain_ident p \<and> ident_of r = p)
    \<and> (\<forall>key r. items key = Some r \<longrightarrow> plain_ident (ident_of r) \<and> key = ident_key (ident_of r))"

definition cache_ok :: "(ident \<rightharpoonup> F5IPAM) \<Rightarrow> F5IPAM threadSafeMap \<Rightarrow> bool" where
  "cache_ok m c \<longleftrightarrow> ts_ok c \<and> ts_indexers c = [(NamespaceIndex, MetaNamespaceIndexFunc)] \<and> holds m (ts_items c)"

lemma holds_empty: "holds Map.empty Map.empty"
  by (simp add: holds_def)

lemma ident_key_eq: "plain_ident p \<Longrightarrow> plain_ident q \<Longrightarrow> ident_key p = ident_key q \<longleftrightarrow> p = q"
  using ident_key_inj by blast

lemma holdsD: "holds m items \<Longrightarrow> plain_ident p \<Longrightarrow> items (ident_key p) = m p"
  unfolding holds_def by blast

lemma holds_ident: "holds m items \<Longrightarrow> m p = Some r \<Longrightarrow> plain_ident p \<and> ident_of r = p"
  unfolding holds_def by blast

lemma holds_upd:
  assumes "holds m items" and "plain_ident p" and "\<forall>r. v = Some r \<longrightarrow> ident_of r = p"
  shows "holds (m(p := v)) (items(ident_key p := v))"
  unfolding holds_def
proof (intro conjI allI impI)
  show "finite (dom (items(ident_key p := v)))" using assms(1) by (cases v) (simp_all add: holds_def)
next
  fix q
  assume "plain_ident q"
  then show "(items(ident_key p := v)) (ident_key q) = (m(p := v)) q"
    using assms(1,2) by (simp add: holdsD ident_key_eq)
next
  fix q r
  assume "(m(p := v)) q = Some r"
  then show "plain_ident q" "ident_of r = q"
    using assms(2,3) holds_ident [OF assms(1), of q r] by (auto split: if_splits)
next
  fix key r
  assume "(items(ident_key p := v)) key = Some r"
  then show "plain_ident (ident_of r)" "key = ident_key (ident_of r)"
    using assms by (auto simp: holds_def split: if_splits)
qed

lemma holds_put:
  assumes "holds m items" and "plain_ident (ident_of r)"
  shows "holds (m(ident_of r \<mapsto> r)) (items(ident_key (ident_of r) \<mapsto> r))"
  using holds_upd [OF assms, of "Some r"] by simp

lemma holds_remove:
  assumes "holds m items" and "plain_ident (ident_of r)"
  shows "holds (m(ident_of r := None)) (items(ident_key (ident_of r) := None))"
  using holds_upd [OF assms, of None] by simp

lemma holds_fold:
  assumes "holds m items" and "\<forall>r\<in>set rs. plain_ident (ident_of r)"
  shows "holds (fold (\<lambda>r n. n(ident_of r \<mapsto> r)) rs m)
    (fold (\<lambda>r items. items(MetaNamespaceKeyFunc r \<mapsto> r)) rs items)"
  using assms
proof (induction rs arbitrary: m items)
  case (Cons r rs)
  then show ?case using holds_put [of m items r]
    by (simp add: MetaNamespaceKeyFunc_ident del: fun_upd_apply)
qed simp

lemma NewIndexer_ok: "cache_ok Map.empty NewIndexer"
  by (simp add: cache_ok_def ts_ok_def NewIndexer_def NewThreadSafeStore_def holds_empty indexers_ok_def
      MetaNamespaceIndexFunc_def stored_index_def index_of_def keys_with_def)

lemma cache_step_ok:
  assumes "visits ord" and "cache_ok m c" and "\<forall>r\<in>op_objects x. plain_ident (ident_of r)"
  shows "\<exists>c'. cache_step ord x c = Inr c' \<and> cache_ok (spec_step x m) c'"
proof -
  have ts: "ts_ok c" and hd: "holds m (ts_items c)" using assms(2) by (simp_all add: cache_ok_def)
  show ?thesis
  proof (cases x)
    case (C_Add r)
    with ts_Add_ok [OF ts, of "MetaNamespaceKeyFunc r" r] holds_put [OF hd, of r] assms(2,3)
    show ?thesis by (auto simp: cache_Add_def cache_ok_def MetaNamespaceKeyFunc_ident)
  next
    case (C_Update r)
    with ts_Update_ok [OF ts, of "MetaNamespaceKeyFunc r" r] holds_put [OF hd, of r] assms(2,3)
    show ?thesis by (auto simp: cache_Update_def cache_ok_def MetaNamespaceKeyFunc_ident)
  next
    case (C_Delete r)
    with ts_Delete_ok [OF ts, of "MetaNamespaceKeyFunc r"] holds_remove [OF hd, of r] assms(2,3)
    show ?thesis by (auto simp: cache_Delete_def cache_ok_def MetaNamespaceKeyFunc_ident)
  next
    case (C_Replace rs)
    let ?items = "fold (\<lambda>r items. items(MetaNamespaceKeyFunc r \<mapsto> r)) rs Map.empty"
    have new: "holds (spec_step x m) ?items"
      using holds_fold [OF holds_empty, of rs] assms(3) C_Replace by simp
    then have "finite (dom ?items)" by (simp add: holds_def)
    from ts_Replace_ok [OF ts assms(1) this] new assms(2) C_Replace
    show ?thesis by (auto simp: cache_Replace_def cache_ok_def)
  qed
qed

lemma cache_run_ok:
  assumes "visits ord" and "cache_ok m c" and "\<forall>x\<in>set xs. \<forall>r\<in>op_objects x. plain_ident (ident_of r)"
  shows "\<exists>c'. cache_run ord xs c = Inr c' \<and> cache_ok (fold spec_step xs m) c'"
  using assms(2,3)
proof (induction xs arbitrary: m c)
  case (Cons x xs)
  obtain c1 where "cache_step ord x c = Inr c1" "cache_ok (spec_step x m) c1"
    using cache_step_ok [OF assms(1) Cons.prems(1), of x] Cons.prems(2) by auto
  with Cons.IH [of "spec_step x m" c1] Cons.prems(2) show ?case by simp
qed simp

section \<open>What the lister needs of the indexer\<close>

definition selected :: "(F5IPAM \<Rightarrow> (string \<times> string) list) \<Rightarrow> selector \<Rightarrow> F5IPAM \<Rightarrow> bool" where
  "selected labels sel r \<longleftrightarrow> sel_Empty sel \<or> sel_Matches sel (labels r)"

text \<open>
  \<open>ok m c\<close>: the indexer holds the map \<open>m\<close>, every object under its own namespace and name.
\<close>

locale object_index =
  fixes I :: "'c Indexer" and ok :: "(ident \<rightharpoonup> F5IPAM) \<Rightarrow> 'c \<Rightarrow> bool"
  assumes own_ident: "ok m c \<Longrightarrow> m p = Some r \<Longrightarrow> ident_of r = p"
    and lists: "ok m c \<Longrightarrow> distinct (ix_List I c) \<and> set (ix_List I c) = ran m"
    and indexed: "ok m c \<Longrightarrow> \<exists>rs. ix_Index I NamespaceIndex (zero_F5IPAM\<lparr>Namespace := ns\<rparr>) c = Some (map Some rs)
      \<and> distinct rs \<and> set rs = {r \<in> ran m. Namespace r = ns}"
    and keyed: "ok m c \<Longrightarrow> ix_GetByKey I (ns @ ''/'' @ nm) c = (if ns = [] then None else m (ns, nm))"
begin

lemma in_ran: "ok m c \<Longrightarrow> r \<in> ran m \<longleftrightarrow> m (ident_of r) = Some r"
  using own_ident unfolding ran_def by blast

lemma get_exact:
  assumes "ok m c"
  shows "NamespaceLister_Get I (Lister_F5IPAMs (NewF5IPAMLister c) ns) nm =
    (case if ns = [] then None else m (ns, nm) of
       None \<Rightarrow> Inl (NotFound (fic_Resource ''f5ipam'') nm)
     | Some r \<Rightarrow> Inr r)"
  using keyed [OF assms, of ns nm] by (simp add: NamespaceLister_Get_def Lister_F5IPAMs_def NewF5IPAMLister_def)

lemma list_exact:
  assumes "ok m c"
  shows "distinct (Lister_List I labels (NewF5IPAMLister c) sel)
    \<and> set (Lister_List I labels (NewF5IPAMLister c) sel) = {r. m (ident_of r) = Some r \<and> selected labels sel r}"
  using lists [OF assms] by (auto simp: Lister_List_def NewF5IPAMLister_def ListAll_def selected_def in_ran [OF assms])

lemma namespace_list_exact:
  assumes "ok m c" and "ns \<noteq> []"
  shows "\<exists>rs. NamespaceLister_List I labels (Lister_F5IPAMs (NewF5IPAMLister c) ns) sel = Inr (Some rs)
    \<and> distinct rs \<and> set rs = {r. m (ns, Name r) = Some r \<and> selected labels sel r}"
proof -
  obtain rs where rs: "ix_Index I NamespaceIndex (zero_F5IPAM\<lparr>Namespace := ns\<rparr>) c = Some (map Some rs)"
    "distinct rs" "set rs = {r \<in> ran m. Namespace r = ns}"
    using indexed [OF assms(1)] by blast
  have sel: "(\<lambda>r. sel_Empty sel \<or> sel_Matches sel (labels r)) = selected labels sel"
    by (rule ext) (simp add: selected_def)
  have "NamespaceLister_List I labels (Lister_F5IPAMs (NewF5IPAMLister c) ns) sel = Inr (Some (filter (selected labels sel) rs))"
    using assms(2) rs(1)
    by (auto simp: NamespaceLister_List_def Lister_F5IPAMs_def NewF5IPAMLister_def ListAllByNamespace_def sel comp_def)
  moreover have "{r \<in> ran m. Namespace r = ns} = {r. m (ns, Name r) = Some r}"
    using own_ident [OF assms(1)] by (auto simp: in_ran [OF assms(1)] ident_of_def)
  ultimately show ?thesis using rs(2,3) by (intro exI [of _ "filter (selected labels sel) rs"]) auto
qed

end

section \<open>The cache is such an indexer\<close>

lemma holds_ran:
  assumes "holds m items"
  shows "(\<exists>key. items key = Some r) \<longleftrightarrow> r \<in> ran m"
proof
  assume "\<exists>key. items key = Some r"
  then obtain key where key: "items key = Some r" by blast
  then have "plain_ident (ident_of r)" "key = ident_key (ident_of r)"
    using assms unfolding holds_def by blast+
  with holdsD [OF assms, of "ident_of r"] key have "m (ident_of r) = Some r" by simp
  then show "r \<in> ran m" by (rule ranI)
next
  assume "r \<in> ran m"
  then obtain p where p: "m p = Some r" unfolding ran_def by blast
  with holds_ident [OF assms p] holdsD [OF assms, of p] show "\<exists>key. items key = Some r" by auto
qed

lemma holds_key: "holds m items \<Longrightarrow> items key = Some r \<Longrightarrow> key = ident_key (ident_of r)"
  unfolding holds_def by blast

lemma visited_objects:
  assumes "visits ord" and "holds m items" and "K \<subseteq> dom items"
  shows "distinct (map (\<lambda>key. the (items key)) (ord K))"
    and "set (map (\<lambda>key. the (items key)) (ord K)) = {r. \<exists>key\<in>K. items key = Some r}"
    and "set (ord K) = K"
proof -
  have "finite K" using assms(2,3) by (auto simp: holds_def intro: finite_subset)
  note K = visitsD [OF assms(1) this]
  have "inj_on (\<lambda>key. the (items key)) K"
  proof (rule inj_onI)
    fix k k'
    assume "k \<in> K" "k' \<in> K" "the (items k) = the (items k')"
    moreover from this obtain r r' where "items k = Some r" "items k' = Some r'" using assms(3) by blast
    ultimately show "k = k'" using holds_key [OF assms(2), of k r] holds_key [OF assms(2), of k' r'] by simp
  qed
  then show "distinct (map (\<lambda>key. the (items key)) (ord K))" using K by (simp add: distinct_map)
  have "\<exists>r. items k = Some r" if "k \<in> K" for k using that assms(3) by blast
  then show "set (map (\<lambda>key. the (items key)) (ord K)) = {r. \<exists>key\<in>K. items key = Some r}"
    using K(2) by (force simp: image_iff)
  show "set (ord K) = K" by (rule K(2))
qed

lemma ts_List_exact:
  assumes "visits ord" and "cache_ok m c"
  shows "distinct (ts_List ord c)" and "set (ts_List ord c) = ran m"
proof -
  have hd: "holds m (ts_items c)" using assms(2) by (simp add: cache_ok_def)
  note all = visited_objects [OF assms(1) hd subset_refl]
  show "distinct (ts_List ord c)" unfolding ts_List_def by (rule all(1))
  have "{r. \<exists>key\<in>dom (ts_items c). ts_items c key = Some r} = ran m"
    using holds_ran [OF hd] by blast
  with all(2) show "set (ts_List ord c) = ran m" by (simp only: ts_List_def)
qed

lemma namespace_keys:
  assumes "cache_ok m c"
  shows "stored_index (ts_indices c) NamespaceIndex = index_of MetaNamespaceIndexFunc (ts_items c)"
    and "keys_with MetaNamespaceIndexFunc ns (ts_items c) = {key. \<exists>r. ts_items c key = Some r \<and> Namespace r = ns}"
  using assms by (auto simp: cache_ok_def ts_ok_def keys_with_def MetaNamespaceIndexFunc_def)

lemma ts_Index_exact:
  assumes "cache_ok m c"
  shows "ts_Index ord NamespaceIndex (zero_F5IPAM\<lparr>Namespace := ns\<rparr>) c
    = Some (map (ts_items c) (ord {key. \<exists>r. ts_items c key = Some r \<and> Namespace r = ns}))"
proof -
  have "map_of (ts_indexers c) NamespaceIndex = Some MetaNamespaceIndexFunc"
    using assms by (simp add: cache_ok_def)
  moreover have "(case stored_index (ts_indices c) NamespaceIndex ns of None \<Rightarrow> {} | Some S \<Rightarrow> S)
      = {key. \<exists>r. ts_items c key = Some r \<and> Namespace r = ns}"
    by (simp add: namespace_keys [OF assms] index_of_def)
  moreover have "MetaNamespaceIndexFunc (zero_F5IPAM\<lparr>Namespace := ns\<rparr>) = Some [ns]"
    by (simp add: MetaNamespaceIndexFunc_def)
  ultimately show ?thesis by (simp add: ts_Index_def stored_index_def Let_def)
qed

lemma namespace_indexed:
  assumes "visits ord" and "cache_ok m c"
  shows "\<exists>rs. ts_Index ord NamespaceIndex (zero_F5IPAM\<lparr>Namespace := ns\<rparr>) c = Some (map Some rs)
    \<and> distinct rs \<and> set rs = {r \<in> ran m. Namespace r = ns}"
proof -
  let ?K = "{key. \<exists>r. ts_items c key = Some r \<and> Namespace r = ns}"
  let ?rs = "map (\<lambda>key. the (ts_items c key)) (ord ?K)"
  have hd: "holds m (ts_items c)" using assms(2) by (simp add: cache_ok_def)
  have sub: "?K \<subseteq> dom (ts_items c)" by blast
  note K = visited_objects [OF assms(1) hd sub]
  have "{r. \<exists>key\<in>?K. ts_items c key = Some r} = {r \<in> ran m. Namespace r = ns}"
    using holds_ran [OF hd] by (auto, blast+)
  with K(2) have set: "set ?rs = {r \<in> ran m. Namespace r = ns}" by simp
  have "map (ts_items c) (ord ?K) = map Some ?rs" using K(3) by auto
  with K(1) set show ?thesis unfolding ts_Index_exact [OF assms(2)] by blast
qed

lemma key_of_pair:
  assumes "plain_ident p" and "ns @ ''/'' @ nm = ident_key p"
  shows "ns \<noteq> [] \<and> p = (ns, nm)"
proof -
  let ?f = "filter (\<lambda>k. k = CHR ''/'')"
  have none: "?f l = []" if "CHR ''/'' \<notin> set l" for l using that by (auto simp: filter_empty_conv)
  have "?f ns @ CHR ''/'' # ?f nm = (if fst p = [] then [] else [CHR ''/''])"
    using arg_cong [OF assms(2), of ?f] assms(1) none by (simp add: ident_key_def plain_ident_def split: if_splits)
  then have *: "fst p \<noteq> []" "?f ns = []" by (auto simp: append_eq_Cons_conv split: if_splits)
  from *(2) have "CHR ''/'' \<notin> set ns" by (auto simp: filter_empty_conv)
  with two_parts [of ns "fst p" nm "snd p"] assms *(1) have "ns = fst p \<and> nm = snd p"
    by (simp add: ident_key_def plain_ident_def)
  with *(1) show ?thesis by auto
qed

lemma pair_keyed:
  assumes "cache_ok m c"
  shows "ts_items c (ns @ ''/'' @ nm) = (if ns = [] then None else m (ns, nm))"
proof -
  have hd: "holds m (ts_items c)" using assms by (simp add: cache_ok_def)
  show ?thesis
  proof (cases "ns \<noteq> [] \<and> plain_ident (ns, nm)")
    case True
    with holdsD [OF hd, of "(ns, nm)"] show ?thesis by (simp add: ident_key_def)
  next
    case False
    have "ts_items c (ns @ ''/'' @ nm) = None"
    proof (rule ccontr)
      assume "ts_items c (ns @ ''/'' @ nm) \<noteq> None"
      then obtain r where "plain_ident (ident_of r)" "ns @ ''/'' @ nm = ident_key (ident_of r)"
        using hd unfolding holds_def by blast
      with key_of_pair [of "ident_of r" ns nm] False show False by auto
    qed
    moreover have "ns = [] \<or> m (ns, nm) = None" using False holds_ident [OF hd, of "(ns, nm)"] by auto
    ultimately show ?thesis by auto
  qed
qed

locale visiting =
  fixes ord :: "string set \<Rightarrow> string list"
  assumes visits: "visits ord"

sublocale visiting \<subseteq> object_index "cache_indexer ord" cache_ok
proof (unfold_locales, goal_cases)
  case (1 m c p r)
  then show ?case using holds_ident [of m "ts_items c" p r] by (simp add: cache_ok_def)
next
  case (2 m c)
  then show ?case using ts_List_exact [OF visits] by (simp add: cache_indexer_def)
next
  case (3 m c ns)
  then show ?case using namespace_indexed [OF visits] by (simp add: cache_indexer_def)
next
  case (4 m c ns nm)
  then show ?case using pair_keyed by (simp add: cache_indexer_def cache_GetByKey_def ts_Get_def)
qed

context visiting
begin

lemmas reads = get_exact namespace_list_exact list_exact

end

interpretation sorted: visiting "sorted_list_of_set :: string set \<Rightarrow> string list"
  by unfold_locales (simp add: visits_def)

text \<open>C10: whatever objects the watch adds, updates, deletes and replaces (with no slash in
  their names), the indexed cache never panics and the generated lister shows the map of
  identities to objects they leave: \<open>Get\<close> in a namespace returns the object of that name or
  NotFound, \<open>List\<close> of a namespace all of its selected objects, each once, and \<open>List\<close> the
  selected objects of all namespaces. In the empty namespace \<open>Get\<close> finds nothing.\<close>

theorem lister_exact:
  assumes "visits ord" and "\<forall>x\<in>set xs. \<forall>r\<in>op_objects x. plain_ident (ident_of r)"
  shows "\<exists>c. cache_run ord xs NewIndexer = Inr c
    \<and> (let m = fold spec_step xs Map.empty; I = cache_indexer ord in
        (\<forall>ns nm. NamespaceLister_Get I (Lister_F5IPAMs (NewF5IPAMLister c) ns) nm =
           (case if ns = [] then None else m (ns, nm) of
              None \<Rightarrow> Inl (NotFound (fic_Resource ''f5ipam'') nm) | Some r \<Rightarrow> Inr r))
      \<and> (\<forall>labels sel ns. ns \<noteq> [] \<longrightarrow>
           (\<exists>rs. NamespaceLister_List I labels (Lister_F5IPAMs (NewF5IPAMLister c) ns) sel = Inr (Some rs) \<and> distinct rs
             \<and> set rs = {r. m (ns, Name r) = Some r \<and> selected labels sel r}))
      \<and> (\<forall>labels sel. distinct (Lister_List I labels (NewF5IPAMLister c) sel)
           \<and> set (Lister_List I labels (NewF5IPAMLister c) sel) =
               {r. m (ident_of r) = Some r \<and> selected labels sel r}))"
proof -
  obtain c where run: "cache_run ord xs NewIndexer = Inr c" and ok: "cache_ok (fold spec_step xs Map.empty) c"
    using cache_run_ok [OF assms(1) NewIndexer_ok assms(2)] by blast
  have v: "visiting ord" by unfold_locales (rule assms(1))
  show ?thesis
    unfolding Let_def
    using run visiting.reads [OF v ok]
    by (intro exI [of _ c] conjI allI impI) simp_all
qed

definition cached_rsc :: "string \<Rightarrow> string \<Rightarrow> string \<Rightarrow> F5IPAM" where
  "cached_rsc ns nm v = zero_F5IPAM\<lparr>Namespace := ns, Name := nm, ResourceVersion := v\<rparr>"

theorem lister_exact_witness:
  "\<exists>c. cache_run sorted_list_of_set
        [C_Replace [cached_rsc ''infra'' ''ipam'' ''7''], C_Add (cached_rsc ''infra'' ''old'' ''8''),
         C_Update (cached_rsc ''infra'' ''ipam'' ''9''), C_Delete (cached_rsc ''infra'' ''old'' ''8'')] NewIndexer = Inr c
    \<and> NamespaceLister_Get (cache_indexer sorted_list_of_set) (Lister_F5IPAMs (NewF5IPAMLister c) ''infra'') ''ipam'' = Inr (cached_rsc ''infra'' ''ipam'' ''9'')
    \<and> NamespaceLister_Get (cache_indexer sorted_list_of_set) (Lister_F5IPAMs (NewF5IPAMLister c) ''infra'') ''old'' = Inl (NotFound (fic_Resource ''f5ipam'') ''old'')"
  (is "\<exists>c. cache_run ?ord ?xs _ = _ \<and> _")
proof -
  have "visits sorted_list_of_set" by (rule sorted.visits)
  moreover have "\<forall>x\<in>set ?xs. \<forall>r\<in>op_objects x. plain_ident (ident_of r)"
    by (simp add: plain_ident_def ident_of_def cached_rsc_def)
  ultimately obtain c where run: "cache_run ?ord ?xs NewIndexer = Inr c"
    and get: "\<forall>ns nm. NamespaceLister_Get (cache_indexer ?ord) (Lister_F5IPAMs (NewF5IPAMLister c) ns) nm =
      (case if ns = [] then None else fold spec_step ?xs Map.empty (ns, nm) of
         None \<Rightarrow> Inl (NotFound (fic_Resource ''f5ipam'') nm) | Some r \<Rightarrow> Inr r)"
    using lister_exact [of ?ord ?xs] unfolding Let_def by blast
  have "NamespaceLister_Get (cache_indexer sorted_list_of_set) (Lister_F5IPAMs (NewF5IPAMLister c) ''infra'') ''ipam'' = Inr (cached_rsc ''infra'' ''ipam'' ''9'')"
    "NamespaceLister_Get (cache_indexer sorted_list_of_set) (Lister_F5IPAMs (NewF5IPAMLister c) ''infra'') ''old'' = Inl (NotFound (fic_Resource ''f5ipam'') ''old'')"
    using get by (simp_all add: ident_of_def cached_rsc_def)
  with run show ?thesis by blast
qed

end
