(* ===== verification/Fakes.thy ===== *)
theory Fakes
  imports Lister
begin

text \<open>
  The fake clients (\<open>pkg/ipamapis/client/clientset/versioned/fake\<close> and
  \<open>typed/fic/v1/fake\<close>) over the object tracker of the vendored \<open>client-go/testing\<close>
  (\<open>fixture.go\<close>, \<open>fake.go\<close>, \<open>actions.go\<close>). The tracker copies what it stores and returns, so
  objects are values; a watcher is the list of its undelivered events. The parsers of
  selectors and the patch libraries are parameters.
\<close>

section \<open>The object tracker\<close>

type_synonym gvr = "string \<times> string \<times> string"  \<comment> \<open>group, version, resource\<close>

datatype fake_error =
    FE_NotFound "string \<times> string" string
  | FE_AlreadyExists "string \<times> string" string
  | FE_BadRequest string string         \<comment> \<open>namespace of the request, of the object\<close>
  | FE_MoreThanOne gvr string string
  | FE_NotRegistered gvr
  | FE_NoKind
  | FE_NotObject
  | FE_NoReaction
  | FE_PatchType
  | FE_Patch

datatype fake_event = Added F5IPAM | Modified F5IPAM | Deleted F5IPAM

record tracker =
  tr_scheme :: scheme
  tr_objects :: "gvr \<Rightarrow> F5IPAM list"
  tr_watchers :: "gvr \<Rightarrow> string \<Rightarrow> nat list"  \<comment> \<open>pointers into \<open>tr_fakes\<close>\<close>
  tr_fakes :: "fake_event list list"

definition NewObjectTracker :: "scheme \<Rightarrow> tracker" where
  "NewObjectTracker sch = \<lparr>tr_scheme = sch, tr_objects = (\<lambda>g. []), tr_watchers = (\<lambda>g ns. []), tr_fakes = []\<rparr>"

definition GroupResource :: "gvr \<Rightarrow> string \<times> string" where
  "GroupResource g = (fst g, snd (snd g))"

definition DefaultChanSize :: nat where
  "DefaultChanSize = 100"

text \<open>Sending an event to a watcher whose channel is full panics.\<close>

fun notify :: "fake_event \<Rightarrow> nat list \<Rightarrow> fake_event list list \<Rightarrow> fake_event list list go" where
  "notify ev [] ws = Inr ws"
| "notify ev (i # is) ws =
     (if length (ws ! i) < DefaultChanSize then notify ev is (ws[i := ws ! i @ [ev]])
      else Inl (UserPanic ''channel full''))"

definition getWatches :: "tracker \<Rightarrow> gvr \<Rightarrow> string \<Rightarrow> nat list" where
  "getWatches t g ns = tr_watchers t g ns @ (if ns \<noteq> [] then tr_watchers t g [] else [])"

fun index_named :: "string \<Rightarrow> string \<Rightarrow> F5IPAM list \<Rightarrow> nat option" where
  "index_named ns nm [] = None"
| "index_named ns nm (r # rs) =
     (if Namespace r = ns \<and> Name r = nm then Some 0 else map_option Suc (index_named ns nm rs))"

definition tracker_add :: "gvr \<Rightarrow> F5IPAM \<Rightarrow> string \<Rightarrow> bool \<Rightarrow> tracker \<Rightarrow> (fake_error option \<times> tracker) go" where
  "tracker_add g obj ns replaceExisting t =
     (let r = (if Namespace obj = [] then obj\<lparr>Namespace := ns\<rparr> else obj)
      in if ns \<noteq> Namespace r then Inr (Some (FE_BadRequest ns (Namespace r)), t)
         else case index_named (Namespace r) (Name r) (tr_objects t g) of
             Some i \<Rightarrow>
               if replaceExisting then
                 go_bind (notify (Modified r) (getWatches t g ns) (tr_fakes t)) (\<lambda>ws.
                   Inr (None, t\<lparr>tr_fakes := ws, tr_objects := (tr_objects t)(g := (tr_objects t g)[i := r])\<rparr>))
               else Inr (Some (FE_AlreadyExists (GroupResource g) (Name r)), t)
           | None \<Rightarrow>
               if replaceExisting then Inr (Some (FE_NotFound (GroupResource g) (Name r)), t)
               else
                 go_bind (notify (Added r) (getWatches t g ns) (tr_fakes t)) (\<lambda>ws.
                   Inr (None, t\<lparr>tr_objects := (tr_objects t)(g := tr_objects t g @ [r]), tr_fakes := ws\<rparr>)))"

definition tracker_Create :: "gvr \<Rightarrow> F5IPAM \<Rightarrow> string \<Rightarrow> tracker \<Rightarrow> (fake_error option \<times> tracker) go" where
  "tracker_Create g obj ns t = tracker_add g obj ns False t"

definition tracker_Update :: "gvr \<Rightarrow> F5IPAM \<Rightarrow> string \<Rightarrow> tracker \<Rightarrow> (fake_error option \<times> tracker) go" where
  "tracker_Update g obj ns t = tracker_add g obj ns True t"

text \<open>An empty namespace or name matches every object.\<close>

definition name_matches :: "string \<Rightarrow> string \<Rightarrow> F5IPAM \<Rightarrow> bool" where
  "name_matches ns nm r \<longleftrightarrow> (ns = [] \<or> Namespace r = ns) \<and> (nm = [] \<or> Name r = nm)"

definition filterByNamespaceAndName :: "F5IPAM list \<Rightarrow> string \<Rightarrow> string \<Rightarrow> F5IPAM list" where
  "filterByNamespaceAndName objs ns nm = filter (name_matches ns nm) objs"

definition tracker_Get :: "gvr \<Rightarrow> string \<Rightarrow> string \<Rightarrow> tracker \<Rightarrow> fake_error + F5IPAM" where
  "tracker_Get g ns nm t =
     (case filterByNamespaceAndName (tr_objects t g) ns nm of
        [] \<Rightarrow> Inl (FE_NotFound (GroupResource g) nm)
      | [r] \<Rightarrow> Inr r
      | _ \<Rightarrow> Inl (FE_MoreThanOne g ns nm))"

definition tracker_List :: "gvr \<Rightarrow> gvr \<Rightarrow> string \<Rightarrow> tracker \<Rightarrow> fake_error + F5IPAM list" where
  "tracker_List g gvk ns t =
     (let (group, version, kind) = gvk;
          version' = (if version = [] then ''__internal'' else version)
      in if ((group, version'), kind @ ''List'') \<notin> set (tr_scheme t)
         then Inl (FE_NotRegistered (group, version', kind @ ''List''))
         else Inr (filterByNamespaceAndName (tr_objects t g) ns []))"

definition tracker_Delete :: "gvr \<Rightarrow> string \<Rightarrow> string \<Rightarrow> tracker \<Rightarrow> (fake_error option \<times> tracker) go" where
  "tracker_Delete g ns nm t =
     (case index_named ns nm (tr_objects t g) of
        None \<Rightarrow> Inr (Some (FE_NotFound (GroupResource g) nm), t)
      | Some i \<Rightarrow>
          go_bind (notify (Deleted (tr_objects t g ! i)) (getWatches t g ns) (tr_fakes t)) (\<lambda>ws.
            Inr (None, t\<lparr>tr_objects := (tr_objects t)(g := take i (tr_objects t g) @ drop (Suc i) (tr_objects t g)),
                         tr_fakes := ws\<rparr>)))"

definition tracker_Watch :: "gvr \<Rightarrow> string \<Rightarrow> tracker \<Rightarrow> nat \<times> tracker" where
  "tracker_Watch g ns t =
     (let i = length (tr_fakes t)
      in (i, t\<lparr>tr_fakes := tr_fakes t @ [[]],
               tr_watchers := (tr_watchers t)(g := (tr_watchers t g)(ns := tr_watchers t g ns @ [i]))\<rparr>))"

text \<open>\<open>Add\<close> files an object under the resource guessed from its registered kinds.\<close>

definition UnsafeGuessKindToResource :: "(string \<times> string) \<times> string \<Rightarrow> gvr" where
  "UnsafeGuessKindToResource gvk =
     (let ((group, version), kind) = gvk; singular = to_lower kind
      in if kind = [] then ([], [], [])
         else if drop (length singular - 9) singular = ''endpoints'' then (group, version, singular)
         else if last singular = CHR ''s'' then (group, version, singular @ ''es'')
         else if last singular = CHR ''y'' then (group, version, butlast singular @ ''ies'')
         else (group, version, singular @ ''s''))"

definition ObjectKinds :: "scheme \<Rightarrow> ((string \<times> string) \<times> string) list" where
  "ObjectKinds sch = filter (\<lambda>(gv, kind). kind = ''F5IPAM'') sch"

fun add_kinds :: "((string \<times> string) \<times> string) list \<Rightarrow> F5IPAM \<Rightarrow> tracker \<Rightarrow> (fake_error option \<times> tracker) go" where
  "add_kinds [] obj t = Inr (None, t)"
| "add_kinds (gvk # gvks) obj t =
     (let (group, version, resource) = UnsafeGuessKindToResource gvk;
          version' = (if version = ''__internal'' then [] else version)
      in go_bind (tracker_add (group, version', resource) obj (Namespace obj) False t) (\<lambda>(err, t1).
           if err \<noteq> None then Inr (err, t1) else add_kinds gvks obj t1))"

definition tracker_Add :: "F5IPAM \<Rightarrow> tracker \<Rightarrow> (fake_error option \<times> tracker) go" where
  "tracker_Add obj t =
     (let gvks = ObjectKinds (tr_scheme t)
      in if gvks = [] then Inr (Some FE_NoKind, t) else add_kinds gvks obj t)"

section \<open>Actions and reactions\<close>

datatype fake_action =
    A_Get gvr string string
  | A_List gvr gvr string string string
  | A_Watch gvr string string string
  | A_Create gvr string "F5IPAM option"
  | A_Update gvr string string "F5IPAM option"
  | A_Delete gvr string string
  | A_DeleteCollection gvr string string string
  | A_Patch gvr string string string string string

fun GetVerb :: "fake_action \<Rightarrow> string" where
  "GetVerb (A_Get _ _ _) = ''get''"
| "GetVerb (A_List _ _ _ _ _) = ''list''"
| "GetVerb (A_Watch _ _ _ _) = ''watch''"
| "GetVerb (A_Create _ _ _) = ''create''"
| "GetVerb (A_Update _ _ _ _) = ''update''"
| "GetVerb (A_Delete _ _ _) = ''delete''"
| "GetVerb (A_DeleteCollection _ _ _ _) = ''delete-collection''"
| "GetVerb (A_Patch _ _ _ _ _ _) = ''patch''"

fun GetResource :: "fake_action \<Rightarrow> gvr" where
  "GetResource (A_Get g _ _) = g"
| "GetResource (A_List g _ _ _ _) = g"
| "GetResource (A_Watch g _ _ _) = g"
| "GetResource (A_Create g _ _) = g"
| "GetResource (A_Update g _ _ _) = g"
| "GetResource (A_Delete g _ _) = g"
| "GetResource (A_DeleteCollection g _ _ _) = g"
| "GetResource (A_Patch g _ _ _ _ _) = g"

fun GetNamespace :: "fake_action \<Rightarrow> string" where
  "GetNamespace (A_Get _ ns _) = ns"
| "GetNamespace (A_List _ _ ns _ _) = ns"
| "GetNamespace (A_Watch _ ns _ _) = ns"
| "GetNamespace (A_Create _ ns _) = ns"
| "GetNamespace (A_Update _ _ ns _) = ns"
| "GetNamespace (A_Delete _ ns _) = ns"
| "GetNamespace (A_DeleteCollection _ ns _ _) = ns"
| "GetNamespace (A_Patch _ ns _ _ _ _) = ns"

datatype fake_object = FO_F5IPAM F5IPAM | FO_List "F5IPAM list"

type_synonym fake_answer = "fake_object option \<times> fake_error option"

record fake_lib =
  lb_labels_Parse :: "string \<Rightarrow> selector option"
  lb_fields_ok :: "string \<Rightarrow> bool"
  lb_labels :: "F5IPAM \<Rightarrow> (string \<times> string) list"
  lb_json_patch :: "string \<Rightarrow> F5IPAM \<Rightarrow> F5IPAM option"
  lb_merge_patch :: "string \<Rightarrow> F5IPAM \<Rightarrow> F5IPAM option"
  lb_strategic_patch :: "string \<Rightarrow> F5IPAM \<Rightarrow> F5IPAM option"

text \<open>The result of a read as the answer of a reaction, and a read after a write.\<close>

definition answer_object :: "fake_error + F5IPAM \<Rightarrow> fake_answer" where
  "answer_object res = (case res of Inl e \<Rightarrow> (None, Some e) | Inr r \<Rightarrow> (Some (FO_F5IPAM r), None))"

definition then_Get :: "gvr \<Rightarrow> string \<Rightarrow> string \<Rightarrow> (fake_error option \<times> tracker) go \<Rightarrow> ((bool \<times> fake_answer) \<times> tracker) go" where
  "then_Get g ns nm m = go_bind m (\<lambda>(err, t).
     case err of
       Some e \<Rightarrow> Inr ((True, None, Some e), t)
     | None \<Rightarrow> Inr ((True, answer_object (tracker_Get g ns nm t)), t))"

definition patched :: "fake_lib \<Rightarrow> string \<Rightarrow> string \<Rightarrow> F5IPAM \<Rightarrow> fake_error + F5IPAM" where
  "patched lib pt data old =
     (if pt = ''application/json-patch+json''
      then case lb_json_patch lib data old of None \<Rightarrow> Inl FE_Patch | Some r \<Rightarrow> Inr r
      else if pt = ''application/merge-patch+json''
      then case lb_merge_patch lib data old of None \<Rightarrow> Inl FE_Patch | Some r \<Rightarrow> Inr r
      else if pt = ''application/strategic-merge-patch+json''
      then case lb_strategic_patch lib data old of None \<Rightarrow> Inl FE_Patch | Some r \<Rightarrow> Inr r
      else Inl FE_PatchType)"

text \<open>
  The copy of an action turns a nil object into a nil interface, which has no metadata. The
  fakes create no subresources.
\<close>

fun ObjectReaction :: "fake_lib \<Rightarrow> fake_action \<Rightarrow> tracker \<Rightarrow> ((bool \<times> fake_answer) \<times> tracker) go" where
  "ObjectReaction lib (A_List g gvk ns _ _) t =
     Inr ((True, case tracker_List g gvk ns t of Inl e \<Rightarrow> (None, Some e) | Inr rs \<Rightarrow> (Some (FO_List rs), None)), t)"
| "ObjectReaction lib (A_Get g ns nm) t = Inr ((True, answer_object (tracker_Get g ns nm t)), t)"
| "ObjectReaction lib (A_Create g ns obj) t =
     (case obj of
        None \<Rightarrow> Inr ((True, None, Some FE_NotObject), t)
      | Some r \<Rightarrow> then_Get g ns (Name r) (tracker_Create g r ns t))"
| "ObjectReaction lib (A_Update g sub ns obj) t =
     (case obj of
        None \<Rightarrow> Inr ((True, None, Some FE_NotObject), t)
      | Some r \<Rightarrow> then_Get g ns (Name r) (tracker_Update g r ns t))"
| "ObjectReaction lib (A_Delete g ns nm) t =
     go_bind (tracker_Delete g ns nm t) (\<lambda>(err, t1). Inr ((True, None, err), t1))"
| "ObjectReaction lib (A_Patch g ns nm pt data sub) t =
     (case tracker_Get g ns nm t of
        Inl e \<Rightarrow> Inr ((True, None, Some e), t)
      | Inr old \<Rightarrow>
          (case patched lib pt data old of
             Inl e \<Rightarrow> Inr ((True, None, Some e), t)
           | Inr obj \<Rightarrow>
               go_bind (tracker_Update g obj ns t) (\<lambda>(err, t1).
                 case err of
                   Some e \<Rightarrow> Inr ((True, None, Some e), t1)
                 | None \<Rightarrow> Inr ((True, Some (FO_F5IPAM obj), None), t1))))"
| "ObjectReaction lib (A_Watch g ns _ _) t = Inr ((False, None, Some FE_NoReaction), t)"
| "ObjectReaction lib (A_DeleteCollection g ns _ _) t = Inr ((False, None, Some FE_NoReaction), t)"

section \<open>The fake and its chains of reactors\<close>

record reactor =
  rx_Verb :: string
  rx_Resource :: string
  rx_Reaction :: "fake_action \<Rightarrow> tracker \<Rightarrow> ((bool \<times> fake_answer) \<times> tracker) go"

record watch_reactor =
  wx_Resource :: string
  wx_Reaction :: "fake_action \<Rightarrow> tracker \<Rightarrow> (bool \<times> nat option \<times> fake_error option) \<times> tracker"

text \<open>The tracker the reactions share is part of the fake's state.\<close>

record Fake =
  fk_actions :: "fake_action list"
  ReactionChain :: "reactor list"
  WatchReactionChain :: "watch_reactor list"
  fk_tracker :: tracker

definition resource_covers :: "string \<Rightarrow> fake_action \<Rightarrow> bool" where
  "resource_covers resource action \<longleftrightarrow> resource = ''*'' \<or> resource = snd (snd (GetResource action))"

definition Handles :: "reactor \<Rightarrow> fake_action \<Rightarrow> bool" where
  "Handles r action \<longleftrightarrow> (rx_Verb r = ''*'' \<or> rx_Verb r = GetVerb action) \<and> resource_covers (rx_Resource r) action"

definition AddReactor :: "string \<Rightarrow> string \<Rightarrow> (fake_action \<Rightarrow> tracker \<Rightarrow> ((bool \<times> fake_answer) \<times> tracker) go) \<Rightarrow> Fake \<Rightarrow> Fake" where
  "AddReactor verb resource reaction c = c\<lparr>ReactionChain := ReactionChain c @
     [\<lparr>rx_Verb = verb, rx_Resource = resource, rx_Reaction = reaction\<rparr>]\<rparr>"

definition AddWatchReactor :: "string \<Rightarrow> (fake_action \<Rightarrow> tracker \<Rightarrow> (bool \<times> nat option \<times> fake_error option) \<times> tracker) \<Rightarrow> Fake \<Rightarrow> Fake" where
  "AddWatchReactor resource reaction c = c\<lparr>WatchReactionChain := WatchReactionChain c @
     [\<lparr>wx_Resource = resource, wx_Reaction = reaction\<rparr>]\<rparr>"

fun react :: "reactor list \<Rightarrow> fake_action \<Rightarrow> fake_object option \<Rightarrow> tracker \<Rightarrow> (fake_answer \<times> tracker) go" where
  "react [] action defaultReturnObj t = Inr ((defaultReturnObj, None), t)"
| "react (r # rs) action defaultReturnObj t =
     (if \<not> Handles r action then react rs action defaultReturnObj t
      else go_bind (rx_Reaction r action t) (\<lambda>((handled, ans), t1).
             if \<not> handled then react rs action defaultReturnObj t1 else Inr (ans, t1)))"

definition Invokes :: "fake_action \<Rightarrow> fake_object option \<Rightarrow> Fake \<Rightarrow> (fake_answer \<times> Fake) go" where
  "Invokes action defaultReturnObj c =
     (let c1 = c\<lparr>fk_actions := fk_actions c @ [action]\<rparr>
      in go_bind (react (ReactionChain c1) action defaultReturnObj (fk_tracker c1)) (\<lambda>(ans, t).
           Inr (ans, c1\<lparr>fk_tracker := t\<rparr>)))"

fun react_watch :: "watch_reactor list \<Rightarrow> fake_action \<Rightarrow> tracker \<Rightarrow> (nat option \<times> fake_error option) \<times> tracker" where
  "react_watch [] action t = ((None, Some FE_NoReaction), t)"
| "react_watch (r # rs) action t =
     (if \<not> resource_covers (wx_Resource r) action then react_watch rs action t
      else case wx_Reaction r action t of ((handled, ans), t1) \<Rightarrow>
             if \<not> handled then react_watch rs action t1 else (ans, t1))"

definition InvokesWatch :: "fake_action \<Rightarrow> Fake \<Rightarrow> (nat option \<times> fake_error option) \<times> Fake" where
  "InvokesWatch action c =
     (let c1 = c\<lparr>fk_actions := fk_actions c @ [action]\<rparr>
      in case react_watch (WatchReactionChain c1) action (fk_tracker c1) of (ans, t) \<Rightarrow> (ans, c1\<lparr>fk_tracker := t\<rparr>))"

text \<open>\<open>ExtractFromListOptions\<close> panics on a selector that does not parse.\<close>

definition ExtractFromListOptions :: "fake_lib \<Rightarrow> ListOptions \<Rightarrow> selector go" where
  "ExtractFromListOptions lib opts =
     (case lb_labels_Parse lib (lo_LabelSelector opts) of
        None \<Rightarrow> Inl (UserPanic ''invalid selector'')
      | Some sel \<Rightarrow> if lb_fields_ok lib (lo_FieldSelector opts) then Inr sel else Inl (UserPanic ''invalid selector''))"

section \<open>The fake typed client\<close>

definition f5ipamsResource :: gvr where
  "f5ipamsResource = (''k8s.nginx.org'', ''v1'', ''f5ipams'')"

definition f5ipamsKind :: gvr where
  "f5ipamsKind = (''k8s.nginx.org'', ''v1'', ''F5IPAM'')"

text \<open>\<open>obj.(*F5IPAM)\<close> after the test for nil.\<close>

definition as_F5IPAM :: "fake_answer \<times> Fake \<Rightarrow> ((F5IPAM option \<times> fake_error option) \<times> Fake) go" where
  "as_F5IPAM x =
     (case x of ((obj, err), c) \<Rightarrow>
        (case obj of
           None \<Rightarrow> Inr ((None, err), c)
         | Some (FO_F5IPAM r) \<Rightarrow> Inr ((Some r, err), c)
         | Some (FO_List _) \<Rightarrow> Inl TypeAssertion))"

definition Fake_Get :: "string \<Rightarrow> string \<Rightarrow> Fake \<Rightarrow> ((F5IPAM option \<times> fake_error option) \<times> Fake) go" where
  "Fake_Get ns name c = go_bind (Invokes (A_Get f5ipamsResource ns name) (Some (FO_F5IPAM zero_F5IPAM)) c) as_F5IPAM"

definition Fake_List :: "fake_lib \<Rightarrow> string \<Rightarrow> ListOptions \<Rightarrow> Fake \<Rightarrow> ((F5IPAM list option \<times> fake_error option) \<times> Fake) go" where
  "Fake_List lib ns opts c =
     go_bind (ExtractFromListOptions lib opts) (\<lambda>_.
     go_bind (Invokes (A_List f5ipamsResource f5ipamsKind ns (lo_LabelSelector opts) (lo_FieldSelector opts)) (Some (FO_List [])) c)
       (\<lambda>((obj, err), c1).
          case obj of
            None \<Rightarrow> Inr ((None, err), c1)
          | Some (FO_F5IPAM _) \<Rightarrow> Inl TypeAssertion
          | Some (FO_List items) \<Rightarrow>
              go_bind (ExtractFromListOptions lib opts) (\<lambda>label.
                Inr ((Some (filter (\<lambda>r. sel_Matches label (lb_labels lib r)) items), err), c1))))"

definition Fake_Watch :: "fake_lib \<Rightarrow> string \<Rightarrow> ListOptions \<Rightarrow> Fake \<Rightarrow> ((nat option \<times> fake_error option) \<times> Fake) go" where
  "Fake_Watch lib ns opts c =
     go_bind (ExtractFromListOptions lib opts) (\<lambda>_.
       Inr (InvokesWatch (A_Watch f5ipamsResource ns (lo_LabelSelector opts) (lo_FieldSelector opts)) c))"

definition Fake_Create :: "string \<Rightarrow> F5IPAM option \<Rightarrow> Fake \<Rightarrow> ((F5IPAM option \<times> fake_error option) \<times> Fake) go" where
  "Fake_Create ns f5IPAM c =
     go_bind (Invokes (A_Create f5ipamsResource ns f5IPAM) (Some (FO_F5IPAM zero_F5IPAM)) c) as_F5IPAM"

definition Fake_Update :: "string \<Rightarrow> F5IPAM option \<Rightarrow> Fake \<Rightarrow> ((F5IPAM option \<times> fake_error option) \<times> Fake) go" where
  "Fake_Update ns f5IPAM c =
     go_bind (Invokes (A_Update f5ipamsResource [] ns f5IPAM) (Some (FO_F5IPAM zero_F5IPAM)) c) as_F5IPAM"

definition Fake_UpdateStatus :: "string \<Rightarrow> F5IPAM option \<Rightarrow> Fake \<Rightarrow> ((F5IPAM option \<times> fake_error option) \<times> Fake) go" where
  "Fake_UpdateStatus ns f5IPAM c =
     go_bind (Invokes (A_Update f5ipamsResource ''status'' ns f5IPAM) (Some (FO_F5IPAM zero_F5IPAM)) c) as_F5IPAM"

definition Fake_Delete :: "string \<Rightarrow> string \<Rightarrow> Fake \<Rightarrow> (fake_error option \<times> Fake) go" where
  "Fake_Delete ns name c =
     go_bind (Invokes (A_Delete f5ipamsResource ns name) (Some (FO_F5IPAM zero_F5IPAM)) c)
       (\<lambda>((_, err), c1). Inr (err, c1))"

definition Fake_DeleteCollection :: "fake_lib \<Rightarrow> string \<Rightarrow> ListOptions \<Rightarrow> Fake \<Rightarrow> (fake_error option \<times> Fake) go" where
  "Fake_DeleteCollection lib ns opts c =
     go_bind (ExtractFromListOptions lib opts) (\<lambda>_.
     go_bind (Invokes (A_DeleteCollection f5ipamsResource ns (lo_LabelSelector opts) (lo_FieldSelector opts)) (Some (FO_List [])) c)
       (\<lambda>((_, err), c1). Inr (err, c1)))"

definition Fake_Patch :: "string \<Rightarrow> string \<Rightarrow> string \<Rightarrow> string \<Rightarrow> string list \<Rightarrow> Fake
    \<Rightarrow> ((F5IPAM option \<times> fake_error option) \<times> Fake) go" where
  "Fake_Patch ns name pt data subresources c =
     go_bind (Invokes (A_Patch f5ipamsResource ns name pt data (path_Join subresources)) (Some (FO_F5IPAM zero_F5IPAM)) c) as_F5IPAM"

section \<open>The fake clientset\<close>

definition fake_Scheme :: scheme where
  "fake_Scheme = fic_addKnownTypes (AddToGroupVersion ([], ''v1'') [])"

record FakeClientset =
  fcs_Fake :: Fake

definition Clientset_Tracker :: "FakeClientset \<Rightarrow> tracker" where
  "Clientset_Tracker c = fk_tracker (fcs_Fake c)"

definition fake_K8sV1 :: "FakeClientset \<Rightarrow> Fake" where
  "fake_K8sV1 c = fcs_Fake c"

text \<open>The interface holds a nil pointer: it is not nil itself, but a call on it panics.\<close>

definition fake_RESTClient :: "Fake \<Rightarrow> 'e RESTClient option option" where
  "fake_RESTClient c = Some None"

definition watch_reaction :: "fake_action \<Rightarrow> tracker \<Rightarrow> (bool \<times> nat option \<times> fake_error option) \<times> tracker" where
  "watch_reaction action t =
     (case tracker_Watch (GetResource action) (GetNamespace action) t of (i, t1) \<Rightarrow> ((True, Some i, None), t1))"

fun add_objects :: "F5IPAM list \<Rightarrow> tracker \<Rightarrow> tracker go" where
  "add_objects [] t = Inr t"
| "add_objects (r # rs) t =
     go_bind (tracker_Add r t) (\<lambda>(err, t1).
       if err \<noteq> None then Inl (UserPanic ''add'') else add_objects rs t1)"

definition NewSimpleClientset :: "fake_lib \<Rightarrow> F5IPAM list \<Rightarrow> FakeClientset go" where
  "NewSimpleClientset lib objects =
     go_bind (add_objects objects (NewObjectTracker fake_Scheme)) (\<lambda>o1.
       let cs = \<lparr>fk_actions = [], ReactionChain = [], WatchReactionChain = [], fk_tracker = o1\<rparr>
       in Inr \<lparr>fcs_Fake = AddWatchReactor ''*'' watch_reaction (AddReactor ''*'' ''*'' (ObjectReaction lib) cs)\<rparr>)"

section \<open>Using the fake\<close>

text \<open>A test calls methods in a namespace and receives events of watchers.\<close>

datatype fake_use = FU_Call string F5IPAMInterface | FU_Receive nat

datatype fake_result =
    FR_Object "F5IPAM option" "fake_error option"
  | FR_List "F5IPAM list option" "fake_error option"
  | FR_Watch "nat option" "fake_error option"
  | FR_Error "fake_error option"
  | FR_Event "fake_event option"

definition fake_bind :: "('a \<times> Fake) go \<Rightarrow> ('a \<Rightarrow> fake_result) \<Rightarrow> (fake_result \<times> Fake) go" where
  "fake_bind m f = go_bind m (\<lambda>(x, c). Inr (f x, c))"

fun fake_call :: "fake_lib \<Rightarrow> string \<Rightarrow> F5IPAMInterface \<Rightarrow> Fake \<Rightarrow> (fake_result \<times> Fake) go" where
  "fake_call lib ns (Op_Create r) c = fake_bind (Fake_Create ns r c) (\<lambda>(x, e). FR_Object x e)"
| "fake_call lib ns (Op_Update r) c = fake_bind (Fake_Update ns r c) (\<lambda>(x, e). FR_Object x e)"
| "fake_call lib ns (Op_UpdateStatus r) c = fake_bind (Fake_UpdateStatus ns r c) (\<lambda>(x, e). FR_Object x e)"
| "fake_call lib ns (Op_Delete nm opts) c = fake_bind (Fake_Delete ns nm c) FR_Error"
| "fake_call lib ns (Op_DeleteCollection opts lopts) c = fake_bind (Fake_DeleteCollection lib ns lopts c) FR_Error"
| "fake_call lib ns (Op_Get nm opts) c = fake_bind (Fake_Get ns nm c) (\<lambda>(x, e). FR_Object x e)"
| "fake_call lib ns (Op_List opts) c = fake_bind (Fake_List lib ns opts c) (\<lambda>(x, e). FR_List x e)"
| "fake_call lib ns (Op_Watch opts) c = fake_bind (Fake_Watch lib ns opts c) (\<lambda>(x, e). FR_Watch x e)"
| "fake_call lib ns (Op_Patch nm pt data subs) c = fake_bind (Fake_Patch ns nm pt data subs c) (\<lambda>(x, e). FR_Object x e)"

definition receive :: "nat \<Rightarrow> fake_event list list \<Rightarrow> fake_event option \<times> fake_event list list" where
  "receive i ws =
     (if i < length ws then (case ws ! i of [] \<Rightarrow> (None, ws) | ev # evs \<Rightarrow> (Some ev, ws[i := evs])) else (None, ws))"

fun fake_step :: "fake_lib \<Rightarrow> fake_use \<Rightarrow> Fake \<Rightarrow> (fake_result \<times> Fake) go" where
  "fake_step lib (FU_Call ns op) c = fake_call lib ns op c"
| "fake_step lib (FU_Receive i) c =
     (case receive i (tr_fakes (fk_tracker c)) of (ev, ws) \<Rightarrow>
        Inr (FR_Event ev, c\<lparr>fk_tracker := (fk_tracker c)\<lparr>tr_fakes := ws\<rparr>\<rparr>))"

fun fake_run :: "fake_lib \<Rightarrow> fake_use list \<Rightarrow> Fake \<Rightarrow> fake_result list go" where
  "fake_run lib [] c = Inr []"
| "fake_run lib (u # us) c =
     go_bind (fake_step lib u c) (\<lambda>(x, c1). go_bind (fake_run lib us c1) (\<lambda>xs. Inr (x # xs)))"

end
