(* ===== verification/Fakerun.thy ===== *)
theory Fakerun
  imports Fakes
begin

text \<open>
  What the fake typed client does, as a specification on a map of objects and the undelivered
  events of every watcher, and the proof that the tracker and its reactions implement it.
\<close>

section \<open>The specification\<close>

record fake_spec =
  fs_objects :: "ident \<rightharpoonup> F5IPAM"
  fs_watches :: "(string \<times> fake_event list) list"

definition watched :: "string \<Rightarrow> string \<Rightarrow> bool" where
  "watched ns w \<longleftrightarrow> w = ns \<or> w = []"

definition spec_notify :: "fake_event \<Rightarrow> string \<Rightarrow> (string \<times> fake_event list) list \<Rightarrow> (string \<times> fake_event list) list go" where
  "spec_notify ev ns ws =
     (if \<exists>(w, evs)\<in>set ws. watched ns w \<and> DefaultChanSize \<le> length evs then Inl (UserPanic ''channel full'')
      else Inr (map (\<lambda>(w, evs). (w, if watched ns w then evs @ [ev] else evs)) ws))"

definition spec_change :: "fake_event \<Rightarrow> ident \<Rightarrow> F5IPAM option \<Rightarrow> fake_spec \<Rightarrow> (fake_error option \<times> fake_spec) go" where
  "spec_change ev p v s =
     go_bind (spec_notify ev (fst p) (fs_watches s)) (\<lambda>ws.
       Inr (None, \<lparr>fs_objects = (fs_objects s)(p := v), fs_watches = ws\<rparr>))"

definition spec_put :: "bool \<Rightarrow> string \<Rightarrow> F5IPAM \<Rightarrow> fake_spec \<Rightarrow> (fake_error option \<times> fake_spec) go" where
  "spec_put replace ns r s =
     (if Namespace r \<noteq> [] \<and> Namespace r \<noteq> ns then Inr (Some (FE_BadRequest ns (Namespace r)), s)
      else
        let r' = r\<lparr>Namespace := ns\<rparr>; p = (ns, Name r); gr = (''k8s.nginx.org'', ''f5ipams'')
        in if fs_objects s p = None
           then if replace then Inr (Some (FE_NotFound gr (Name r)), s) else spec_change (Added r') p (Some r') s
           else if replace then spec_change (Modified r') p (Some r') s
           else Inr (Some (FE_AlreadyExists gr (Name r)), s))"

definition spec_find :: "string \<Rightarrow> string \<Rightarrow> fake_spec \<Rightarrow> fake_error + F5IPAM" where
  "spec_find ns nm s =
     (let S = {r \<in> ran (fs_objects s). name_matches ns nm r}
      in if S = {} then Inl (FE_NotFound (''k8s.nginx.org'', ''f5ipams'') nm)
         else if \<exists>r. S = {r} then Inr (the_elem S)
         else Inl (FE_MoreThanOne f5ipamsResource ns nm))"

definition found :: "fake_error + F5IPAM \<Rightarrow> fake_result" where
  "found res = (case res of Inl e \<Rightarrow> FR_Object None (Some e) | Inr r \<Rightarrow> FR_Object (Some r) None)"

definition spec_write :: "bool \<Rightarrow> string \<Rightarrow> F5IPAM option \<Rightarrow> fake_spec \<Rightarrow> (fake_result \<times> fake_spec) go" where
  "spec_write replace ns obj s =
     (case obj of
        None \<Rightarrow> Inr (FR_Object None (Some FE_NotObject), s)
      | Some r \<Rightarrow> go_bind (spec_put replace ns r s) (\<lambda>(err, s1).
          Inr (case err of Some e \<Rightarrow> FR_Object None (Some e) | None \<Rightarrow> found (spec_find ns (Name r) s1), s1)))"

fun spec_call :: "fake_lib \<Rightarrow> string \<Rightarrow> F5IPAMInterface \<Rightarrow> fake_spec \<Rightarrow> (fake_result \<times> fake_spec) go" where
  "spec_call lib ns (Op_Create r) s = spec_write False ns r s"
| "spec_call lib ns (Op_Update r) s = spec_write True ns r s"
| "spec_call lib ns (Op_UpdateStatus r) s = spec_write True ns r s"
| "spec_call lib ns (Op_Delete nm opts) s =
     (case fs_objects s (ns, nm) of
        None \<Rightarrow> Inr (FR_Error (Some (FE_NotFound (''k8s.nginx.org'', ''f5ipams'') nm)), s)
      | Some r \<Rightarrow> go_bind (spec_change (Deleted r) (ns, nm) None s) (\<lambda>(err, s1). Inr (FR_Error err, s1)))"
| "spec_call lib ns (Op_DeleteCollection opts lopts) s =
     go_bind (ExtractFromListOptions lib lopts) (\<lambda>_. Inr (FR_Error None, s))"
| "spec_call lib ns (Op_Get nm opts) s = Inr (found (spec_find ns nm s), s)"
| "spec_call lib ns (Op_List lopts) s =
     go_bind (ExtractFromListOptions lib lopts) (\<lambda>_.
       Inr (FR_List None (Some (FE_NotRegistered (''k8s.nginx.org'', ''v1'', ''F5IPAMList''))), s))"
| "spec_call lib ns (Op_Watch lopts) s =
     go_bind (ExtractFromListOptions lib lopts) (\<lambda>_.
       Inr (FR_Watch (Some (length (fs_watches s))) None, s\<lparr>fs_watches := fs_watches s @ [(ns, [])]\<rparr>))"
| "spec_call lib ns (Op_Patch nm pt data subs) s =
     (case spec_find ns nm s of
        Inl e \<Rightarrow> Inr (FR_Object None (Some e), s)
      | Inr old \<Rightarrow>
          (case patched lib pt data old of
             Inl e \<Rightarrow> Inr (FR_Object None (Some e), s)
           | Inr r \<Rightarrow> go_bind (spec_put True ns r s) (\<lambda>(err, s1).
               Inr (case err of Some e \<Rightarrow> FR_Object None (Some e) | None \<Rightarrow> FR_Object (Some r) None, s1))))"

fun spec_use :: "fake_lib \<Rightarrow> fake_use \<Rightarrow> fake_spec \<Rightarrow> (fake_result \<times> fake_spec) go" where
  "spec_use lib (FU_Call ns op) s = spec_call lib ns op s"
| "spec_use lib (FU_Receive i) s =
     (let ws = fs_watches s
      in if i < length ws \<and> snd (ws ! i) \<noteq> []
         then Inr (FR_Event (Some (hd (snd (ws ! i)))), s\<lparr>fs_watches := ws[i := (fst (ws ! i), tl (snd (ws ! i)))]\<rparr>)
         else Inr (FR_Event None, s))"

fun spec_run :: "fake_lib \<Rightarrow> fake_use list \<Rightarrow> fake_spec \<Rightarrow> fake_result list go" where
  "spec_run lib [] s = Inr []"
| "spec_run lib (u # us) s =
     go_bind (spec_use lib u s) (\<lambda>(x, s1). go_bind (spec_run lib us s1) (\<lambda>xs. Inr (x # xs)))"

definition spec_new :: fake_spec where
  "spec_new = \<lparr>fs_objects = Map.empty, fs_watches = []\<rparr>"

section \<open>The objects of the tracker as a map\<close>

definition named :: "F5IPAM list \<Rightarrow> ident \<rightharpoonup> F5IPAM" where
  "named rs = map_of (map (\<lambda>r. (ident_of r, r)) rs)"

abbreviation unique :: "F5IPAM list \<Rightarrow> bool" where
  "unique rs \<equiv> distinct (map ident_of rs)"

lemma named_Nil [simp]: "named [] = Map.empty"
  by (simp add: named_def)

lemma named_Cons [simp]: "named (r # rs) = (named rs)(ident_of r \<mapsto> r)"
  by (simp add: named_def)

lemma named_None: "named rs p = None \<longleftrightarrow> p \<notin> ident_of ` set rs"
  by (auto simp: named_def map_of_eq_None_iff image_iff)

lemma index_named_None: "index_named ns nm rs = None \<longleftrightarrow> named rs (ns, nm) = None"
  by (induction rs) (auto simp: ident_of_def)

lemma index_named_Some:
  assumes "unique rs" and "index_named ns nm rs = Some i"
  shows "i < length rs" and "ident_of (rs ! i) = (ns, nm)" and "named rs (ns, nm) = Some (rs ! i)"
proof -
  have *: "i < length rs \<and> ident_of (rs ! i) = (ns, nm) \<and> named rs (ns, nm) = Some (rs ! i)"
    using assms
  proof (induction rs arbitrary: i)
    case (Cons r rs)
    show ?case
    proof (cases "Namespace r = ns \<and> Name r = nm")
      case True
      with Cons.prems show ?thesis by (auto simp: ident_of_def)
    next
      case False
      with Cons.prems obtain j where "i = Suc j" "index_named ns nm rs = Some j" by auto
      with Cons.IH [of j] Cons.prems(1) False show ?thesis by (auto simp: ident_of_def)
    qed
  qed simp
  show "i < length rs" and "ident_of (rs ! i) = (ns, nm)" and "named rs (ns, nm) = Some (rs ! i)"
    using * by simp_all
qed

lemma named_snoc:
  assumes "ident_of r \<notin> ident_of ` set rs"
  shows "named (rs @ [r]) = (named rs)(ident_of r \<mapsto> r)"
  using assms by (induction rs) (auto simp: fun_upd_twist)

lemma named_replace:
  assumes "unique rs" and "i < length rs" and "ident_of r = ident_of (rs ! i)"
  shows "named (rs[i := r]) = (named rs)(ident_of r \<mapsto> r)" and "unique (rs[i := r])"
proof -
  have ids: "map ident_of (rs[i := r]) = map ident_of rs"
    using assms(2,3) by (simp add: map_update list_update_same_conv)
  then show "unique (rs[i := r])" using assms(1) by simp
  show "named (rs[i := r]) = (named rs)(ident_of r \<mapsto> r)"
    using assms
  proof (induction rs arbitrary: i)
    case (Cons x rs)
    show ?case
    proof (cases i)
      case (Suc j)
      have "ident_of x \<noteq> ident_of r" using Cons.prems Suc by auto
      with Cons.IH [of j] Cons.prems Suc show ?thesis by (intro ext) auto
    qed (use Cons.prems in \<open>simp del: fun_upd_apply\<close>)
  qed simp
qed

lemma named_remove:
  assumes "unique rs" and "i < length rs"
  shows "named (take i rs @ drop (Suc i) rs) = (named rs)(ident_of (rs ! i) := None)"
    and "unique (take i rs @ drop (Suc i) rs)"
proof -
  have rs: "rs = take i rs @ rs ! i # drop (Suc i) rs" by (rule id_take_nth_drop [OF assms(2)])
  then have "unique (take i rs @ rs ! i # drop (Suc i) rs)" using assms(1) by simp
  then show "unique (take i rs @ drop (Suc i) rs)" by auto
  show "named (take i rs @ drop (Suc i) rs) = (named rs)(ident_of (rs ! i) := None)"
    using assms
  proof (induction rs arbitrary: i)
    case (Cons x rs)
    show ?case
    proof (cases i)
      case 0
      with Cons.prems have "named rs (ident_of x) = None" by (simp add: named_None)
      with 0 show ?thesis by (intro ext) auto
    next
      case (Suc j)
      have "ident_of x \<noteq> ident_of (rs ! j)" using Cons.prems Suc by auto
      with Cons.IH [of j] Cons.prems Suc show ?thesis by (intro ext) auto
    qed
  qed simp
qed

lemma named_ran: "unique rs \<Longrightarrow> ran (named rs) = set rs"
proof (induction rs)
  case (Cons r rs)
  then have "named rs (ident_of r) = None" by (simp add: named_None)
  then have "ran ((named rs)(ident_of r \<mapsto> r)) = insert r (ran (named rs))" by (rule ran_map_upd)
  with Cons show ?case by (simp del: fun_upd_apply)
qed simp

lemma unique_distinct: "unique rs \<Longrightarrow> distinct rs"
  by (simp add: distinct_map)

section \<open>The simulation\<close>

definition tr_rel :: "fake_spec \<Rightarrow> tracker \<Rightarrow> bool" where
  "tr_rel s t \<longleftrightarrow> tr_scheme t = fake_Scheme
    \<and> unique (tr_objects t f5ipamsResource) \<and> fs_objects s = named (tr_objects t f5ipamsResource)
    \<and> tr_fakes t = map snd (fs_watches s)
    \<and> (\<forall>ns. tr_watchers t f5ipamsResource ns =
         filter (\<lambda>i. fst (fs_watches s ! i) = ns) [0..<length (fs_watches s)])"

definition sim :: "('s \<Rightarrow> 't \<Rightarrow> bool) \<Rightarrow> ('a \<times> 's) go \<Rightarrow> ('a \<times> 't) go \<Rightarrow> bool" where
  "sim R m m' \<longleftrightarrow> (case m of
      Inl e \<Rightarrow> m' = Inl e
    | Inr (x, s) \<Rightarrow> (\<exists>t. m' = Inr (x, t) \<and> R s t))"

lemma sim_Inr [simp]: "R s t \<Longrightarrow> sim R (Inr (x, s)) (Inr (x, t))"
  by (simp add: sim_def)

lemma sim_Inl [simp]: "sim R (Inl e) (Inl e)"
  by (simp add: sim_def)

lemma sim_bind:
  assumes "sim R m m'" and "\<And>x s t. R s t \<Longrightarrow> sim Q (f (x, s)) (f' (x, t))"
  shows "sim Q (go_bind m f) (go_bind m' f')"
proof (cases m)
  case (Inl e)
  with assms(1) show ?thesis by (simp add: sim_def)
next
  case (Inr y)
  obtain x s where y: "y = (x, s)" by (cases y)
  with assms(1) Inr obtain t where "m' = Inr (x, t)" "R s t" by (auto simp: sim_def)
  with assms(2) [of s t x] Inr y show ?thesis by simp
qed

lemma notify_each:
  assumes "distinct is" and "\<forall>i\<in>set is. i < length ws"
  shows "notify ev is ws =
    (if \<exists>i\<in>set is. DefaultChanSize \<le> length (ws ! i) then Inl (UserPanic ''channel full'')
     else Inr (map (\<lambda>i. if i \<in> set is then ws ! i @ [ev] else ws ! i) [0..<length ws]))"
  using assms
proof (induction "is" arbitrary: ws)
  case Nil
  then show ?case by (simp add: map_nth)
next
  case (Cons i "is")
  let ?ws = "ws[i := ws ! i @ [ev]]"
  have nth: "?ws ! j = (if j = i then ws ! i @ [ev] else ws ! j)" if "j < length ws" for j
    using that by simp
  have other: "?ws ! j = ws ! j" if "j \<in> set is" for j using that Cons.prems by (metis distinct.simps(2) nth_list_update_neq)
  have "notify ev is ?ws =
      (if \<exists>j\<in>set is. DefaultChanSize \<le> length (ws ! j) then Inl (UserPanic ''channel full'')
       else Inr (map (\<lambda>j. if j \<in> set is then ?ws ! j @ [ev] else ?ws ! j) [0..<length ws]))"
    using Cons.IH [of ?ws] Cons.prems other by simp
  moreover have "map (\<lambda>j. if j \<in> set is then ?ws ! j @ [ev] else ?ws ! j) [0..<length ws] =
      map (\<lambda>j. if j \<in> set (i # is) then ws ! j @ [ev] else ws ! j) [0..<length ws]"
    using Cons.prems(1) nth by (intro map_cong) auto
  ultimately show ?case by (auto simp: not_less)
qed

lemma watches_of:
  assumes "tr_rel s t"
  shows "distinct (getWatches t f5ipamsResource ns)"
    and "set (getWatches t f5ipamsResource ns) = {i. i < length (fs_watches s) \<and> watched ns (fst (fs_watches s ! i))}"
  using assms by (auto simp: tr_rel_def getWatches_def watched_def)

lemma bex_nth: "(\<exists>e\<in>set l. P e) \<longleftrightarrow> (\<exists>i<length l. P (l ! i))"
  by (auto simp: set_conv_nth)

lemma notify_spec:
  assumes "tr_rel s t"
  shows "notify ev (getWatches t f5ipamsResource ns) (tr_fakes t) =
    (case spec_notify ev ns (fs_watches s) of Inl e \<Rightarrow> Inl e | Inr ws \<Rightarrow> Inr (map snd ws))"
    and "spec_notify ev ns (fs_watches s) = Inr ws \<Longrightarrow> map fst ws = map fst (fs_watches s)"
proof -
  let ?ws = "fs_watches s"
  have fakes: "tr_fakes t = map snd ?ws" using assms by (simp add: tr_rel_def)
  note W = watches_of [OF assms, of ns]
  have full: "(\<exists>i\<in>set (getWatches t f5ipamsResource ns). DefaultChanSize \<le> length (tr_fakes t ! i)) \<longleftrightarrow>
      (\<exists>(w, evs)\<in>set ?ws. watched ns w \<and> DefaultChanSize \<le> length evs)"
  proof -
    have "(\<exists>(w, evs)\<in>set ?ws. watched ns w \<and> DefaultChanSize \<le> length evs) \<longleftrightarrow>
        (\<exists>e\<in>set ?ws. watched ns (fst e) \<and> DefaultChanSize \<le> length (snd e))"
      by (simp add: split_beta)
    also have "\<dots> \<longleftrightarrow> (\<exists>i<length ?ws. watched ns (fst (?ws ! i)) \<and> DefaultChanSize \<le> length (snd (?ws ! i)))"
      by (rule bex_nth)
    finally show ?thesis unfolding W(2) fakes by auto
  qed
  have sent: "map (\<lambda>i. if i \<in> set (getWatches t f5ipamsResource ns) then tr_fakes t ! i @ [ev] else tr_fakes t ! i)
        [0..<length (tr_fakes t)] =
      map snd (map (\<lambda>(w, evs). (w, if watched ns w then evs @ [ev] else evs)) ?ws)"
    unfolding W(2) fakes by (rule nth_equalityI) (auto simp: split_beta)
  have "\<forall>i\<in>set (getWatches t f5ipamsResource ns). i < length (tr_fakes t)" by (simp add: W(2) fakes)
  from notify_each [OF W(1) this, of ev] show "notify ev (getWatches t f5ipamsResource ns) (tr_fakes t) =
    (case spec_notify ev ns (fs_watches s) of Inl e \<Rightarrow> Inl e | Inr ws \<Rightarrow> Inr (map snd ws))"
    unfolding full sent spec_notify_def by simp
  show "spec_notify ev ns (fs_watches s) = Inr ws \<Longrightarrow> map fst ws = map fst (fs_watches s)"
    by (auto simp: spec_notify_def split_beta split: if_splits)
qed

lemma same_namespaces:
  assumes "map fst ws = map fst ws'"
  shows "filter (\<lambda>i. fst (ws ! i) = ns) [0..<length ws] = filter (\<lambda>i. fst (ws' ! i) = ns) [0..<length ws']"
proof -
  have "length ws = length ws'" using assms map_eq_imp_length_eq by blast
  moreover have "fst (ws ! i) = fst (ws' ! i)" if "i < length ws" for i
    using assms that calculation by (metis nth_map)
  ultimately show ?thesis by (intro filter_cong) auto
qed

text \<open>A change of the objects with its event.\<close>

lemma change_sim:
  assumes "tr_rel s t" and "fst p = ns" and "unique objs" and "named objs = (fs_objects s)(p := v)"
  shows "sim tr_rel (spec_change ev p v s)
    (go_bind (notify ev (getWatches t f5ipamsResource ns) (tr_fakes t)) (\<lambda>ws.
       Inr (None, t\<lparr>tr_fakes := ws, tr_objects := (tr_objects t)(f5ipamsResource := objs)\<rparr>)))"
proof (cases "spec_notify ev ns (fs_watches s)")
  case (Inl e)
  then show ?thesis using assms(2) notify_spec(1) [OF assms(1)] by (simp add: spec_change_def)
next
  case (Inr ws)
  have "map fst ws = map fst (fs_watches s)" by (rule notify_spec(2) [OF assms(1) Inr])
  with Inr assms show ?thesis
    using same_namespaces [of ws "fs_watches s"] notify_spec(1) [OF assms(1), of ev ns]
    by (simp add: spec_change_def tr_rel_def)
qed

lemma tracker_swap: "t\<lparr>tr_objects := f, tr_fakes := ws\<rparr> = t\<lparr>tr_fakes := ws, tr_objects := f\<rparr>"
  by simp

lemma put_sim:
  assumes "tr_rel s t"
  shows "sim tr_rel (spec_put replace ns r s) (tracker_add f5ipamsResource r ns replace t)"
proof (cases "Namespace r \<noteq> [] \<and> Namespace r \<noteq> ns")
  case True
  then show ?thesis using assms by (auto simp: spec_put_def tracker_add_def)
next
  case False
  define r' where "r' = r\<lparr>Namespace := ns\<rparr>"
  define objs where "objs = tr_objects t f5ipamsResource"
  have r': "(if Namespace r = [] then r\<lparr>Namespace := ns\<rparr> else r) = r'" "Namespace r' = ns" "Name r' = Name r"
    "ident_of r' = (ns, Name r)"
    using False by (auto simp: r'_def ident_of_def)
  have rel: "unique objs" "fs_objects s = named objs" using assms by (simp_all add: tr_rel_def objs_def)
  have gr: "GroupResource f5ipamsResource = (''k8s.nginx.org'', ''f5ipams'')"
    by (simp add: GroupResource_def f5ipamsResource_def)
  have spec: "spec_put replace ns r s =
      (if fs_objects s (ns, Name r) = None
       then if replace then Inr (Some (FE_NotFound (GroupResource f5ipamsResource) (Name r)), s)
            else spec_change (Added r') (ns, Name r) (Some r') s
       else if replace then spec_change (Modified r') (ns, Name r) (Some r') s
       else Inr (Some (FE_AlreadyExists (GroupResource f5ipamsResource) (Name r)), s))"
    unfolding spec_put_def if_not_P [OF False] Let_def by (simp add: r'_def gr)
  show ?thesis
  proof (cases "index_named ns (Name r) objs")
    case None
    then have none: "named objs (ns, Name r) = None" by (simp add: index_named_None)
    then have fresh: "ident_of r' \<notin> ident_of ` set objs" by (simp add: named_None r')
    have "named (objs @ [r']) = (fs_objects s)((ns, Name r) \<mapsto> r')" "unique (objs @ [r'])"
      using named_snoc [OF fresh] fresh rel r'(4) by simp_all
    with None none rel assms show ?thesis
      using change_sim [OF assms, of "(ns, Name r)" ns "objs @ [r']" "Some r'" "Added r'"]
      unfolding spec tracker_add_def tracker_swap by (simp add: r' objs_def Let_def del: fun_upd_apply)
  next
    case (Some i)
    note at = index_named_Some [OF rel(1) Some]
    have "named (objs[i := r']) = (fs_objects s)((ns, Name r) \<mapsto> r')" "unique (objs[i := r'])"
      using named_replace [OF rel(1) at(1), of r'] at(2) r'(4) rel(2) by simp_all
    with Some at rel assms show ?thesis
      using change_sim [OF assms, of "(ns, Name r)" ns "objs[i := r']" "Some r'" "Modified r'"]
      unfolding spec by (simp add: tracker_add_def r' objs_def Let_def del: fun_upd_apply)
  qed
qed

lemma delete_sim:
  assumes "tr_rel s t"
  shows "sim tr_rel
    (case fs_objects s (ns, nm) of
       None \<Rightarrow> Inr (Some (FE_NotFound (''k8s.nginx.org'', ''f5ipams'') nm), s)
     | Some r \<Rightarrow> spec_change (Deleted r) (ns, nm) None s)
    (tracker_Delete f5ipamsResource ns nm t)"
proof -
  define objs where "objs = tr_objects t f5ipamsResource"
  have rel: "unique objs" "fs_objects s = named objs" using assms by (simp_all add: tr_rel_def objs_def)
  show ?thesis
  proof (cases "index_named ns nm objs")
    case None
    then have "fs_objects s (ns, nm) = None" by (simp add: index_named_None rel)
    with None assms show ?thesis
      by (simp add: tracker_Delete_def objs_def GroupResource_def f5ipamsResource_def)
  next
    case (Some i)
    note at = index_named_Some [OF rel(1) Some]
    let ?objs = "take i objs @ drop (Suc i) objs"
    have "unique ?objs" "named ?objs = (fs_objects s)((ns, nm) := None)"
      using named_remove [OF rel(1) at(1)] at(2) rel(2) by simp_all
    with change_sim [OF assms, of "(ns, nm)" ns ?objs None "Deleted (objs ! i)"] Some at(3) rel(2) show ?thesis
      unfolding tracker_Delete_def objs_def [symmetric] tracker_swap by simp
  qed
qed

lemma find_sim:
  assumes "tr_rel s t"
  shows "tracker_Get f5ipamsResource ns nm t = spec_find ns nm s"
proof -
  define objs where "objs = tr_objects t f5ipamsResource"
  let ?l = "filter (name_matches ns nm) objs"
  have rel: "unique objs" "fs_objects s = named objs" using assms by (simp_all add: tr_rel_def objs_def)
  have S: "{r \<in> ran (fs_objects s). name_matches ns nm r} = set ?l"
    using named_ran [OF rel(1)] rel(2) by auto
  have d: "distinct ?l" using unique_distinct [OF rel(1)] by simp
  have gr: "GroupResource f5ipamsResource = (''k8s.nginx.org'', ''f5ipams'')"
    by (simp add: GroupResource_def f5ipamsResource_def)
  show ?thesis
  proof (cases ?l)
    case Nil
    then show ?thesis
      unfolding spec_find_def S tracker_Get_def filterByNamespaceAndName_def objs_def [symmetric] by (simp add: gr)
  next
    case (Cons r rs)
    show ?thesis
    proof (cases rs)
      case Nil
      with Cons show ?thesis
        unfolding spec_find_def S tracker_Get_def filterByNamespaceAndName_def objs_def [symmetric] by simp
    next
      fix r2 rs2
      assume rs: "rs = r2 # rs2"
      with Cons d have "r \<noteq> r2" by auto
      then have "\<nexists>x. set ?l = {x}" unfolding Cons rs by auto
      then show ?thesis
        unfolding spec_find_def S tracker_Get_def filterByNamespaceAndName_def objs_def [symmetric]
        unfolding Cons rs by simp
    qed
  qed
qed

lemma watch_sim:
  assumes "tr_rel s t"
  shows "fst (tracker_Watch f5ipamsResource ns t) = length (fs_watches s)"
    and "tr_rel (s\<lparr>fs_watches := fs_watches s @ [(ns, [])]\<rparr>) (snd (tracker_Watch f5ipamsResource ns t))"
proof -
  have len: "length (tr_fakes t) = length (fs_watches s)" using assms by (simp add: tr_rel_def)
  then show "fst (tracker_Watch f5ipamsResource ns t) = length (fs_watches s)"
    by (simp add: tracker_Watch_def Let_def)
  have old: "filter (\<lambda>i. fst ((fs_watches s @ [(ns, [])]) ! i) = w) [0..<length (fs_watches s)] =
      filter (\<lambda>i. fst (fs_watches s ! i) = w) [0..<length (fs_watches s)]" for w
    by (intro filter_cong) (auto simp: nth_append)
  show "tr_rel (s\<lparr>fs_watches := fs_watches s @ [(ns, [])]\<rparr>) (snd (tracker_Watch f5ipamsResource ns t))"
    using assms len by (simp add: tr_rel_def tracker_Watch_def Let_def old)
qed

section \<open>The fake client\<close>

definition default_chain :: "fake_lib \<Rightarrow> Fake \<Rightarrow> bool" where
  "default_chain lib c \<longleftrightarrow>
     ReactionChain c = [\<lparr>rx_Verb = ''*'', rx_Resource = ''*'', rx_Reaction = ObjectReaction lib\<rparr>]
   \<and> WatchReactionChain c = [\<lparr>wx_Resource = ''*'', wx_Reaction = watch_reaction\<rparr>]"

definition fake_rel :: "fake_lib \<Rightarrow> fake_spec \<Rightarrow> Fake \<Rightarrow> bool" where
  "fake_rel lib s c \<longleftrightarrow> default_chain lib c \<and> tr_rel s (fk_tracker c)"

definition taken :: "fake_object option \<Rightarrow> fake_action \<Rightarrow> Fake \<Rightarrow> (bool \<times> fake_answer) \<times> tracker \<Rightarrow> fake_answer \<times> Fake" where
  "taken d a c x = (case x of ((handled, ans), t) \<Rightarrow>
     (if handled then ans else (d, None), c\<lparr>fk_actions := fk_actions c @ [a], fk_tracker := t\<rparr>))"

lemma Invokes_default:
  assumes "default_chain lib c"
  shows "Invokes a d c = go_bind (ObjectReaction lib a (fk_tracker c)) (\<lambda>x. Inr (taken d a c x))"
proof (cases "ObjectReaction lib a (fk_tracker c)")
  case (Inl e)
  with assms show ?thesis
    by (simp add: Invokes_def default_chain_def Handles_def resource_covers_def Let_def)
next
  case (Inr x)
  obtain handled ans t where x: "x = ((handled, ans), t)" by (metis surj_pair)
  from assms Inr show ?thesis
    by (simp add: Invokes_def default_chain_def Handles_def resource_covers_def Let_def x taken_def)
qed

lemma taken_rel: "fake_rel lib s0 c \<Longrightarrow> tr_rel s t \<Longrightarrow> fake_rel lib s (snd (taken d a c (y, t)))"
  by (simp add: fake_rel_def default_chain_def taken_def split_beta)

text \<open>Every method in terms of the tracker.\<close>

definition from_answer :: "fake_answer \<Rightarrow> fake_result" where
  "from_answer ans = (case ans of (obj, err) \<Rightarrow>
     FR_Object (case obj of Some (FO_F5IPAM r) \<Rightarrow> Some r | _ \<Rightarrow> None) err)"

definition answers :: "(fake_result \<times> fake_spec) go \<Rightarrow> ((bool \<times> fake_answer) \<times> tracker) go \<Rightarrow> bool" where
  "answers n m \<longleftrightarrow> (case n of
      Inl e \<Rightarrow> m = Inl e
    | Inr (x, s) \<Rightarrow> (\<exists>ans t. m = Inr ((True, ans), t) \<and> tr_rel s t \<and> x = from_answer ans
        \<and> (\<forall>rs. fst ans \<noteq> Some (FO_List rs))))"

lemma object_calls:
  assumes "fake_rel lib s0 c" and "answers n (ObjectReaction lib a (fk_tracker c))"
  shows "sim (fake_rel lib) n (fake_bind (go_bind (Invokes a d c) as_F5IPAM) (\<lambda>(x, e). FR_Object x e))"
proof (cases n)
  case (Inl e)
  with assms show ?thesis by (simp add: answers_def Invokes_default [of lib] fake_rel_def fake_bind_def)
next
  case (Inr y)
  obtain x s where y: "y = (x, s)" by (cases y)
  with assms(2) Inr obtain obj err t where t: "ObjectReaction lib a (fk_tracker c) = Inr ((True, obj, err), t)"
    "tr_rel s t" "x = from_answer (obj, err)" "\<forall>rs. obj \<noteq> Some (FO_List rs)"
    by (auto simp: answers_def)
  let ?c = "c\<lparr>fk_actions := fk_actions c @ [a], fk_tracker := t\<rparr>"
  have rel: "fake_rel lib s ?c" using taken_rel [OF assms(1) t(2), of d a "(True, obj, err)"] by (simp add: taken_def)
  have inv: "Invokes a d c = Inr ((obj, err), ?c)"
    using assms(1) t(1) by (simp add: Invokes_default [of lib] fake_rel_def taken_def)
  show ?thesis
  proof (cases obj)
    case None
    with rel t(3) show ?thesis by (simp add: Inr y inv as_F5IPAM_def fake_bind_def from_answer_def)
  next
    case (Some v)
    with t(4) obtain r where "v = FO_F5IPAM r" by (cases v) auto
    with Some rel t(3) show ?thesis by (simp add: Inr y inv as_F5IPAM_def fake_bind_def from_answer_def)
  qed
qed

lemma fake_relI: "default_chain lib c \<Longrightarrow> tr_rel s t \<Longrightarrow> fake_rel lib s (c\<lparr>fk_actions := as, fk_tracker := t\<rparr>)"
  by (simp add: fake_rel_def default_chain_def)

lemma fake_rel_action: "default_chain lib c \<Longrightarrow> tr_rel s (fk_tracker c) \<Longrightarrow> fake_rel lib s (c\<lparr>fk_actions := as\<rparr>)"
  by (simp add: fake_rel_def default_chain_def)

lemma answer_found: "from_answer (answer_object res) = found res" "fst (answer_object res) \<noteq> Some (FO_List rs)"
  by (auto simp: from_answer_def answer_object_def found_def split: sum.splits)

lemma get_answers: "tr_rel s t \<Longrightarrow> answers (Inr (found (spec_find ns nm s), s)) (ObjectReaction lib (A_Get f5ipamsResource ns nm) t)"
  by (simp add: answers_def answer_found find_sim)

lemma put_cases:
  assumes "tr_rel s t"
  obtains e where "spec_put replace ns r s = Inl e" "tracker_add f5ipamsResource r ns replace t = Inl e"
  | err s' t' where "spec_put replace ns r s = Inr (err, s')"
      "tracker_add f5ipamsResource r ns replace t = Inr (err, t')" "tr_rel s' t'"
  using put_sim [OF assms, of replace ns r] by (auto simp: sim_def split: sum.splits)

lemma write_answers:
  assumes "tr_rel s t"
  shows "answers (spec_write False ns obj s) (ObjectReaction lib (A_Create f5ipamsResource ns obj) t)"
    and "answers (spec_write True ns obj s) (ObjectReaction lib (A_Update f5ipamsResource sub ns obj) t)"
proof -
  have put: "answers (go_bind (spec_put b ns r s) (\<lambda>(err, s1).
        Inr (case err of Some e \<Rightarrow> FR_Object None (Some e) | None \<Rightarrow> found (spec_find ns (Name r) s1), s1)))
      (then_Get f5ipamsResource ns (Name r) (tracker_add f5ipamsResource r ns b t))" for b r
  proof (cases rule: put_cases [OF assms, of b ns r, case_names stop go])
    case (go err s' t')
    show ?thesis
    proof (cases err)
      case None
      with go show ?thesis by (simp add: answers_def then_Get_def answer_found find_sim)
    next
      case (Some e)
      with go show ?thesis by (simp add: answers_def then_Get_def from_answer_def)
    qed
  qed (simp add: answers_def then_Get_def)
  show "answers (spec_write False ns obj s) (ObjectReaction lib (A_Create f5ipamsResource ns obj) t)"
    using put assms by (cases obj) (simp_all add: spec_write_def tracker_Create_def answers_def from_answer_def)
  show "answers (spec_write True ns obj s) (ObjectReaction lib (A_Update f5ipamsResource sub ns obj) t)"
    using put assms by (cases obj) (simp_all add: spec_write_def tracker_Update_def answers_def from_answer_def)
qed

lemma patch_answers:
  assumes "tr_rel s t"
  shows "answers (spec_call lib ns (Op_Patch nm pt data subs) s)
    (ObjectReaction lib (A_Patch f5ipamsResource ns nm pt data sub) t)"
proof (cases "spec_find ns nm s")
  case (Inl e)
  with assms show ?thesis by (simp add: answers_def find_sim from_answer_def)
next
  case (Inr old)
  show ?thesis
  proof (cases "patched lib pt data old")
    case (Inl e)
    with assms Inr show ?thesis by (simp add: answers_def find_sim from_answer_def)
  next
    case Inr': (Inr r)
    show ?thesis
    proof (cases rule: put_cases [OF assms, of True ns r, case_names stop go])
      case (go err s' t')
      with assms Inr Inr' show ?thesis
        by (cases err) (simp_all add: answers_def find_sim from_answer_def tracker_Update_def)
    qed (use assms Inr Inr' in \<open>simp add: answers_def find_sim tracker_Update_def\<close>)
  qed
qed

lemma delete_call:
  assumes "fake_rel lib s c"
  shows "sim (fake_rel lib) (spec_call lib ns (Op_Delete nm opts) s) (fake_call lib ns (Op_Delete nm opts) c)"
proof -
  let ?d = "case fs_objects s (ns, nm) of
       None \<Rightarrow> Inr (Some (FE_NotFound (''k8s.nginx.org'', ''f5ipams'') nm), s)
     | Some r \<Rightarrow> spec_change (Deleted r) (ns, nm) None s"
  have chain: "default_chain lib c" and rel: "tr_rel s (fk_tracker c)" using assms by (simp_all add: fake_rel_def)
  have spec: "spec_call lib ns (Op_Delete nm opts) s = go_bind ?d (\<lambda>(err, s1). Inr (FR_Error err, s1))"
    by (cases "fs_objects s (ns, nm)") simp_all
  have "fake_call lib ns (Op_Delete nm opts) c = go_bind (tracker_Delete f5ipamsResource ns nm (fk_tracker c)) (\<lambda>(err, t).
      Inr (FR_Error err, c\<lparr>fk_actions := fk_actions c @ [A_Delete f5ipamsResource ns nm], fk_tracker := t\<rparr>))"
    by (cases "tracker_Delete f5ipamsResource ns nm (fk_tracker c)")
      (auto simp: fake_bind_def Fake_Delete_def Invokes_default [OF chain] taken_def)
  then show ?thesis
    unfolding spec by (simp only:) (rule sim_bind [OF delete_sim [OF rel]], simp add: fake_relI [OF chain])
qed

lemma list_unregistered:
  assumes "tr_rel s t"
  shows "tracker_List f5ipamsResource f5ipamsKind ns t = Inl (FE_NotRegistered (''k8s.nginx.org'', ''v1'', ''F5IPAMList''))"
proof -
  have "((''k8s.nginx.org'', ''v1''), ''F5IPAMList'') \<notin> set fake_Scheme"
    by (simp add: fake_Scheme_def fic_addKnownTypes_def AddToGroupVersion_def SchemeGroupVersion_def)
  with assms show ?thesis by (simp add: tracker_List_def f5ipamsKind_def tr_rel_def)
qed

lemma selector_cases:
  obtains e where "ExtractFromListOptions lib opts = Inl e" | sel where "ExtractFromListOptions lib opts = Inr sel"
  by (cases "ExtractFromListOptions lib opts") blast+

lemma call_sim:
  assumes "fake_rel lib s c"
  shows "sim (fake_rel lib) (spec_call lib ns op s) (fake_call lib ns op c)"
proof -
  have chain: "default_chain lib c" and rel: "tr_rel s (fk_tracker c)" using assms by (simp_all add: fake_rel_def)
  show ?thesis
  proof (cases op)
    case (Op_Create r)
    then show ?thesis using object_calls [OF assms write_answers(1) [OF rel]] by (simp add: Fake_Create_def)
  next
    case (Op_Update r)
    then show ?thesis using object_calls [OF assms write_answers(2) [OF rel]] by (simp add: Fake_Update_def)
  next
    case (Op_UpdateStatus r)
    then show ?thesis using object_calls [OF assms write_answers(2) [OF rel]] by (simp add: Fake_UpdateStatus_def)
  next
    case (Op_Delete nm opts)
    then show ?thesis using delete_call [OF assms] by simp
  next
    case (Op_Get nm opts)
    then show ?thesis using object_calls [OF assms get_answers [OF rel]] by (simp add: Fake_Get_def)
  next
    case (Op_Patch nm pt data subs)
    then show ?thesis using object_calls [OF assms patch_answers [OF rel, of lib ns nm pt data subs]]
      by (simp add: Fake_Patch_def)
  next
    case (Op_DeleteCollection opts lopts)
    show ?thesis
    proof (cases rule: selector_cases [of lib lopts, case_names bad good])
      case (good sel)
      with Op_DeleteCollection show ?thesis
        by (simp add: Fake_DeleteCollection_def Invokes_default [OF chain] taken_def fake_bind_def fake_rel_action [OF chain rel])
    qed (simp add: Op_DeleteCollection Fake_DeleteCollection_def fake_bind_def)
  next
    case (Op_List lopts)
    show ?thesis
    proof (cases rule: selector_cases [of lib lopts, case_names bad good])
      case (good sel)
      with Op_List show ?thesis
        by (simp add: Fake_List_def Invokes_default [OF chain] taken_def fake_bind_def list_unregistered [OF rel]
            fake_rel_action [OF chain rel])
    qed (simp add: Op_List Fake_List_def fake_bind_def)
  next
    case (Op_Watch lopts)
    show ?thesis
    proof (cases rule: selector_cases [of lib lopts, case_names bad good])
      case (good sel)
      let ?a = "A_Watch f5ipamsResource ns (lo_LabelSelector lopts) (lo_FieldSelector lopts)"
      obtain i t where w: "tracker_Watch f5ipamsResource ns (fk_tracker c) = (i, t)"
        by (cases "tracker_Watch f5ipamsResource ns (fk_tracker c)")
      with watch_sim [OF rel, of ns] have i: "i = length (fs_watches s)"
        and t: "tr_rel (s\<lparr>fs_watches := fs_watches s @ [(ns, [])]\<rparr>) t" by simp_all
      have "InvokesWatch ?a c = ((Some i, None), c\<lparr>fk_actions := fk_actions c @ [?a], fk_tracker := t\<rparr>)"
        using chain w by (simp add: InvokesWatch_def default_chain_def resource_covers_def watch_reaction_def Let_def)
      with good Op_Watch i show ?thesis by (simp add: Fake_Watch_def fake_bind_def fake_relI [OF chain t])
    qed (simp add: Op_Watch Fake_Watch_def fake_bind_def)
  qed
qed

lemma receive_rel:
  assumes "tr_rel s t" and "i < length (fs_watches s)" and "fs_watches s ! i = (w, ev # evs)"
  shows "tr_rel (s\<lparr>fs_watches := (fs_watches s)[i := (w, evs)]\<rparr>) (t\<lparr>tr_fakes := (tr_fakes t)[i := evs]\<rparr>)"
proof -
  have "map fst ((fs_watches s)[i := (w, evs)]) = map fst (fs_watches s)"
    using assms(2,3) by (simp add: map_update list_update_same_conv)
  from same_namespaces [OF this] assms(1) show ?thesis by (simp add: tr_rel_def map_update)
qed

lemma step_sim:
  assumes "fake_rel lib s c"
  shows "sim (fake_rel lib) (spec_use lib u s) (fake_step lib u c)"
proof (cases u)
  case (FU_Call ns op)
  with call_sim [OF assms] show ?thesis by simp
next
  case (FU_Receive i)
  let ?ws = "fs_watches s"
  have chain: "default_chain lib c" and rel: "tr_rel s (fk_tracker c)" using assms by (simp_all add: fake_rel_def)
  have fakes: "tr_fakes (fk_tracker c) = map snd ?ws" using rel by (simp add: tr_rel_def)
  have same: "fake_rel lib s (c\<lparr>fk_tracker := (fk_tracker c)\<lparr>tr_fakes := map snd ?ws\<rparr>\<rparr>)"
    using chain rel by (simp add: fake_rel_def default_chain_def tr_rel_def)
  show ?thesis
  proof (cases "i < length ?ws \<and> snd (?ws ! i) \<noteq> []")
    case True
    then obtain w ev evs where at: "?ws ! i = (w, ev # evs)" by (cases "?ws ! i"; cases "snd (?ws ! i)") auto
    from receive_rel [OF rel _ at] True chain at show ?thesis
      by (simp add: FU_Receive receive_def fakes fake_rel_def default_chain_def Let_def)
  next
    case False
    with same show ?thesis by (auto simp: FU_Receive receive_def fakes Let_def split: list.splits)
  qed
qed

lemma run_sim: "fake_rel lib s c \<Longrightarrow> fake_run lib us c = spec_run lib us s"
proof (induction us arbitrary: s c)
  case (Cons u us)
  show ?case
  proof (cases "spec_use lib u s")
    case (Inl e)
    with step_sim [OF Cons.prems, of u] show ?thesis by (simp add: sim_def)
  next
    case (Inr y)
    obtain x s1 where y: "y = (x, s1)" by (cases y)
    with Inr step_sim [OF Cons.prems, of u] obtain c1 where
      "fake_step lib u c = Inr (x, c1)" "fake_rel lib s1 c1" by (auto simp: sim_def)
    with Cons.IH Inr y show ?thesis by simp
  qed
qed simp

section \<open>Objects given to the constructor\<close>

definition seedResource :: gvr where
  "seedResource = (''fic.f5.com'', ''v1'', ''f5ipams'')"

definition seeded :: "F5IPAM list \<Rightarrow> tracker \<Rightarrow> bool" where
  "seeded rs t \<longleftrightarrow> tr_scheme t = fake_Scheme \<and> tr_objects t = (\<lambda>g. if g = seedResource then rs else [])
    \<and> tr_watchers t = (\<lambda>g ns. []) \<and> tr_fakes t = []"

lemma seed_kinds:
  "ObjectKinds fake_Scheme = [((''fic.f5.com'', ''v1''), ''F5IPAM'')]"
  "UnsafeGuessKindToResource ((''fic.f5.com'', ''v1''), ''F5IPAM'') = seedResource"
  by code_simp+

lemma tracker_Add_seed:
  assumes "seeded rs t"
  shows "if ident_of r \<in> ident_of ` set rs then \<exists>e. tracker_Add r t = Inr (Some e, t)
    else \<exists>t'. tracker_Add r t = Inr (None, t') \<and> seeded (rs @ [r]) t'"
proof -
  have ns: "(if Namespace r = [] then r\<lparr>Namespace := Namespace r\<rparr> else r) = r" by simp
  have kinds: "ObjectKinds (tr_scheme t) = [((''fic.f5.com'', ''v1''), ''F5IPAM'')]"
    using assms by (simp add: seeded_def seed_kinds)
  have "tracker_Add r t = go_bind (tracker_add seedResource r (Namespace r) False t) (\<lambda>(err, t1).
      if err \<noteq> None then Inr (err, t1) else Inr (None, t1))"
    by (simp add: tracker_Add_def kinds seed_kinds(2)) (simp add: seedResource_def cong: if_cong)
  moreover have "tracker_add seedResource r (Namespace r) False t =
      (if ident_of r \<in> ident_of ` set rs then Inr (Some (FE_AlreadyExists (GroupResource seedResource) (Name r)), t)
       else Inr (None, t\<lparr>tr_objects := (tr_objects t)(seedResource := rs @ [r]), tr_fakes := []\<rparr>))"
  proof (cases "index_named (Namespace r) (Name r) rs")
    case None
    then have "ident_of r \<notin> ident_of ` set rs" by (simp add: index_named_None named_None ident_of_def [of r])
    with None assms show ?thesis unfolding tracker_add_def ns by (simp add: seeded_def getWatches_def)
  next
    case (Some i)
    then have "named rs (ident_of r) \<noteq> None" by (auto simp: ident_of_def simp flip: index_named_None)
    then have "ident_of r \<in> ident_of ` set rs" by (simp add: named_None)
    with Some assms show ?thesis unfolding tracker_add_def ns by (simp add: seeded_def)
  qed
  ultimately show ?thesis using assms by (auto simp: seeded_def)
qed

lemma add_objects_seed:
  assumes "seeded rs t" and "unique rs"
  shows "if unique (rs @ objs) then \<exists>t'. add_objects objs t = Inr t' \<and> seeded (rs @ objs) t'
    else add_objects objs t = Inl (UserPanic ''add'')"
  using assms
proof (induction objs arbitrary: rs t)
  case (Cons r objs)
  show ?case
  proof (cases "ident_of r \<in> ident_of ` set rs")
    case True
    with tracker_Add_seed [OF Cons.prems(1), of r] show ?thesis by auto
  next
    case False
    with tracker_Add_seed [OF Cons.prems(1), of r] obtain t' where
      "tracker_Add r t = Inr (None, t')" "seeded (rs @ [r]) t'" by auto
    with Cons.IH [of "rs @ [r]" t'] Cons.prems(2) False show ?thesis by (simp cong: if_cong)
  qed
qed simp

text \<open>C26: The fake clientset made with some objects panics if two of them have the same namespace
  and name. Otherwise its typed client answers every sequence of calls as a map from
  namespace and name to objects that starts empty does: writes check the namespace, create
  refuses what exists and update what does not, reads with an empty name or namespace match
  all, every watcher receives the changes of its namespaces in order and the 101st
  undelivered event panics. The objects given are never seen, since they are filed under
  another group, a list is always an error, and deleting a collection deletes nothing.\<close>

theorem fake_client_refines:
  "if distinct (map ident_of rs)
   then \<exists>cs. NewSimpleClientset lib rs = Inr cs
     \<and> (\<forall>us. fake_run lib us (fake_K8sV1 cs) = spec_run lib us spec_new)
   else NewSimpleClientset lib rs = Inl (UserPanic ''add'')"
proof -
  let ?t0 = "NewObjectTracker fake_Scheme"
  have "seeded [] ?t0" by (auto simp: seeded_def NewObjectTracker_def)
  note added = add_objects_seed [OF this, of rs]
  show ?thesis
  proof (cases "unique rs")
    case True
    with added obtain t where t: "add_objects rs ?t0 = Inr t" "seeded rs t" by auto
    let ?c = "AddWatchReactor ''*'' watch_reaction (AddReactor ''*'' ''*'' (ObjectReaction lib)
        \<lparr>fk_actions = [], ReactionChain = [], WatchReactionChain = [], fk_tracker = t\<rparr>)"
    have "f5ipamsResource \<noteq> seedResource" by (simp add: f5ipamsResource_def seedResource_def)
    with t(2) have "tr_rel spec_new t" by (simp add: tr_rel_def seeded_def spec_new_def)
    then have "fake_rel lib spec_new ?c"
      by (simp add: fake_rel_def default_chain_def AddWatchReactor_def AddReactor_def)
    then have "\<forall>us. fake_run lib us ?c = spec_run lib us spec_new" using run_sim by blast
    moreover have "NewSimpleClientset lib rs = Inr \<lparr>fcs_Fake = ?c\<rparr>"
      using t(1) by (simp add: NewSimpleClientset_def)
    ultimately show ?thesis using True by (simp add: fake_K8sV1_def)
  next
    case False
    with added show ?thesis by (simp add: NewSimpleClientset_def)
  qed
qed

end
