(* ===== verification/Statements.thy ===== *)
theory Statements
  imports Controller
begin

text \<open>
  What reaches the database. The store pastes networks, addresses and host names into its
  queries and binds addresses to its statements. Two drivers that agree on the statements whose
  texts are plain are the same to the address manager: the guards of the manager and the provider
  let no other text through, wherever it comes from, the driver's own answers included.
\<close>

section \<open>Plain statements\<close>

definition query_plain :: "string \<Rightarrow> bool" where
  "query_plain q \<longleftrightarrow>
     (\<exists>c. sql_literal c \<and> q = select_available_sql c)
     \<or> (\<exists>c ip. sql_literal c \<and> sql_literal ip \<and> q = select_available_ip_sql c ip)
     \<or> (\<exists>h. sql_literal h \<and> q = select_host_sql h)"

definition exec_plain :: "string \<Rightarrow> sql_value list \<Rightarrow> bool" where
  "exec_plain sql args \<longleftrightarrow>
     (\<exists>i. sql = allocateIPSql \<and> args = [SInt i])
     \<or> (\<exists>ip. isIPV4Addr ip \<and> sql = unallocateIPSql \<and> args = [SText ip])
     \<or> (\<exists>ip h. isIPV4Addr ip \<and> sql \<in> {insertARecordSQL, deleteARecord_sql} \<and> args = [SText ip, SText h])"

definition same_on_plain :: "'db sqlite_driver \<Rightarrow> 'db sqlite_driver \<Rightarrow> bool" where
  "same_on_plain drv drv' \<longleftrightarrow>
     drv_prepare drv = drv_prepare drv'
     \<and> (\<forall>db sql args. exec_plain sql args \<longrightarrow> drv_exec drv db sql args = drv_exec drv' db sql args)
     \<and> (\<forall>db q. query_plain q \<longrightarrow> drv_query_row drv db q = drv_query_row drv' db q)"

lemma same_prepare_exec:
  "same_on_plain drv drv' \<Longrightarrow> exec_plain sql args \<Longrightarrow> prepare_exec drv db sql args = prepare_exec drv' db sql args"
  by (auto simp: same_on_plain_def prepare_exec_def split: prod.split)

lemma same_query:
  "same_on_plain drv drv' \<Longrightarrow> query_plain q \<Longrightarrow> drv_query_row drv db q = drv_query_row drv' db q"
  by (simp add: same_on_plain_def)

section \<open>The manager\<close>

lemma plain_statements:
  "exec_plain allocateIPSql [SInt i]"
  "isIPV4Addr ip \<Longrightarrow> exec_plain unallocateIPSql [SText ip]"
  "isIPV4Addr ip \<Longrightarrow> exec_plain insertARecordSQL [SText ip, SText h]"
  "isIPV4Addr ip \<Longrightarrow> exec_plain deleteARecord_sql [SText ip, SText h]"
  "ParseCIDR c = Some n \<Longrightarrow> query_plain (select_available_sql c)"
  "ParseCIDR c = Some n \<Longrightarrow> ParseIP ip = Some a \<Longrightarrow> query_plain (select_available_ip_sql c ip)"
  "sql_literal h \<Longrightarrow> query_plain (select_host_sql h)"
  by (auto simp: exec_plain_def query_plain_def intro: ParseCIDR_literal ParseIP_literal)

lemma same_records:
  assumes "same_on_plain drv drv'"
  shows "ipmgr_CreateARecord drv m h ip = ipmgr_CreateARecord drv' m h ip"
    and "ipmgr_DeleteARecord drv m h ip = ipmgr_DeleteARecord drv' m h ip"
    and "ipmgr_ReleaseIPAddress drv m ip = ipmgr_ReleaseIPAddress drv' m ip"
  using same_prepare_exec [OF assms plain_statements(2)] same_prepare_exec [OF assms plain_statements(3)]
    same_prepare_exec [OF assms plain_statements(4)]
  by (cases "isIPV4Addr ip"; simp add: ipmgr_defs provider_defs CreateARecord_def DeleteARecord_def ReleaseIP_def)+

lemma same_AllocateIP:
  assumes "same_on_plain drv drv'" and "ParseCIDR c = Some n"
  shows "AllocateIP drv db c = AllocateIP drv' db c"
  unfolding AllocateIP_def same_query [OF assms(1) plain_statements(5) [OF assms(2)]]
    same_prepare_exec [OF assms(1) plain_statements(1)] by (rule refl)

lemma same_MarkIPAsAllocated:
  assumes "same_on_plain drv drv'" and "ParseCIDR c = Some n" and "ParseIP ip = Some a"
  shows "MarkIPAsAllocated drv db c ip = MarkIPAsAllocated drv' db c ip"
  unfolding MarkIPAsAllocated_def same_query [OF assms(1) plain_statements(6) [OF assms(2,3)]]
    same_prepare_exec [OF assms(1) plain_statements(1)] by (rule refl)

lemma same_addresses:
  assumes "same_on_plain drv drv'"
  shows "ipmgr_GetNextIPAddress drv m c = ipmgr_GetNextIPAddress drv' m c"
    and "ipmgr_AllocateIPAddress drv m c ip = ipmgr_AllocateIPAddress drv' m c ip"
    and "sql_literal h \<Longrightarrow> ipmgr_GetIPAddress drv m h = ipmgr_GetIPAddress drv' m h"
proof -
  show "ipmgr_GetNextIPAddress drv m c = ipmgr_GetNextIPAddress drv' m c"
  proof (cases "ParseCIDR c")
    case (Some n)
    show ?thesis
      unfolding ipmgr_GetNextIPAddress_def GetNextAddr_def same_AllocateIP [OF assms Some] by (rule refl)
  qed (simp add: ipmgr_GetNextIPAddress_def)
  show "ipmgr_AllocateIPAddress drv m c ip = ipmgr_AllocateIPAddress drv' m c ip"
  proof (cases "ParseCIDR c = None \<or> ParseIP ip = None")
    case False
    then obtain n a where "ParseCIDR c = Some n" "ParseIP ip = Some a" by auto
    note same = same_MarkIPAsAllocated [OF assms this]
    show ?thesis
      unfolding ipmgr_AllocateIPAddress_def AllocateIPAddress_def same by (rule refl)
  next
    case True
    then have "AllocateIPAddress drv p c ip = AllocateIPAddress drv' p c ip" for p
      by (auto simp: AllocateIPAddress_def split: option.split)
    then show ?thesis by (simp add: ipmgr_AllocateIPAddress_def)
  qed
  show "ipmgr_GetIPAddress drv m h = ipmgr_GetIPAddress drv' m h" if "sql_literal h"
    using same_query [OF assms plain_statements(7) [OF that]]
    by (simp add: ipmgr_GetIPAddress_def prov_GetIPAddress_def GetIPAddress_def)
qed

section \<open>The controller\<close>

lemma same_operations:
  assumes "same_on_plain drv drv'"
  shows "mg_CreateARecord (ipam_manager drv) = mg_CreateARecord (ipam_manager drv')"
    and "mg_DeleteARecord (ipam_manager drv) = mg_DeleteARecord (ipam_manager drv')"
    and "mg_GetNextIPAddress (ipam_manager drv) = mg_GetNextIPAddress (ipam_manager drv')"
    and "mg_AllocateIPAddress (ipam_manager drv) = mg_AllocateIPAddress (ipam_manager drv')"
    and "mg_ReleaseIPAddress (ipam_manager drv) = mg_ReleaseIPAddress (ipam_manager drv')"
    and "sql_literal h \<Longrightarrow> mg_GetIPAddress (ipam_manager drv) m h = mg_GetIPAddress (ipam_manager drv') m h"
  using same_records [OF assms] same_addresses(1,2) [OF assms] same_addresses(3) [OF assms, of h m]
  by (simp_all only: ipam_manager_def manager_iface.simps fun_eq_iff simp_thms)

lemma same_request:
  assumes "same_on_plain drv drv'" and "sql_literal (HostName req)"
  shows "handle_request (ipam_manager drv) m req = handle_request (ipam_manager drv') m req"
  unfolding handle_request_def handle_create_def handle_delete_def
    same_operations(1-5) [OF assms(1)] same_operations(6) [OF assms] by (rule refl)

lemma same_run:
  assumes "same_on_plain drv drv'"
  shows "list_all (\<lambda>req. sql_literal (HostName req)) reqs \<Longrightarrow>
    runController (ipam_manager drv) ctlr reqs = runController (ipam_manager drv') ctlr reqs"
proof (induction reqs arbitrary: ctlr)
  case (Cons req reqs)
  have lit: "sql_literal (HostName req)" using Cons.prems by simp
  have "controller_round (ipam_manager drv) ctlr req = controller_round (ipam_manager drv') ctlr req"
    unfolding controller_round_def same_request [OF assms lit] by (rule refl)
  then show ?case using Cons by simp
qed simp

end
