(* ===== verification/Spec2Isabelle.thy ===== *)
theory Spec2Isabelle
  imports System Resources Running Deepcopy Factory Listing Fakerun Statements
begin

text \<open>
  A model of the F5 IPAM controller (Go, \<open>src/cmd/f5-ipam-controller\<close> and \<open>src/pkg\<close>) and
  the theorems that say what it does. The controller watches custom resources of kind F5IPAM
  in a Kubernetes cluster. Each lists hosts with the network an address is wanted in. The
  controller takes addresses from configured ranges, keeps them in an in-memory SQLite
  database and writes them to the status of the resource.

  \<^bold>\<open>The path of a request.\<close> The informer calls an event handler of the orchestrator
  (\<open>pkg/orchestration\<close>), which puts a key on a work queue. A worker takes the keys one by one
  and sends requests over a channel. The controller (\<open>pkg/controller\<close>) serves one request at a
  time through the address manager (\<open>pkg/manager\<close>), which calls the provider
  (\<open>pkg/provider\<close>), which calls the store (\<open>pkg/provider/sqlite\<close>). Every answer is sent by a
  goroutine of its own; a second worker of the orchestrator receives the answers and updates
  the status through the REST client (\<open>pkg/ipammachinery\<close>). The informer itself lists and
  watches through the generated client (\<open>pkg/ipamapis/client\<close>).

  \<^bold>\<open>How the code is modelled.\<close> A call returns a value of type \<open>'a go\<close> (theory \<open>Prelude\<close>): the
  result, or the way the call stopped: a panic, an exit of the process, a loop without
  end. State is passed explicitly, with one record per struct; error returns are options or
  booleans as in the code; addresses are lists of 8-bit words, so the increment of an address
  wraps as in Go. Go maps are association lists or sets of keys, and where the code ranges
  over a map the order is an arbitrary function. Log lines without influence on the rest are
  left out, except in the model of the logger itself.

  \<^bold>\<open>Theories and sources.\<close>
  \<^item> \<open>Prelude\<close>, \<open>GoStrings\<close>, \<open>GoNet\<close>: results of calls; \<open>strings\<close>, \<open>strconv\<close> and \<open>net\<close> of Go's
    standard library, as far as they are used (parsing and printing of addresses and
    networks, IPv6 included).
  \<^item> \<open>Ledger\<close>: the abstract address book, two tables with an invariant (\<open>book_ok\<close>: ids and
    addresses are unique, no address is bound twice, bound addresses are allocated).
  \<^item> \<open>Sqlite\<close>, \<open>SqliteRef\<close>, \<open>Store\<close>: the database driver as a parameter, a reference driver, and
    \<open>pkg/provider/sqlite/store.go\<close> with its statement texts.
  \<^item> \<open>Provider\<close>, \<open>Addresses\<close>, \<open>IPv4\<close>, \<open>Pool\<close>, \<open>AddrText\<close>: \<open>pkg/provider/provider.go\<close>: how the pool is
    built from the ranges, that building it ends, what is in it, and the text of addresses
    and networks.
  \<^item> \<open>Manager\<close>, \<open>Startup\<close>: \<open>pkg/manager\<close>, and the book right after the start.
  \<^item> \<open>Ipamspec\<close>, \<open>Controller\<close>, \<open>Requests\<close>, \<open>Answers\<close>: \<open>pkg/ipamspec\<close> and \<open>pkg/controller\<close>: a request
    refines an operation of the book (\<open>book_serve\<close>), what sequences of requests do, and the
    step relation of the request loop with its answer goroutines.
  \<^item> \<open>Statements\<close>: which texts the manager and the controller let through to the database.
  \<^item> \<open>Fic\<close>, \<open>Workqueue\<close>, \<open>Orchestration\<close>, \<open>Events\<close>, \<open>StatusWriter\<close>: \<open>pkg/ipamapis/apis/fic/v1/types.go\<close>,
    the vendored work queue of client-go, and \<open>pkg/orchestration/kuberntes.go\<close>: handlers,
    workers, and what the answers do to a status list (\<open>status_after\<close>).
  \<^item> \<open>GoPath\<close>, \<open>Restclient\<close>: \<open>path\<close> of the standard library and the request builder of the
    vendored \<open>client-go/rest\<close>, with the encoders of apimachinery's codecs: what is sent to the
    API server, or the error before it.
  \<^item> \<open>Clientset\<close>, \<open>Clienturls\<close>: the generated clients under
    \<open>pkg/ipamapis/client/clientset/versioned\<close>, the schemes they register, the list and watch
    functions of an informer, and the requests of every method.
  \<^item> \<open>Machinery\<close>, \<open>Watching\<close>: \<open>pkg/ipammachinery\<close>: REST calls, the table of informers, start and
    stop.
  \<^item> \<open>Listing\<close>: the hand-written client against the generated one, and what the informers read.
  \<^item> \<open>Vlogger\<close>, \<open>Levels\<close>: \<open>pkg/vlogger\<close> and its console logger.
  \<^item> \<open>Program\<close>, \<open>Wiring\<close>: construction and start of the parts, and
    \<open>cmd/f5-ipam-controller/main.go\<close>.
  \<^item> \<open>Deepcopy\<close>: \<open>zz_generated.deepcopy.go\<close> on a heap of cells and arrays.
  \<^item> \<open>Factory\<close>: the generated informer factory.
  \<^item> \<open>Lister\<close>: the indexed cache of an informer (vendored \<open>client-go/tools/cache\<close>), the generated
    lister on it, and the map of names to objects both implement.
  \<^item> \<open>Fakes\<close>, \<open>Fakerun\<close>: the fake clients over the object tracker of the vendored
    \<open>client-go/testing\<close>, their specification, and the simulation between the two.
  \<^item> \<open>Agreement\<close>, \<open>Convergence\<close>, \<open>Lifecycle\<close>: the status list against the address book, room in a
    network, and a resource from its first version to its last.
  \<^item> \<open>AnswerOrder\<close>: what the order in which answers are written means for each entry of a status,
    and what is promised of status and book together (\<open>hosts_served\<close>).
  \<^item> \<open>Leaks\<close>: addresses that are lost, and entries that outlive their address.
  \<^item> \<open>Schedules\<close>: informer, worker, controller and answer worker as one step relation, with
    its invariant, the measure that bounds every run, and the orders of the answers.
  \<^item> \<open>Cluster\<close>: the histories of several resources an informer can report, and their requests.
  \<^item> \<open>Examples\<close>: concrete states for the witnesses. The properties of the whole are in \<open>System\<close>
    (events to status), \<open>Resources\<close> (several resources), \<open>Running\<close> (the process and the logger) and
    in this theory.

  \<^bold>\<open>Interfaces.\<close> Every contract between components is a locale, interpreted on the model.
  \<open>sqlite_engine\<close> says what each statement does to the tables when it succeeds, and that a
  failing call changes nothing; \<open>reliable_sqlite\<close> adds that the calls succeed. Both speak of
  the texts of the statements the store really sends, and of plain arguments only
  (\<open>sql_literal\<close>), as host names are pasted between quotes. \<open>ip_manager\<close> is what the controller
  needs of the \<open>Manager\<close> interface; \<open>reliable_sqlite\<close> is a sublocale of it, through provider and
  manager. \<open>event_queue\<close> is the work queue, \<open>kube_faulty\<close> the API the answer worker calls when any
  call may fail, \<open>kube_server\<close> the one whose calls succeed (a sublocale),
  \<open>rest_server\<close> a documented API server, asked by path and verb, over which the REST calls are
  such an API,
  \<open>object_index\<close> the \<open>Indexer\<close> the lister reads (the cache is one for every order of
  visiting a set, sublocale \<open>visiting\<close>), \<open>orchestrator\<close> the interface \<open>main\<close> starts, \<open>leveled_logger\<close> the \<open>Logger\<close> interface.

  \<^bold>\<open>What is shown.\<close> The main theorem, \<open>every_schedule_converges\<close>, composes the whole path: however
  the goroutines interleave and in whatever order the answers arrive, none panics, the system
  never gets stuck, every run is bounded (\<open>sys_load\<close> falls with every step), and at its end, after
  the events of any versions of a resource, the address book records exactly the hosts of the
  last version, each with an address no other host has, if every network is large enough. The
  status entry of every host whose own answers were written in order is its record; a host
  whose answers overtook each other may keep a stale entry (\<open>stale_status_entry\<close>), and every order
  can happen. \<open>cluster_converges\<close> says the same of any number of resources with hosts of their own,
  from a fresh start; after a restart the resources disturb each other
  (\<open>restart_moves_address\<close>). Without the hypothesis on the API server, \<open>api_faults_lose_writes\<close> keeps
  all that is said of the address book; answers whose write fails are lost. The hypotheses name what the rest shows to be needed: one network per
  host (\<open>two_networks_one_host\<close>), plain host names (\<open>hostname_collides\<close>), ranges of IPv4 that do
  not overlap (\<open>ipv6_addresses_lost\<close>, \<open>overlapping_ranges_share\<close>, \<open>mapped_range_unusable\<close>), and a database whose
  statements succeed (\<open>AllocateIP_under_faults\<close>, \<open>failed_update_double_allocation\<close>). Below it are the theorems on
  sequences of requests (exclusive addresses, none lost, restart), on single operations, on
  the pool and the text of networks, on the orchestrator, and on start and stop. On the side
  of the API server: which requests the generated client sends (\<open>typed_client_sends\<close>), that
  no two objects share a path (\<open>same_path_same_object\<close>), that the hand-written client sends
  the same but for user agent and timeout (\<open>hand_written_client_agrees\<close>), that the informers read the collection it writes
  to (\<open>informers_cover_written_objects\<close>), and that the lister shows exactly what the watch
  put into the cache (\<open>lister_exact\<close>). \<open>fake_client_refines\<close> says the same of the fake client
  tests would use, and that it never shows the objects it was made with.

  \<^bold>\<open>Bounds and termination.\<close> The pool loop and the worker loop are partial functions whose
  value \<open>None\<close> means that they do not end; both are shown to end, the first for every argument
  (after finitely many increments the address has left the network or met the end), the
  second once its queue is empty. No fuel is used.

  \<^bold>\<open>What is not modelled.\<close> client-go, the API server, go-sqlite3 and the Go scheduler are
  parameters or step relations; metrics, clocks, usage texts and the terminal width are left
  out. Of the object metadata only name, namespace and resource version are kept; the labels a
  selector reads are a parameter. The fake discovery client is left out, as are chains of
  proxies and lists of objects given to the fake. Of
  the REST client the request it builds and the checks before it is sent are modelled;
  the serializer of a content type, parsing of the host, transport, rate limiting, retries and the decoding of answers
  are parameters. Interface hooks of the generated code without a body (expansions) have no
  model. \<open>strings.ToLower\<close> is modelled on ASCII text. In
  \<open>Schedules\<close> the read and the update of a status are one step, as there is one answer worker;
  a conflict with another writer is an update that fails (\<open>kube_faulty\<close>), and the order in which
  Go visits a map is one function for a whole run, over which the theorems quantify.
  \<open>main_stop\<close> is the stop of the controller; the waiting for a signal, a log line and the closing
  of the stop channel that ends the process right after it are left out. The removal of a resource
  is treated alone (\<open>deleted_resource_frees\<close>), not among the histories of \<open>Cluster\<close>.
\<close>

section \<open>The request loop\<close>

text \<open>C3: Started on any list of IPv4 ranges whose addresses do not overlap, and over a healthy
  database, the controller serves every sequence of requests for plain host names (no quote, no
  NUL byte, no column name) without panicking, and afterwards every address recorded for a host is an address of the ranges and is recorded for no other
  host.\<close>

theorem served_addresses_exclusive:
  assumes "reliable_sqlite drv tbl has"
    and "es \<noteq> []" and "list_all valid_entry es" and "distinct (all_ips es)"
    and "list_all (\<lambda>req. sql_literal (HostName req)) reqs"
  shows "\<exists>m ctlr m'.
      NewManager drv \<lparr>Provider = F5IPAMProvider, Range = range_text es\<rparr> = Inr (Some m)
    \<and> runController (ipam_manager drv) (NewController (Some m)) reqs = Inr ctlr
    \<and> Manager ctlr = Some m'
    \<and> fst ` set (a_records (mgr_book tbl m')) \<subseteq> set (all_ips es)
    \<and> (\<forall>ip h h'. (ip, h) \<in> set (a_records (mgr_book tbl m'))
         \<longrightarrow> (ip, h') \<in> set (a_records (mgr_book tbl m')) \<longrightarrow> h = h')"
proof -
  let ?t = "snd (serve_all reqs (first_book es))"
  have "book_ok ?t" by (rule book_ok_run [OF entries_book_ok [OF assms(4)]])
  then have "\<forall>ip h h'. (ip, h) \<in> set (a_records ?t) \<longrightarrow> (ip, h') \<in> set (a_records ?t) \<longrightarrow> h = h'"
    "fst ` set (a_records ?t) \<subseteq> set (all_ips es)"
    using book_exclusive bound_in_pool run_pool [of reqs es] by (blast, force)
  with reliable_sqlite.serve_from_start [OF assms(1,2,3,5)] show ?thesis by fastforce
qed

theorem served_addresses_exclusive_witness:
  "\<exists>m ctlr m'.
      NewManager ref_driver \<lparr>Provider = F5IPAMProvider, Range = range_text ex_entries\<rparr> = Inr (Some m)
    \<and> runController (ipam_manager ref_driver) (NewController (Some m)) ex_reqs = Inr ctlr
    \<and> Manager ctlr = Some m'
    \<and> fst ` set (a_records (mgr_book ref_tables m')) \<subseteq> set (all_ips ex_entries)"
proof -
  have "list_all (\<lambda>req. sql_literal (HostName req)) ex_reqs" by code_simp
  from served_addresses_exclusive [OF ref.reliable_sqlite_axioms ex_entries_ok this] show ?thesis by blast
qed

text \<open>C4: No address is lost: after any sequence of requests for plain host names, over a healthy
  database and ranges that do not overlap, every address of the ranges is either available for allocation or recorded for a host, and never both.\<close>

theorem no_address_lost:
  assumes "reliable_sqlite drv tbl has"
    and "es \<noteq> []" and "list_all valid_entry es" and "distinct (all_ips es)"
    and "list_all (\<lambda>req. sql_literal (HostName req)) reqs"
  shows "\<exists>m ctlr m'.
      NewManager drv \<lparr>Provider = F5IPAMProvider, Range = range_text es\<rparr> = Inr (Some m)
    \<and> runController (ipam_manager drv) (NewController (Some m)) reqs = Inr ctlr
    \<and> Manager ctlr = Some m'
    \<and> set (all_ips es) = avail_ips (mgr_book tbl m') \<union> fst ` set (a_records (mgr_book tbl m'))
    \<and> avail_ips (mgr_book tbl m') \<inter> fst ` set (a_records (mgr_book tbl m')) = {}"
proof -
  have "no_leak isIPV4Addr (snd (serve_all reqs (first_book es)))"
    by (rule no_leak_run [OF first_book_no_leak [OF assms(4)]])
  note part = no_leak_partition [OF this, unfolded run_pool]
  with reliable_sqlite.serve_from_start [OF assms(1,2,3,5)] show ?thesis by fastforce
qed

theorem no_address_lost_witness:
  "\<exists>m ctlr m'.
      NewManager ref_driver \<lparr>Provider = F5IPAMProvider, Range = range_text ex_entries\<rparr> = Inr (Some m)
    \<and> runController (ipam_manager ref_driver) (NewController (Some m)) ex_reqs = Inr ctlr
    \<and> Manager ctlr = Some m'
    \<and> set (all_ips ex_entries) =
        avail_ips (mgr_book ref_tables m') \<union> fst ` set (a_records (mgr_book ref_tables m'))"
proof -
  have "list_all (\<lambda>req. sql_literal (HostName req)) ex_reqs" by code_simp
  from no_address_lost [OF ref.reliable_sqlite_axioms ex_entries_ok this] show ?thesis by blast
qed

text \<open>C6: Restart: when the first requests are the entries \<open>(host, cidr, address)\<close> of a status
  list with distinct addresses, each available in the pool of its network, every entry is
  answered with its own address and the records are exactly the entries again.\<close>

theorem restart_restores:
  assumes "reliable_sqlite drv tbl has"
    and "es \<noteq> []" and "list_all valid_entry es" and "distinct (all_ips es)"
    and "distinct (map (\<lambda>(h, c, ip). ip) sts)"
    and "list_all (\<lambda>(h, c, ip). sql_literal h) sts"
    and "list_all (entry_available isIPV4Addr addr_in_net (first_book es)) sts"
  shows "\<exists>m m'.
      NewManager drv \<lparr>Provider = F5IPAMProvider, Range = range_text es\<rparr> = Inr (Some m)
    \<and> runController (ipam_manager drv) (NewController (Some m)) (map (sync_request md) sts) =
        Inr \<lparr>Manager = Some m',
             pending = map (\<lambda>(h, c, ip). reply (create_request md h c ip) ip True) sts\<rparr>
    \<and> a_records (mgr_book tbl m') = map (\<lambda>(h, c, ip). (ip, h)) sts"
proof -
  have funs: "(\<lambda>en. fst (entry_record en)) = (\<lambda>(h, c, ip). ip)" "entry_record = (\<lambda>(h, c, ip). (ip, h))"
    "(\<lambda>en. reply (sync_request md en) (fst (entry_record en)) True) =
       (\<lambda>(h, c, ip). reply (create_request md h c ip) ip True)"
    by (auto simp: fun_eq_iff)
  have "list_all (\<lambda>req. sql_literal (HostName req)) (map (sync_request md) sts)"
    using assms(6) by (auto simp: list_all_iff)
  note run = reliable_sqlite.serve_from_start [OF assms(1-3) this]
  have recs: "a_records (first_book es) = []"
    by (simp add: entries_tables_rows) (simp add: empty_tables_def)
  have "distinct (map (\<lambda>en. fst (entry_record en)) sts)" using assms(5) by (simp only: funs(1))
  note synced = sync_restores [OF entries_book_ok [OF assms(4)] this assms(7), of md]
  show ?thesis
    using run synced(1) [unfolded funs(3)] synced(2) [unfolded funs(2)] recs by auto
qed

theorem restart_restores_witness:
  "\<exists>m m'.
      NewManager ref_driver \<lparr>Provider = F5IPAMProvider, Range = range_text ex_entries\<rparr> = Inr (Some m)
    \<and> runController (ipam_manager ref_driver) (NewController (Some m))
        (map (sync_request NoMetadata) [(''a.com'', ex_cidr, ''192.168.1.3'')]) =
        Inr \<lparr>Manager = Some m', pending =
          [reply (create_request NoMetadata ''a.com'' ex_cidr ''192.168.1.3'') ''192.168.1.3'' True]\<rparr>
    \<and> a_records (mgr_book ref_tables m') = [(''192.168.1.3'', ''a.com'')]"
proof -
  have "distinct (map (\<lambda>(h, c, ip). ip) [(''a.com'', ex_cidr, ''192.168.1.3'')])"
    "list_all (\<lambda>(h, c, ip). sql_literal h) [(''a.com'', ex_cidr, ''192.168.1.3'')]"
    "list_all (entry_available isIPV4Addr addr_in_net (first_book ex_entries)) [(''a.com'', ex_cidr, ''192.168.1.3'')]"
    by code_simp+
  from restart_restores [OF ref.reliable_sqlite_axioms ex_entries_ok this, of NoMetadata]
  show ?thesis by simp
qed

text \<open>C5: One request over a healthy database does to the tables and answers exactly what the
  address book operation \<open>book_serve\<close> says, on every branch, and keeps the manager
  well-formed.\<close>

theorem handle_request_refines:
  assumes "reliable_sqlite drv tbl has" and "mgr_wf tbl m" and "sql_literal (HostName req)"
  shows "\<exists>m'. handle_request (ipam_manager drv) m req =
        Inr (fst (book_serve isIPV4Addr addr_in_net req (mgr_book tbl m)), m')
    \<and> mgr_book tbl m' = snd (book_serve isIPV4Addr addr_in_net req (mgr_book tbl m))
    \<and> mgr_wf tbl m'"
  by (rule reliable_sqlite.request_book [OF assms])

theorem handle_request_refines_witness:
  "\<exists>m'. handle_request (ipam_manager ref_driver) ex_mgr2 (delete_request NoMetadata ''a.com'' ex_cidr []) =
        Inr (fst (book_serve isIPV4Addr addr_in_net (delete_request NoMetadata ''a.com'' ex_cidr [])
               (mgr_book ref_tables ex_mgr2)), m') \<and> mgr_wf ref_tables m'"
  using handle_request_refines [OF ref.reliable_sqlite_axioms ex_mgr_ok(2),
      of "delete_request NoMetadata ''a.com'' ex_cidr []"] ex_literals(1) by auto

text \<open>C13: CREATE is idempotent: once a host was given an address, every later CREATE for it,
  whatever network it names, is answered with the same address and leaves the tables as they
  are.\<close>

theorem create_idempotent:
  assumes "reliable_sqlite drv tbl has" and "mgr_wf tbl m" and "book_ok (mgr_book tbl m)"
    and "sql_literal h"
    and "handle_request (ipam_manager drv) m (create_request md h c []) = Inr (Some r, m1)"
    and "isIPV4Addr (RespIPAddr r)"
  shows "\<exists>m2. handle_request (ipam_manager drv) m1 (create_request md' h c' []) =
        Inr (Some (reply (create_request md' h c' []) (RespIPAddr r) True), m2)
    \<and> mgr_book tbl m2 = mgr_book tbl m1"
proof -
  have lit: "sql_literal (HostName (create_request md h c []))"
    "sql_literal (HostName (create_request md' h c' []))" using assms(4) by simp_all
  obtain m1' where "handle_request (ipam_manager drv) m (create_request md h c []) =
      Inr (fst (serve (create_request md h c []) (mgr_book tbl m)), m1')"
    "mgr_book tbl m1' = snd (serve (create_request md h c []) (mgr_book tbl m))" "mgr_wf tbl m1'"
    using reliable_sqlite.request_book [OF assms(1,2) lit(1)] by blast
  with assms(5) have wf: "mgr_wf tbl m1"
    and first: "serve (create_request md h c []) (mgr_book tbl m) = (Some r, mgr_book tbl m1)"
    by (simp_all add: prod_eq_iff)
  show ?thesis
    using reliable_sqlite.request_book [OF assms(1) wf lit(2)]
      create_twice [OF assms(3) first assms(6), where md' = md' and c' = c'] by auto
qed

theorem create_idempotent_witness:
  "\<exists>m1 m2. handle_request (ipam_manager ref_driver) ex_mgr (create_request NoMetadata ''c.com'' ex_cidr []) =
        Inr (Some (reply (create_request NoMetadata ''c.com'' ex_cidr []) ''192.168.1.1'' True), m1)
    \<and> handle_request (ipam_manager ref_driver) m1 (create_request NoMetadata ''c.com'' ''x'' []) =
        Inr (Some (reply (create_request NoMetadata ''c.com'' ''x'' []) ''192.168.1.1'' True), m2)
    \<and> mgr_book ref_tables m2 = mgr_book ref_tables m1"
proof -
  let ?m1 = "ex_state [0, 1, 1] [(''192.168.1.1'', ''c.com'')]"
  let ?r = "reply (create_request NoMetadata ''c.com'' ex_cidr []) ''192.168.1.1'' True"
  have one: "handle_request (ipam_manager ref_driver) ex_mgr (create_request NoMetadata ''c.com'' ex_cidr []) =
      Inr (Some ?r, ?m1)" and v4: "isIPV4Addr (RespIPAddr ?r)" by code_simp+
  from create_idempotent [OF ref.reliable_sqlite_axioms ex_mgr_ok(1,3) ex_literals(3) one v4,
      of NoMetadata "''x''"] one show ?thesis by (auto simp: reply_def)
qed

text \<open>C14: DELETE gives the address back: if the host has one record, the answer is positive,
  afterwards the host has no address, its former address is available again, and every
  other record and every other available address is as before.\<close>

theorem delete_gives_back:
  assumes "reliable_sqlite drv tbl has" and "mgr_wf tbl m" and "book_ok (mgr_book tbl m)"
    and "sql_literal h" and "isIPV4Addr ip"
    and "filter (\<lambda>r. snd r = h) (a_records (mgr_book tbl m)) = [(ip, h)]"
  shows "\<exists>m1. handle_request (ipam_manager drv) m (delete_request md h c i) =
        Inr (Some (reply (delete_request md h c i) [] True), m1)
    \<and> bk_lookup h (mgr_book tbl m1) = []
    \<and> avail_ips (mgr_book tbl m1) = insert ip (avail_ips (mgr_book tbl m))
    \<and> a_records (mgr_book tbl m1) = filter (\<lambda>r. snd r \<noteq> h) (a_records (mgr_book tbl m))"
proof -
  let ?req = "delete_request md h c i"
  have lit: "sql_literal (HostName ?req)" using assms(4) by simp
  have run: "serve ?req (mgr_book tbl m) = (Some (reply ?req [] True), snd (serve ?req (mgr_book tbl m)))"
    by (simp add: book_serve_def book_delete_def)
  show ?thesis
    using reliable_sqlite.request_book [OF assms(1,2) lit]
      delete_frees [OF assms(3,6,5) run] run by (metis fst_conv)
qed

theorem delete_gives_back_witness:
  "\<exists>m1. handle_request (ipam_manager ref_driver) ex_mgr2 (delete_request NoMetadata ''a.com'' ex_cidr []) =
        Inr (Some (reply (delete_request NoMetadata ''a.com'' ex_cidr []) [] True), m1)
    \<and> bk_lookup ''a.com'' (mgr_book ref_tables m1) = []
    \<and> ''192.168.1.1'' \<in> avail_ips (mgr_book ref_tables m1)"
proof -
  have "isIPV4Addr ''192.168.1.1''"
    "filter (\<lambda>r. snd r = ''a.com'') (a_records (mgr_book ref_tables ex_mgr2)) = [(''192.168.1.1'', ''a.com'')]"
    by code_simp+
  from delete_gives_back [OF ref.reliable_sqlite_axioms ex_mgr_ok(2,4) ex_literals(1) this,
      of NoMetadata ex_cidr "[]"]
  show ?thesis by blast
qed

text \<open>When no address of the network is available, a CREATE for a host without an address
  gets no answer at all and changes nothing.\<close>

theorem create_exhausted_silent:
  assumes "reliable_sqlite drv tbl has" and "mgr_wf tbl m" and "book_ok (mgr_book tbl m)"
    and "sql_literal h" and "h \<notin> snd ` set (a_records (mgr_book tbl m))"
    and "\<forall>r\<in>set (ranges (mgr_book tbl m)). row_cidr r = c \<longrightarrow> row_status r \<noteq> AVAILABLE"
  shows "\<exists>m1. handle_request (ipam_manager drv) m (create_request md h c []) = Inr (None, m1)
    \<and> mgr_book tbl m1 = mgr_book tbl m"
proof -
  have lit: "sql_literal (HostName (create_request md h c []))" using assms(4) by simp
  show ?thesis
    using reliable_sqlite.request_book [OF assms(1,2) lit]
      create_exhausted [OF assms(3,5,6), of isIPV4Addr addr_in_net md] by auto
qed

theorem create_exhausted_silent_witness:
  "\<exists>m1. handle_request (ipam_manager ref_driver) ex_mgr2 (create_request NoMetadata ''c.com'' ''10.0.0.0/8'' [])
        = Inr (None, m1) \<and> mgr_book ref_tables m1 = mgr_book ref_tables ex_mgr2"
proof -
  have "''c.com'' \<notin> snd ` set (a_records (mgr_book ref_tables ex_mgr2))"
    "\<forall>r\<in>set (ranges (mgr_book ref_tables ex_mgr2)). row_cidr r = ''10.0.0.0/8'' \<longrightarrow> row_status r \<noteq> AVAILABLE"
    by code_simp+
  from create_exhausted_silent [OF ref.reliable_sqlite_axioms ex_mgr_ok(2,4) ex_literals(3) this]
  show ?thesis .
qed

text \<open>C8: In every interleaving of requests and answers, the address book is the one the requests
  alone give, served in order, and the answers delivered and still pending are exactly the
  answers of those requests, each once: no answer is invented, duplicated or lost.\<close>

theorem interleavings_agree:
  assumes "reliable_sqlite drv tbl has" and "mgr_wf tbl m"
    and "ctlr_run (ipam_manager drv) (NewController (Some m)) evs ctlr"
    and "list_all (\<lambda>req. sql_literal (HostName req)) (received evs)"
  shows "\<exists>m'. Manager ctlr = Some m'
    \<and> mgr_book tbl m' = snd (book_run isIPV4Addr addr_in_net (received evs) (mgr_book tbl m))
    \<and> mset (sent evs) + mset (pending ctlr) =
        mset (fst (book_run isIPV4Addr addr_in_net (received evs) (mgr_book tbl m)))"
  using reliable_sqlite.interleaved_book [OF assms(1,3) _ assms(2,4)] by (auto simp: NewController_def)

theorem interleavings_agree_witness:
  "\<exists>m' evs ctlr. length (sent evs) = 1
    \<and> ctlr_run (ipam_manager ref_driver) (NewController (Some ex_mgr)) evs ctlr
    \<and> Manager ctlr = Some m'
    \<and> mgr_book ref_tables m' = snd (book_run isIPV4Addr addr_in_net (received evs) (mgr_book ref_tables ex_mgr))"
proof -
  let ?c0 = "NewController (Some ex_mgr)"
  let ?req = "create_request NoMetadata ''a.com'' ex_cidr []"
  let ?r = "reply ?req ''192.168.1.1'' True"
  let ?c1 = "\<lparr>Manager = Some (ex_state [0, 1, 1] [(''192.168.1.1'', ''a.com'')]), pending = [?r]\<rparr>"
  have "controller_round (ipam_manager ref_driver) ?c0 ?req = Inr ?c1" by code_simp
  from run_receives [OF ctlr_run.start this]
  have one: "ctlr_run (ipam_manager ref_driver) ?c0 [Received ?req] ?c1" by simp
  have "pending ?c1 = [] @ ?r # []" by simp
  from run_sends [OF one this]
  have two: "ctlr_run (ipam_manager ref_driver) ?c0 [Received ?req, Sent ?r] (?c1\<lparr>pending := []\<rparr>)" by simp
  have ev: "received [Received ?req, Sent ?r] = [?req]" "sent [Received ?req, Sent ?r] = [?r]"
    by (simp_all add: received_def sent_def)
  have "list_all (\<lambda>req. sql_literal (HostName req)) (received [Received ?req, Sent ?r])"
    using ex_literals(1) by (simp add: ev)
  from interleavings_agree [OF ref.reliable_sqlite_axioms ex_mgr_ok(1) two this] two ev
  show ?thesis by (metis length_Cons list.size(3) One_nat_def)
qed

section \<open>Building the pool\<close>

text \<open>C15: Building the provider ends for every argument and every database: it never runs
  forever and never exits the process; the only other outcome than a result is a nil
  dereference.\<close>

theorem NewProvider_ends:
  "NewProvider drv ipRange = Inl NilDeref \<or> (\<exists>prov. NewProvider drv ipRange = Inr prov)"
proof (cases "NewProvider drv ipRange")
  case (Inl e)
  then have "e = NilDeref"
    by (auto simp: NewProvider_def go_bind_eq_Inl dest: NewStore_stop generateExternalIPAddr_stop
        parseIPRange_Some split: option.splits)
  with Inl show ?thesis by simp
qed simp

text \<open>C16: A manager built from a list of IPv4 entries has in its pool exactly the addresses of
  the entries, in the order of the argument, each under the network of its entry's last
  address and all available, and no records.\<close>

theorem NewManager_pool:
  assumes "reliable_sqlite drv tbl has" and "es \<noteq> []" and "list_all valid_entry es"
  shows "\<exists>m. NewManager drv \<lparr>Provider = F5IPAMProvider, Range = range_text es\<rparr> = Inr (Some m)
    \<and> map (\<lambda>r. (row_ip r, row_cidr r)) (ranges (mgr_book tbl m)) =
        concat (map (\<lambda>(s, e, p). map (\<lambda>n. (v4_text n, v4_cidr e p)) (pool_addresses s e p)) es)
    \<and> list_all (\<lambda>r. row_status r = AVAILABLE) (ranges (mgr_book tbl m))
    \<and> a_records (mgr_book tbl m) = []"
proof -
  have empty: "ranges empty_tables = []" "a_records empty_tables = []" by (simp_all add: empty_tables_def)
  have entry: "(\<lambda>en. map (\<lambda>ip. (ip, entry_cidr en)) (entry_ips en)) =
      (\<lambda>(s, e, p). map (\<lambda>n. (v4_text n, v4_cidr e p)) (pool_addresses s e p))"
    by (auto simp: fun_eq_iff)
  have "list_all (\<lambda>r. row_status r = AVAILABLE) (ranges (first_book es))"
    by (rule entries_tables_rows(4)) (simp add: empty)
  moreover have "a_records (first_book es) = []" by (simp add: entries_tables_rows empty)
  moreover note entries_tables_rows(1) [of es empty_tables, unfolded entry empty list.map append_Nil]
  moreover obtain m where "NewManager drv (f5_params es) = Inr (Some m)" "mgr_book tbl m = first_book es"
    using reliable_sqlite.NewManager_book [OF assms] by blast
  ultimately show ?thesis by (intro exI [of _ m]) simp
qed

theorem NewManager_pool_witness:
  "\<exists>m. NewManager ref_driver \<lparr>Provider = F5IPAMProvider, Range = range_text ex_entries\<rparr> = Inr (Some m)
    \<and> map (\<lambda>r. (row_ip r, row_cidr r)) (ranges (mgr_book ref_tables m)) =
        [(''192.168.1.1'', ex_cidr), (''192.168.1.2'', ex_cidr), (''192.168.1.3'', ex_cidr)]"
  using NewManager_pool [OF ref.reliable_sqlite_axioms ex_entries_ok(1,2)] unfolding ex_pool
  by (elim exE conjE) (intro exI conjI, assumption+)

section \<open>The store\<close>

text \<open>C11: \<open>AllocateIP\<close> over a healthy database returns the address of the available row of the
  network with the least id and marks that row and no other allocated; without such a row it
  returns the empty string and changes nothing. The records are untouched.\<close>

theorem AllocateIP_takes_least:
  assumes "reliable_sqlite drv tbl has" and "sql_literal c"
    and "pool_ok (tbl db)" and "sorted (map row_id (ranges (tbl db)))"
  shows "\<exists>ip db'. AllocateIP drv db c = Inr (ip, db') \<and> a_records (tbl db') = a_records (tbl db)
    \<and> (case tb_available c (tbl db) of
         None \<Rightarrow> ip = [] \<and> tbl db' = tbl db
       | Some r \<Rightarrow> ip = row_ip r \<and> row_status r = AVAILABLE \<and> row_cidr r = c
           \<and> (\<forall>s\<in>set (ranges (tbl db)). row_status s = AVAILABLE \<and> row_cidr s = c \<longrightarrow> row_id r \<le> row_id s)
           \<and> avail_ips (tbl db') = avail_ips (tbl db) - {ip}
           \<and> alloc_ips (tbl db') = insert ip (alloc_ips (tbl db)))"
proof -
  obtain db' where run: "AllocateIP drv db c = Inr (fst (bk_next c (tbl db)), db')"
    "tbl db' = snd (bk_next c (tbl db))"
    using reliable_sqlite.AllocateIP_book [OF assms(1,2)] by blast
  show ?thesis
  proof (cases "tb_available c (tbl db)")
    case None
    with run show ?thesis by (simp add: bk_next_def)
  next
    case (Some r)
    note r = tb_available_SomeD [OF Some]
    have "\<forall>s\<in>set (ranges (tbl db)). row_status s = AVAILABLE \<and> row_cidr s = c \<longrightarrow> row_id r \<le> row_id s"
      using tb_available_least [OF assms(4) Some] by blast
    with run Some r show ?thesis
      by (simp add: bk_next_def alloc_ips_mark [OF assms(3)] avail_ips_mark [OF assms(3)])
  qed
qed

theorem AllocateIP_takes_least_witness:
  "\<exists>ip db'. AllocateIP ref_driver (ex_db ex_mgr2) ex_cidr = Inr (ip, db')
     \<and> a_records (ref_tables db') = a_records (ref_tables (ex_db ex_mgr2))"
proof -
  have "sorted (map row_id (ranges (ref_tables (ex_db ex_mgr2))))" by code_simp
  with AllocateIP_takes_least [OF ref.reliable_sqlite_axioms ex_literals(4), of "ex_db ex_mgr2"]
    ex_mgr_ok(4) ex_db_book show ?thesis by (auto simp: book_ok_def)
qed

text \<open>C12: \<open>MarkIPAsAllocated\<close> over a healthy database succeeds exactly when the network has an
  available row with the address; then the address stops being available, otherwise nothing
  changes.\<close>

theorem MarkIPAsAllocated_exact:
  assumes "reliable_sqlite drv tbl has" and "sql_literal c" and "sql_literal ip" and "pool_ok (tbl db)"
  shows "\<exists>b db'. MarkIPAsAllocated drv db c ip = Inr (b, db')
    \<and> (b \<longleftrightarrow> (\<exists>r\<in>set (ranges (tbl db)). row_status r = AVAILABLE \<and> row_cidr r = c \<and> row_ip r = ip))
    \<and> (if b then avail_ips (tbl db') = avail_ips (tbl db) - {ip}
              \<and> alloc_ips (tbl db') = insert ip (alloc_ips (tbl db))
              \<and> a_records (tbl db') = a_records (tbl db)
       else tbl db' = tbl db)"
proof -
  obtain db' where run: "MarkIPAsAllocated drv db c ip = Inr (fst (bk_take c ip (tbl db)), db')"
    "tbl db' = snd (bk_take c ip (tbl db))"
    using reliable_sqlite.MarkIPAsAllocated_book [OF assms(1-3)] by blast
  show ?thesis
  proof (cases "tb_available_ip c ip (tbl db)")
    case None
    then have "\<not> (\<exists>r\<in>set (ranges (tbl db)). row_status r = AVAILABLE \<and> row_cidr r = c \<and> row_ip r = ip)"
      by (auto simp: tb_available_ip_def find_None_iff)
    with None run show ?thesis by (intro exI [of _ False] exI [of _ db']) (simp add: bk_take_def)
  next
    case (Some r)
    from tb_available_ip_SomeD [OF Some] run Some show ?thesis
      by (auto simp: bk_take_def alloc_ips_mark [OF assms(4)] avail_ips_mark [OF assms(4)])
  qed
qed

theorem MarkIPAsAllocated_exact_witness:
  "\<exists>b db'. MarkIPAsAllocated ref_driver (ex_db ex_mgr) ex_cidr ''192.168.1.2'' = Inr (b, db')
     \<and> (b \<longleftrightarrow> (\<exists>r\<in>set (ranges (ref_tables (ex_db ex_mgr))).
           row_status r = AVAILABLE \<and> row_cidr r = ex_cidr \<and> row_ip r = ''192.168.1.2''))"
proof -
  have "pool_ok (ref_tables (ex_db ex_mgr))" using ex_mgr_ok(3) by (simp add: ex_db_book book_ok_def)
  from MarkIPAsAllocated_exact [OF ref.reliable_sqlite_axioms ex_literals(4,5) this]
  show ?thesis by blast
qed

text \<open>\<open>GetIPAddress\<close> over a healthy database returns an address recorded for the host, the
  least of them, and the empty string for a host without a record; it changes nothing.\<close>

theorem GetIPAddress_least:
  assumes "reliable_sqlite drv tbl has" and "sql_literal h" and "book_ok (tbl db)"
  shows "\<exists>ip db'. GetIPAddress drv db h = (ip, db') \<and> tbl db' = tbl db
    \<and> (if h \<in> snd ` set (a_records (tbl db))
       then (ip, h) \<in> set (a_records (tbl db)) \<and> (\<forall>jp. (jp, h) \<in> set (a_records (tbl db)) \<longrightarrow> ip \<le> jp)
       else ip = [])"
proof -
  obtain db' where run: "GetIPAddress drv db h = (bk_lookup h (tbl db), db')" "tbl db' = tbl db"
    using reliable_sqlite.GetIPAddress_book [OF assms(1,2)] by blast
  show ?thesis
  proof (cases "tb_host_ip h (tbl db)")
    case None
    with run show ?thesis by (simp add: bk_lookup_def tb_host_ip_None)
  next
    case (Some ip)
    have "ip \<le> jp" if "(jp, h) \<in> set (a_records (tbl db))" for jp
      using least_ip_le [OF Some [unfolded tb_host_ip_def]] that by force
    with run Some tb_host_ip_SomeD [OF Some] show ?thesis by (force simp: bk_lookup_def)
  qed
qed

theorem GetIPAddress_least_witness:
  "\<exists>ip db'. GetIPAddress ref_driver (ex_db ex_mgr2) ''b.com'' = (ip, db')
     \<and> (ip, ''b.com'') \<in> set (a_records (ref_tables (ex_db ex_mgr2)))"
proof -
  have "''b.com'' \<in> snd ` set (a_records (ref_tables (ex_db ex_mgr2)))" by code_simp
  moreover have "book_ok (ref_tables (ex_db ex_mgr2))" using ex_mgr_ok(4) by (simp add: ex_db_book)
  ultimately show ?thesis
    using GetIPAddress_least [OF ref.reliable_sqlite_axioms ex_literals(2), of "ex_db ex_mgr2"] by metis
qed

text \<open>C22: \<open>AllocateIP\<close> when database calls fail, for a network that is plain text. If the query gives no
  row, also because it failed, the answer is empty and the tables stay as they are. Otherwise a
  row is available, and: when the \<open>UPDATE\<close> cannot be prepared the call panics; when it runs, the
  address of the row is returned and exactly that row is marked; when it is refused, the
  address is returned all the same, the row stays available, and the next call can only
  return this address again, or none.\<close>

theorem AllocateIP_under_faults:
  assumes "sqlite_engine drv tbl" and "sql_literal c"
  shows "case drv_query_row drv db (select_available_sql c) of
      (None, db1) \<Rightarrow> AllocateIP drv db c = Inr ([], db1) \<and> tbl db1 = tbl db
    | (Some row, db1) \<Rightarrow> \<exists>r. tb_available c (tbl db) = Some r \<and>
        (case drv_prepare drv db1 allocateIPSql of
           (False, db2) \<Rightarrow> AllocateIP drv db c = Inl NilDeref \<and> tbl db2 = tbl db
         | (True, db2) \<Rightarrow>
             (case drv_exec drv db2 allocateIPSql [SInt (row_id r)] of
                (True, db3) \<Rightarrow> AllocateIP drv db c = Inr (row_ip r, db3)
                  \<and> tbl db3 = tb_status_by_id ALLOCATED (row_id r) (tbl db)
              | (False, db3) \<Rightarrow> AllocateIP drv db c = Inr (row_ip r, db3) \<and> tbl db3 = tbl db
                  \<and> (\<forall>ip db4. AllocateIP drv db3 c = Inr (ip, db4) \<longrightarrow> ip \<in> {[], row_ip r})))"
proof -
  obtain row db1 where q: "drv_query_row drv db (select_available_sql c) = (row, db1)" by fastforce
  show ?thesis
  proof (cases row)
    case None
    with q sqlite_engine.AllocateIP_none [OF assms, of db db1] show ?thesis by simp
  next
    case (Some cols)
    then have q': "drv_query_row drv db (select_available_sql c) = (Some cols, db1)" using q by simp
    from sqlite_engine.AllocateIP_row [OF assms q'] obtain r where r: "tb_available c (tbl db) = Some r"
      and run: "AllocateIP drv db c =
        (case drv_prepare drv db1 allocateIPSql of
           (False, db2) \<Rightarrow> Inl NilDeref
         | (True, db2) \<Rightarrow> Inr (row_ip r, snd (drv_exec drv db2 allocateIPSql [SInt (row_id r)])))"
      and eff: "\<forall>p db2 ok db3. drv_prepare drv db1 allocateIPSql = (p, db2) \<longrightarrow>
        drv_exec drv db2 allocateIPSql [SInt (row_id r)] = (ok, db3) \<longrightarrow>
        tbl db3 = (if ok then tb_status_by_id ALLOCATED (row_id r) (tbl db) else tbl db)" by (elim exE conjE)
    obtain p db2 where p: "drv_prepare drv db1 allocateIPSql = (p, db2)" by fastforce
    obtain ok db3 where e: "drv_exec drv db2 allocateIPSql [SInt (row_id r)] = (ok, db3)" by fastforce
    have "tbl db1 = tbl db" "tbl db2 = tbl db1"
      using sqlite_engine.query_available(1) [OF assms, of db] sqlite_engine.prepare_tables [OF assms(1), of db1 allocateIPSql]
      by (simp_all add: q' p)
    moreover have "ip \<in> {[], row_ip r}" if "tbl db3 = tbl db" "AllocateIP drv db3 c = Inr (ip, db4)" for ip db4
      using sqlite_engine.AllocateIP_returns [OF assms that(2)] that(1) r by auto
    ultimately show ?thesis
      unfolding q' using r run eff [rule_format, OF p e] by (cases p; cases ok) (auto simp: p e)
  qed
qed

theorem AllocateIP_under_faults_witness:
  "\<exists>db1. AllocateIP failing_driver (ex_db ex_mgr) ex_cidr = Inr (''192.168.1.1'', db1)
     \<and> ref_tables db1 = ref_tables (ex_db ex_mgr)"
proof -
  let ?row = "\<lparr>row_id = 1, row_ip = ''192.168.1.1'', row_status = 1, row_cidr = ex_cidr\<rparr>"
  have q: "drv_query_row failing_driver (ex_db ex_mgr) (select_available_sql ex_cidr) =
      (Some [SText ''192.168.1.1'', SInt 1], ex_db ex_mgr)"
    "drv_prepare failing_driver (ex_db ex_mgr) allocateIPSql = (True, ex_db ex_mgr)"
    "drv_exec failing_driver (ex_db ex_mgr) allocateIPSql [SInt 1] = (False, ex_db ex_mgr)"
    by code_simp+
  have row: "tb_available ex_cidr (ref_tables (ex_db ex_mgr)) = Some ?row" by code_simp
  note faults = AllocateIP_under_faults [OF failing.sqlite_engine_axioms ex_literals(4), of "ex_db ex_mgr",
      unfolded q(1) row prod.case option.case]
  then obtain r where r: "?row = r" and
    "case drv_prepare failing_driver (ex_db ex_mgr) allocateIPSql of
       (False, db2) \<Rightarrow> AllocateIP failing_driver (ex_db ex_mgr) ex_cidr = Inl NilDeref \<and> ref_tables db2 = ref_tables (ex_db ex_mgr)
     | (True, db2) \<Rightarrow>
         (case drv_exec failing_driver db2 allocateIPSql [SInt (row_id r)] of
            (True, db3) \<Rightarrow> AllocateIP failing_driver (ex_db ex_mgr) ex_cidr = Inr (row_ip r, db3)
              \<and> ref_tables db3 = tb_status_by_id ALLOCATED (row_id r) (ref_tables (ex_db ex_mgr))
          | (False, db3) \<Rightarrow> AllocateIP failing_driver (ex_db ex_mgr) ex_cidr = Inr (row_ip r, db3)
              \<and> ref_tables db3 = ref_tables (ex_db ex_mgr)
              \<and> (\<forall>ip db4. AllocateIP failing_driver db3 ex_cidr = Inr (ip, db4) \<longrightarrow> ip \<in> {[], row_ip r}))"
    unfolding option.inject by (elim exE conjE)
  note this(2) [folded r, unfolded range_row.simps q(2) q(3) prod.case bool.case]
  then show ?thesis unfolding range_row.simps by (elim conjE) (intro exI conjI)
qed

section \<open>Addresses\<close>

text \<open>C27: \<open>inc\<close> adds one to an address of any length read as a big-endian number, wrapping
  around at the top, and keeps its length.\<close>

theorem inc_adds_one:
  "ip_val (inc ip) = (ip_val ip + 1) mod 256 ^ length ip \<and> length (inc ip) = length ip"
  by (simp add: ip_val_inc)

text \<open>One round of the pool loop on an IPv4 entry registers the network of the last address
  and inserts exactly the addresses from the first to the last one; when the last address is
  smaller or in another network, the addresses from the first to the end of its network.\<close>

theorem add_range_pool:
  assumes "reliable_sqlite drv tbl has" and "s < 2 ^ 32" and "e < 2 ^ 32" and "p \<le> 32"
  shows "\<exists>prov'. add_range drv prov (range_entry s e p) = Inr prov'
    \<and> cidrs prov' = AList.update (v4_cidr e p) True (cidrs prov)
    \<and> tbl (store prov') = tb_insert_ips
        (map v4_text
          (if s \<le> e \<and> s div 2 ^ (32 - p) = e div 2 ^ (32 - p) then [s..<Suc e]
           else [s..<s div 2 ^ (32 - p) * 2 ^ (32 - p) + 2 ^ (32 - p)]))
        (v4_cidr e p) (tbl (store prov))"
proof -
  have "valid_entry (s, e, p)" using assms(2-4) by simp
  from reliable_sqlite.add_range_book [OF assms(1) this, of prov] show ?thesis
    by (fastforce simp: pool_addresses_def same_net_def v4_base_def)
qed

theorem add_range_pool_witness:
  "\<exists>prov'. add_range ref_driver (provider (the ex_mgr)) (range_entry 3232235786 3232235787 24) = Inr prov'
    \<and> cidrs prov' = AList.update (v4_cidr 3232235787 24) True (cidrs (provider (the ex_mgr)))"
  using add_range_pool [OF ref.reliable_sqlite_axioms, of 3232235786 3232235787 24] by fastforce

text \<open>C34: Only plain text reaches the database. Take two drivers that agree on the queries whose pasted
  texts have no quote, no NUL byte and are no column name, and on the statements that mark a
  row by its id or are given an IPv4 address, and that may differ in anything else. For every
  argument and every answer of the driver the manager's operations on addresses and records
  give the same on both, and so do all sequences of requests whose host names are plain (the
  host name is the one text that is pasted unchecked, see \<open>hostname_collides\<close>).\<close>

theorem only_plain_statements:
  assumes "same_on_plain drv drv'"
  shows "mg_CreateARecord (ipam_manager drv) m h ip = mg_CreateARecord (ipam_manager drv') m h ip
    \<and> mg_DeleteARecord (ipam_manager drv) m h ip = mg_DeleteARecord (ipam_manager drv') m h ip
    \<and> mg_GetNextIPAddress (ipam_manager drv) m c = mg_GetNextIPAddress (ipam_manager drv') m c
    \<and> mg_AllocateIPAddress (ipam_manager drv) m c ip = mg_AllocateIPAddress (ipam_manager drv') m c ip
    \<and> mg_ReleaseIPAddress (ipam_manager drv) m ip = mg_ReleaseIPAddress (ipam_manager drv') m ip
    \<and> (list_all (\<lambda>req. sql_literal (HostName req)) reqs \<longrightarrow>
         runController (ipam_manager drv) ctlr reqs = runController (ipam_manager drv') ctlr reqs)"
  using same_operations(1-5) [OF assms] same_run [OF assms] by simp

text \<open>A driver that forgets its tables on any other query or statement.\<close>

definition strict_driver :: "ref_db sqlite_driver" where
  "strict_driver = ref_driver\<lparr>
     drv_exec := (\<lambda>db sql args. if exec_plain sql args then ref_exec db sql args else (True, (empty_tables, []))),
     drv_query_row := (\<lambda>db q. if query_plain q then drv_query_row ref_driver db q else (None, (empty_tables, [])))\<rparr>"

lemma strict_same: "same_on_plain strict_driver ref_driver"
  by (simp add: same_on_plain_def strict_driver_def ref_driver_def)

definition bad_cidr :: string where
  "bad_cidr = ''10.0.0.0/24'' @ [dquote] @ '' OR '' @ [dquote] @ ''1'' @ [dquote] @ ''='' @ [dquote] @ ''1''"

theorem only_plain_statements_witness:
  "\<exists>ctlr. runController (ipam_manager strict_driver) (NewController (Some ex_mgr))
     [create_request NoMetadata ''a.com'' bad_cidr [], create_request NoMetadata ''b.com'' ex_cidr []] = Inr ctlr
   \<and> pending ctlr = [reply (create_request NoMetadata ''b.com'' ex_cidr []) ''192.168.1.1'' True]"
proof -
  let ?reqs = "[create_request NoMetadata ''a.com'' bad_cidr [], create_request NoMetadata ''b.com'' ex_cidr []]"
  have "list_all (\<lambda>req. sql_literal (HostName req)) ?reqs" using ex_literals(1,2) by simp
  then have run: "runController (ipam_manager strict_driver) (NewController (Some ex_mgr)) ?reqs =
      runController (ipam_manager ref_driver) (NewController (Some ex_mgr)) ?reqs"
    using only_plain_statements [OF strict_same] by blast
  have "(case runController (ipam_manager ref_driver) (NewController (Some ex_mgr)) ?reqs of
      Inl _ \<Rightarrow> False
    | Inr ctlr \<Rightarrow> pending ctlr = [reply (create_request NoMetadata ''b.com'' ex_cidr []) ''192.168.1.1'' True])"
    by code_simp
  then show ?thesis unfolding run by (auto split: sum.splits)
qed

section \<open>The orchestrator\<close>

text \<open>C18: Events are handled one by one in the order the informer reports them: a reported event
  goes behind all waiting ones, and the worker handles the first waiting one, sends its
  requests and leaves the others waiting; no event is dropped or merged with another. Left
  alone, the worker's loop sends the requests of all waiting keys in order and then waits.\<close>

theorem events_in_order:
  assumes "client_ok k8sc" and "\<not> wq_shuttingDown (rscQueue k8sc)"
  shows "(\<exists>k. enqueueIPAM k8sc (Resource (Some r)) = Inr k \<and> client_ok k
         \<and> waiting_keys k = waiting_keys k8sc @ [\<lparr>rsc = Some r, oldRsc = None, rq_Operation = OP_CREATE\<rparr>])
    \<and> (\<exists>k. enqueueUpdatedIPAM k8sc (Resource old) (Resource (Some r)) = Inr k \<and> client_ok k
         \<and> waiting_keys k = waiting_keys k8sc @ [\<lparr>rsc = Some r, oldRsc = old, rq_Operation = UPDATE\<rparr>])
    \<and> (\<exists>k. enqueueDeletedIPAM k8sc (Resource old) = Inr k \<and> client_ok k
         \<and> waiting_keys k = waiting_keys k8sc @ [\<lparr>rsc = old, oldRsc = None, rq_Operation = OP_DELETE\<rparr>])
    \<and> (\<forall>key keys reqs. waiting_keys k8sc = key # keys \<longrightarrow> key_requests o1 o2 key = (reqs, None) \<longrightarrow>
         (\<exists>k. processResource o1 o2 k8sc = Some (reqs, Inr (True, k)) \<and> client_ok k \<and> waiting_keys k = keys))
    \<and> (list_all (\<lambda>key. snd (key_requests o1 o2 key) = None) (waiting_keys k8sc) \<longrightarrow>
         (\<exists>k. customResourceWorker o1 o2 k8sc = Some (keys_requests o1 o2 (waiting_keys k8sc), Inr (True, k))
            \<and> client_ok k \<and> waiting_keys k = []))"
proof -
  have "\<exists>k. processResource o1 o2 k8sc = Some (reqs, Inr (True, k)) \<and> client_ok k \<and> waiting_keys k = keys"
    if "waiting_keys k8sc = key # keys" "key_requests o1 o2 key = (reqs, None)" for key keys reqs
    using processResource_next [OF assms(1) that(1), of o1 o2] that(2) by auto
  then show ?thesis
    using add_key_waiting [OF assms] worker_drains [OF assms(1) refl assms(2), of o1 o2]
    by (simp add: enqueueIPAM_def enqueueUpdatedIPAM_def enqueueDeletedIPAM_def keys_requests_def)
qed

theorem events_in_order_witness:
  "\<exists>k. enqueueIPAM new_client (Resource (Some (ex_rsc [] []))) = Inr k \<and> client_ok k
     \<and> waiting_keys k = waiting_keys new_client
         @ [\<lparr>rsc = Some (ex_rsc [] []), oldRsc = None, rq_Operation = OP_CREATE\<rparr>]"
proof -
  have "\<not> wq_shuttingDown (rscQueue new_client)" by (simp add: new_client_def wq_new_def)
  from events_in_order [OF client_ok_new this, of "ex_rsc [] []" None id id] show ?thesis by blast
qed

text \<open>C17: An update event sends exactly the difference: one DELETE for every host entry of the
  old object that the new one does not have, then one CREATE for every entry that is new,
  each once, and nothing for the entries that stay, whatever order the maps are visited in.\<close>

theorem update_sends_difference:
  assumes "map_order o1" and "map_order o2"
    and "None \<notin> set (hosts_of old)" and "None \<notin> set (hosts_of r)"
  shows "\<exists>ds cs. key_requests o1 o2 \<lparr>rsc = Some r, oldRsc = Some old, rq_Operation = UPDATE\<rparr> =
        (map (spec_request OP_DELETE r) ds @ map (spec_request OP_CREATE r) cs, None)
    \<and> distinct ds \<and> set ds = {s. Some s \<in> set (hosts_of old) \<and> Some s \<notin> set (hosts_of r)}
    \<and> distinct cs \<and> set cs = {s. Some s \<in> set (hosts_of r) \<and> Some s \<notin> set (hosts_of old)}"
  using update_sends [OF assms] by (simp add: key_requests_def spec_diff_def)

theorem update_sends_difference_witness:
  "\<exists>ds cs. key_requests rev id
       \<lparr>rsc = Some (ex_rsc [Some \<lparr>hs_Host = ''b'', hs_Cidr = ''n''\<rparr>] []),
        oldRsc = Some (ex_rsc [Some \<lparr>hs_Host = ''a'', hs_Cidr = ''n''\<rparr>] []), rq_Operation = UPDATE\<rparr> =
       (map (spec_request OP_DELETE (ex_rsc [Some \<lparr>hs_Host = ''b'', hs_Cidr = ''n''\<rparr>] [])) ds
        @ map (spec_request OP_CREATE (ex_rsc [Some \<lparr>hs_Host = ''b'', hs_Cidr = ''n''\<rparr>] [])) cs, None)
     \<and> set ds = {\<lparr>hs_Host = ''a'', hs_Cidr = ''n''\<rparr>}"
proof -
  let ?old = "ex_rsc [Some \<lparr>hs_Host = ''a'', hs_Cidr = ''n''\<rparr>] []"
  let ?new = "ex_rsc [Some \<lparr>hs_Host = ''b'', hs_Cidr = ''n''\<rparr>] []"
  have "map_order rev" "map_order id" "None \<notin> set (hosts_of ?old)" "None \<notin> set (hosts_of ?new)"
    by (simp_all add: map_order_def ex_rsc_def)
  moreover have "{s. Some s \<in> set (hosts_of ?old) \<and> Some s \<notin> set (hosts_of ?new)} =
      {\<lparr>hs_Host = ''a'', hs_Cidr = ''n''\<rparr>}" by (auto simp: ex_rsc_def)
  ultimately obtain ds cs where
    "key_requests rev id \<lparr>rsc = Some ?new, oldRsc = Some ?old, rq_Operation = UPDATE\<rparr> =
      (map (spec_request OP_DELETE ?new) ds @ map (spec_request OP_CREATE ?new) cs, None)"
    "set ds = {\<lparr>hs_Host = ''a'', hs_Cidr = ''n''\<rparr>}"
    using update_sends_difference [of rev id ?old ?new] by auto
  then show ?thesis by blast
qed

text \<open>C9: The answers for one resource change its status list and nothing else of any resource:
  a positive CREATE writes the address into the entries of its host and network or appends
  an entry, a refused CREATE and a DELETE drop the last such entry, in the order the
  answers arrive, and no answer makes the orchestrator panic.\<close>

theorem answers_written:
  assumes "kube_server K stored"
    and "list_all (\<lambda>resp. Metadata (Request resp) = Meta \<lparr>meta_name = nm, meta_namespace = ns\<rparr>) resps"
    and "map_option status_of (stored api (ns, nm)) = Some (map Some sts)"
  shows "\<exists>api'. processResponse K api resps = Inr api'
    \<and> (\<forall>k. map_option status_of (stored api' k) =
        (if k = (ns, nm) then Some (map Some (fold status_after resps sts))
         else map_option status_of (stored api k)))"
  by (rule kube_server.responses_written [OF assms])

theorem answers_written_witness:
  "\<exists>api'. processResponse kube_ref [ex_rsc [] []]
        [reply (create_request ex_meta ''a.com'' ex_cidr []) ''192.168.1.1'' True] = Inr api'
    \<and> map_option status_of (ref_find api' (''kube-system'', ''ipam'')) =
        Some [Some \<lparr>ips_Host = ''a.com'', ips_Cidr = ex_cidr, ips_IP = ''192.168.1.1''\<rparr>]"
proof -
  let ?resps = "[reply (create_request ex_meta ''a.com'' ex_cidr []) ''192.168.1.1'' True]"
  have "list_all (\<lambda>resp. Metadata (Request resp) = ex_meta) ?resps" by (simp add: reply_def)
  from answers_written [OF kube.kube_server_axioms this, of "[ex_rsc [] []]" "[]"]
  obtain api' where run: "processResponse kube_ref [ex_rsc [] []] ?resps = Inr api'"
    and st: "\<forall>k. map_option status_of (ref_find api' k) =
        (if k = (''kube-system'', ''ipam'') then Some (map Some (fold status_after ?resps []))
         else map_option status_of (ref_find [ex_rsc [] []] k))"
    by (auto simp: ex_rsc_stored)
  have "fold status_after ?resps [] = [\<lparr>ips_Host = ''a.com'', ips_Cidr = ex_cidr, ips_IP = ''192.168.1.1''\<rparr>]"
    by (simp add: status_after_def status_put_def reply_def)
  with run st [rule_format, of "(''kube-system'', ''ipam'')"] show ?thesis by auto
qed

text \<open>C28: The text of an IPv4 network is canonical: two IPv4 addresses with the same prefix length have
  the same network text exactly when they are in the same network, and the text parses back to
  the network. For the same address in IPv4-mapped notation (\<open>::ffff:a.b.c.d\<close>, with a prefix of
  96 bits or more), which the parser accepts too, it is not: the address is printed as IPv4 but
  the prefix as it was, and this text does not parse.\<close>

theorem cidr_text_canonical:
  assumes "m < 2 ^ 32" and "n < 2 ^ 32" and "p \<le> 32"
  shows "(\<exists>a net b net' c.
      ParseCIDR (v4_text m @ ''/'' @ uitoa p) = Some (a, net)
    \<and> ParseCIDR (v4_text n @ ''/'' @ uitoa p) = Some (b, net')
    \<and> (cidr_text net = cidr_text net' \<longleftrightarrow> m div 2 ^ (32 - p) = n div 2 ^ (32 - p))
    \<and> ParseCIDR (cidr_text net) = Some (c, net))
    \<and> (\<exists>net. ParseCIDR (''::ffff:'' @ v4_text m @ ''/'' @ uitoa (96 + p)) = Some (v4_of m, net)
    \<and> cidr_text net = v4_text (v4_base m p) @ ''/'' @ uitoa (96 + p)
    \<and> ParseCIDR (cidr_text net) = None)"
proof -
  have "v4_cidr m p = v4_cidr n p \<longleftrightarrow> v4_base m p = v4_base n p"
    using v4_base_less [OF assms(1), of p] v4_base_less [OF assms(2), of p]
    by (simp add: v4_cidr_def)
  then have same: "cidr_text (v4_net m p) = cidr_text (v4_net n p) \<longleftrightarrow>
      m div 2 ^ (32 - p) = n div 2 ^ (32 - p)"
    using assms by (simp add: cidr_text_v4 v4_base_def)
  have reparsed: "ParseCIDR (cidr_text (v4_net m p)) = Some (v4_of (v4_base m p), v4_net m p)"
    using ParseCIDR_v4 [OF assms(3), of "v4_base m p"] v4_net_base [OF assms(1,3)]
    by (simp add: cidr_text_v4 [OF assms(1,3)] v4_cidr_def)
  have "96 + p < net_big" using assms(3) by (simp add: net_big_def)
  then have "ParseCIDR (cidr_text (mapped_net m p)) = None"
    unfolding cidr_text_mapped [OF assms(3)] using ParseCIDR_long [of "96 + p"] by simp
  then have "\<exists>net. ParseCIDR (''::ffff:'' @ v4_text m @ ''/'' @ uitoa (96 + p)) = Some (v4_of m, net)
    \<and> cidr_text net = v4_text (v4_base m p) @ ''/'' @ uitoa (96 + p)
    \<and> ParseCIDR (cidr_text net) = None"
    using ParseCIDR_mapped [OF assms(1,3)] cidr_text_mapped [OF assms(3), of m] by (simp add: mapped_text_def)
  with same reparsed show ?thesis using ParseCIDR_v4 [OF assms(3)] by blast
qed

theorem cidr_text_canonical_witness:
  "\<exists>net. ParseCIDR (v4_text 3232235777 @ ''/'' @ uitoa 24) = Some (v4_of 3232235777, net)
     \<and> (\<exists>c. ParseCIDR (cidr_text net) = Some (c, net))"
proof -
  have "ParseCIDR (v4_text 3232235777 @ ''/'' @ uitoa 24) = Some (v4_of 3232235777, v4_net 3232235777 24)"
    by (rule ParseCIDR_v4) simp
  with cidr_text_canonical [of 3232235777 3232235778 24] show ?thesis by auto
qed

section \<open>Where the guarantees end\<close>

text \<open>A range of IPv4-mapped addresses goes into the pool under such a text: no network a request can
  name leads to its addresses.\<close>

theorem mapped_range_unusable:
  "\<exists>m. NewManager ref_driver \<lparr>Provider = F5IPAMProvider, Range = ''::ffff:10.0.0.1/120-::ffff:10.0.0.2/120''\<rparr> = Inr (Some m)
    \<and> map row_ip (ranges (mgr_book ref_tables m)) = [''10.0.0.1'', ''10.0.0.2'']
    \<and> (\<forall>c. mg_GetNextIPAddress (ipam_manager ref_driver) m c = Inr ([], m))"
proof -
  let ?new = "NewManager ref_driver \<lparr>Provider = F5IPAMProvider, Range = ''::ffff:10.0.0.1/120-::ffff:10.0.0.2/120''\<rparr>"
  have "(case ?new of
      Inr (Some (Some mgr)) \<Rightarrow> map row_ip (ranges (ref_tables (store (provider mgr)))) = [''10.0.0.1'', ''10.0.0.2'']
        \<and> cidrs (provider mgr) = [(''10.0.0.0/120'', True)]
    | _ \<Rightarrow> False)" by code_simp
  then obtain mgr where mgr: "?new = Inr (Some (Some mgr))"
    "map row_ip (ranges (ref_tables (store (provider mgr)))) = [''10.0.0.1'', ''10.0.0.2'']"
    "cidrs (provider mgr) = [(''10.0.0.0/120'', True)]"
    by (auto split: sum.splits option.splits)
  have long: "ParseCIDR ''10.0.0.0/120'' = None" by code_simp
  have "mg_GetNextIPAddress (ipam_manager ref_driver) (Some mgr) c = Inr ([], Some mgr)" for c
    by (cases "c = ''10.0.0.0/120''")
      (simp_all add: ipam_manager_def ipmgr_GetNextIPAddress_def long with_provider_def GetNextAddr_def mgr(3) split: option.split)
  with mgr(1,2) show ?thesis by (intro exI [of _ "Some mgr"]) simp
qed

text \<open>When the database refuses the statement that marks an address allocated, the address
  is handed out nevertheless, and again to the next host: the error of the update is logged
  and dropped.\<close>

theorem failed_update_double_allocation:
  "\<exists>m'. runController (ipam_manager failing_driver) (NewController (Some ex_mgr))
       [create_request NoMetadata ''a.com'' ex_cidr [], create_request NoMetadata ''b.com'' ex_cidr []] =
     Inr \<lparr>Manager = Some m', pending =
       [reply (create_request NoMetadata ''a.com'' ex_cidr []) ''192.168.1.1'' True,
        reply (create_request NoMetadata ''b.com'' ex_cidr []) ''192.168.1.1'' True]\<rparr>
    \<and> a_records (mgr_book ref_tables m') = [(''192.168.1.1'', ''a.com''), (''192.168.1.1'', ''b.com'')]"
proof -
  let ?m = "ex_state [1, 1, 1] [(''192.168.1.1'', ''a.com''), (''192.168.1.1'', ''b.com'')]"
  have "runController (ipam_manager failing_driver) (NewController (Some ex_mgr))
       [create_request NoMetadata ''a.com'' ex_cidr [], create_request NoMetadata ''b.com'' ex_cidr []] =
     Inr \<lparr>Manager = Some ?m, pending =
       [reply (create_request NoMetadata ''a.com'' ex_cidr []) ''192.168.1.1'' True,
        reply (create_request NoMetadata ''b.com'' ex_cidr []) ''192.168.1.1'' True]\<rparr>"
    by code_simp
  moreover have "a_records (mgr_book ref_tables ?m) =
      [(''192.168.1.1'', ''a.com''), (''192.168.1.1'', ''b.com'')]"
    by (simp add: ex_state_def ref_tables_def)
  ultimately show ?thesis by blast
qed

text \<open>C36: A host called \<open>hostname\<close> collides with the column: its CREATE is answered with the
  least address of any host, although nothing is recorded for it, and its DELETE makes that
  address available while the other host keeps its record.\<close>

theorem hostname_collides:
  assumes "reliable_sqlite drv tbl has" and "mgr_wf tbl m"
    and "tb_any_ip (mgr_book tbl m) = Some ip" and "isIPV4Addr ip"
    and "(ip, ''hostname'') \<notin> set (a_records (mgr_book tbl m))"
  shows "(\<exists>m1. handle_request (ipam_manager drv) m (create_request md ''hostname'' c []) =
        Inr (Some (reply (create_request md ''hostname'' c []) ip True), m1)
        \<and> mgr_book tbl m1 = mgr_book tbl m)
    \<and> (\<exists>m2. handle_request (ipam_manager drv) m (delete_request md ''hostname'' c []) =
        Inr (Some (reply (delete_request md ''hostname'' c []) [] True), m2)
        \<and> mgr_book tbl m2 = bk_release ip (mgr_book tbl m))"
  using reliable_sqlite.hostname_lookup [OF assms] by blast

theorem hostname_collides_witness:
  "(\<exists>m1. handle_request (ipam_manager ref_driver) ex_mgr2 (create_request NoMetadata ''hostname'' ex_cidr []) =
        Inr (Some (reply (create_request NoMetadata ''hostname'' ex_cidr []) ''192.168.1.1'' True), m1))
   \<and> (\<exists>m2. handle_request (ipam_manager ref_driver) ex_mgr2 (delete_request NoMetadata ''hostname'' ex_cidr []) =
        Inr (Some (reply (delete_request NoMetadata ''hostname'' ex_cidr []) [] True), m2)
        \<and> mgr_book ref_tables m2 = bk_release ''192.168.1.1'' (mgr_book ref_tables ex_mgr2))"
proof -
  have hyps: "tb_any_ip (mgr_book ref_tables ex_mgr2) = Some ''192.168.1.1''" "isIPV4Addr ''192.168.1.1''"
    "(''192.168.1.1'', ''hostname'') \<notin> set (a_records (mgr_book ref_tables ex_mgr2))"
    by code_simp+
  from hostname_collides [OF ref.reliable_sqlite_axioms ex_mgr_ok(2) hyps, of NoMetadata ex_cidr]
  show ?thesis by blast
qed

text \<open>Two entries that overlap put the common address into the pool twice, and two hosts
  get it.\<close>

theorem overlapping_ranges_share:
  "\<exists>m m'. NewManager ref_driver \<lparr>Provider = F5IPAMProvider,
         Range = ''10.0.0.1/24-10.0.0.1/24,10.0.0.1/24-10.0.0.2/24''\<rparr> = Inr (Some m)
    \<and> runController (ipam_manager ref_driver) (NewController (Some m))
        [create_request NoMetadata ''a'' ''10.0.0.0/24'' [], create_request NoMetadata ''b'' ''10.0.0.0/24'' []] =
      Inr \<lparr>Manager = Some m', pending =
        [reply (create_request NoMetadata ''a'' ''10.0.0.0/24'' []) ''10.0.0.1'' True,
         reply (create_request NoMetadata ''b'' ''10.0.0.0/24'' []) ''10.0.0.1'' True]\<rparr>"
proof -
  let ?s = "\<lambda>a b c recs. Some \<lparr>provider = \<lparr>store =
     (\<lparr>ranges = [\<lparr>row_id = 1, row_ip = ''10.0.0.1'', row_status = a, row_cidr = ''10.0.0.0/24''\<rparr>,
                 \<lparr>row_id = 2, row_ip = ''10.0.0.1'', row_status = b, row_cidr = ''10.0.0.0/24''\<rparr>,
                 \<lparr>row_id = 3, row_ip = ''10.0.0.2'', row_status = c, row_cidr = ''10.0.0.0/24''\<rparr>],
       a_records = recs, next_id = 4\<rparr>, [''a_records'', ''ipaddress_range'']),
     cidrs = [(''10.0.0.0/24'', True)]\<rparr>\<rparr>"
  have "NewManager ref_driver \<lparr>Provider = F5IPAMProvider,
      Range = ''10.0.0.1/24-10.0.0.1/24,10.0.0.1/24-10.0.0.2/24''\<rparr> = Inr (Some (?s 1 1 1 []))"
    by code_simp
  moreover have "runController (ipam_manager ref_driver) (NewController (Some (?s 1 1 1 [])))
        [create_request NoMetadata ''a'' ''10.0.0.0/24'' [], create_request NoMetadata ''b'' ''10.0.0.0/24'' []] =
      Inr \<lparr>Manager = Some (?s 0 0 1 [(''10.0.0.1'', ''a''), (''10.0.0.1'', ''b'')]), pending =
        [reply (create_request NoMetadata ''a'' ''10.0.0.0/24'' []) ''10.0.0.1'' True,
         reply (create_request NoMetadata ''b'' ''10.0.0.0/24'' []) ''10.0.0.1'' True]\<rparr>"
    by code_simp
  ultimately show ?thesis by blast
qed

text \<open>The two ends of an entry are not required to be in the same network. If they are not,
  the addresses are filed under a network that contains none of them, and a request for one
  of them by name, as after a restart, is refused.\<close>

theorem mismatched_ends_unreachable:
  assumes "reliable_sqlite drv tbl has" and "s < 2 ^ 32" and "e < 2 ^ 32" and "p \<le> 32"
    and "s div 2 ^ (32 - p) \<noteq> e div 2 ^ (32 - p)"
  shows "\<exists>m. NewManager drv \<lparr>Provider = F5IPAMProvider, Range = range_text [(s, e, p)]\<rparr> = Inr (Some m)
    \<and> ranges (mgr_book tbl m) \<noteq> []
    \<and> (\<forall>r\<in>set (ranges (mgr_book tbl m)). row_cidr r = v4_cidr e p
         \<and> (\<exists>m'. mg_AllocateIPAddress (ipam_manager drv) m (row_cidr r) (row_ip r) = Inr (False, m')))"
proof -
  have ok: "list_all valid_entry [(s, e, p)]" "[(s, e, p)] \<noteq> []" using assms(2-4) by simp_all
  obtain m where m: "NewManager drv (f5_params [(s, e, p)]) = Inr (Some m)" "mgr_wf tbl m"
    "mgr_book tbl m = first_book [(s, e, p)]"
    using reliable_sqlite.NewManager_book [OF assms(1) ok(2,1)] by blast
  have rows: "map (\<lambda>r. (row_ip r, row_cidr r)) (ranges (mgr_book tbl m)) =
      map (\<lambda>n. (v4_text n, v4_cidr e p)) (pool_addresses s e p)"
    unfolding m(3) entries_tables_rows(1) by (simp add: empty_tables_def o_def)
  have "\<not> same_net p s e" using assms(5) by (simp add: same_net_def)
  then have pool: "pool_addresses s e p = [s..<v4_base s p + 2 ^ (32 - p)]" by (simp add: pool_addresses_def)
  have "same_net p s s" by (simp add: same_net_def)
  then have "s < v4_base s p + 2 ^ (32 - p)" using same_net_iff_bounds by blast
  then have "pool_addresses s e p \<noteq> []" by (simp add: pool)
  then have nonempty: "ranges (mgr_book tbl m) \<noteq> []" using rows by auto
  have row: "row_cidr r = v4_cidr e p
      \<and> (\<exists>m'. mg_AllocateIPAddress (ipam_manager drv) m (row_cidr r) (row_ip r) = Inr (False, m'))"
    if r: "r \<in> set (ranges (mgr_book tbl m))" for r
  proof -
    have "(row_ip r, row_cidr r) \<in> set (map (\<lambda>r. (row_ip r, row_cidr r)) (ranges (mgr_book tbl m)))"
      using r by simp
    then obtain n where n: "row_ip r = v4_text n" "row_cidr r = v4_cidr e p" "n \<in> set (pool_addresses s e p)"
      unfolding rows by auto
    then have bounds: "s \<le> n" "n < v4_base s p + 2 ^ (32 - p)" by (simp_all add: pool)
    then have "same_net p s n"
      using same_net_iff_bounds [of p s n] same_net_iff_bounds [of p s s] \<open>same_net p s s\<close> by linarith
    moreover have "n < 2 ^ 32" using bounds(2) net_end_le [OF assms(2,4)] by linarith
    ultimately have "\<not> addr_in_net (v4_cidr e p) (v4_text n)"
      using assms(5) addr_in_net_v4 [OF assms(3) _ assms(4), of n] by (simp add: same_net_def)
    with n reliable_sqlite.take_by_name [OF assms(1) m(2), of "row_cidr r" "row_ip r"]
    show ?thesis by auto
  qed
  with m(1) nonempty show ?thesis by blast
qed

theorem mismatched_ends_unreachable_witness:
  "\<exists>m. NewManager ref_driver \<lparr>Provider = F5IPAMProvider,
        Range = range_text [(3232235774, 3232235777, 24)]\<rparr> = Inr (Some m)
    \<and> ranges (mgr_book ref_tables m) \<noteq> []"
  using mismatched_ends_unreachable [OF ref.reliable_sqlite_axioms, of 3232235774 3232235777 24] by fastforce

end
